(* ===== verification/Gate_Prelude.thy ===== *)
theory Gate_Prelude
  imports Main "HOL-Library.Word" "HOL-Library.Sublist"
begin

text \<open>
  Shared vocabulary of the development: the machine types of the Go code, the functions of
  Go's \<open>strings\<close> and \<open>fmt\<close> packages that the gateway calls, and the collections of hints
  that the component theories extend.

  A Go \<open>string\<close> is a sequence of bytes: it is an Isabelle \<open>string\<close>, whose characters are
  8-bit values. A \<open>[]byte\<close> is a list of 8-bit words. A Go \<open>int\<close>, \<open>int64\<close> or
  \<open>time.Duration\<close> is a 64-bit word read by \<open>sint\<close>.
\<close>

named_theorems gate_run \<open>evaluation of one operation on one branch\<close>
named_theorems gate_keep \<open>state components an operation leaves alone\<close>

unbundle bit_operations_syntax

type_synonym byte = "8 word"
type_synonym bytes = "byte list"
type_synonym go_int = "64 word"
type_synonym go_int64 = "64 word"
type_synonym go_uint64 = "64 word"
type_synonym duration = "64 word"
type_synonym time = int

section \<open>Decimal printing\<close>

text \<open>\<open>fmt.Sprintf\<close> with the verb \<open>%d\<close>, and \<open>strconv.Itoa\<close>: the decimal text of a signed value.\<close>

definition digit_char :: "nat \<Rightarrow> char" where
  "digit_char d = char_of (48 + d)"

fun nat_text :: "nat \<Rightarrow> string" where
  "nat_text n = (if n < 10 then [digit_char n] else nat_text (n div 10) @ [digit_char (n mod 10)])"

declare nat_text.simps [simp del]

definition int_text :: "int \<Rightarrow> string" where
  "int_text i = (if i < 0 then CHR ''-'' # nat_text (nat (- i)) else nat_text (nat i))"

definition fmt_d :: "go_int \<Rightarrow> string" where
  "fmt_d w = int_text (sint w)"

definition is_digit :: "char \<Rightarrow> bool" where
  "is_digit c \<longleftrightarrow> 48 \<le> (of_char c :: nat) \<and> (of_char c :: nat) \<le> 57"

fun text_value :: "nat \<Rightarrow> string \<Rightarrow> nat" where
  "text_value acc [] = acc"
| "text_value acc (c # cs) = text_value (10 * acc + (of_char c - 48)) cs"

lemma of_char_digit [simp]: "d < 10 \<Longrightarrow> (of_char (digit_char d) :: nat) = 48 + d"
  by (simp add: digit_char_def)

lemma text_value_append: "text_value acc (xs @ ys) = text_value (text_value acc xs) ys"
  by (induction xs arbitrary: acc) simp_all

lemma text_value_nat_text: "text_value 0 (nat_text n) = n"
proof (induction n rule: nat_text.induct)
  case (1 n)
  show ?case
  proof (cases "n < 10")
    case True
    then show ?thesis by (subst nat_text.simps) simp
  next
    case False
    with "1.IH" show ?thesis by (subst nat_text.simps) (simp add: text_value_append)
  qed
qed

lemma nat_text_digits: "c \<in> set (nat_text n) \<Longrightarrow> is_digit c"
proof (induction n rule: nat_text.induct)
  case (1 n)
  then show ?case
    by (cases "n < 10") (auto simp: nat_text.simps [of n] is_digit_def)
qed

lemma nat_text_not_Nil [simp]: "nat_text n \<noteq> []"
  by (subst nat_text.simps) simp

lemma nat_text_inject [simp]: "nat_text m = nat_text n \<longleftrightarrow> m = n"
  by (metis text_value_nat_text)

lemma minus_not_digit [simp]: "\<not> is_digit (CHR ''-'')"
  by (simp add: is_digit_def)

lemma colon_not_digit [simp]: "\<not> is_digit (CHR '':'')"
  by (simp add: is_digit_def)

lemma nat_text_hd: "is_digit (hd (nat_text n))"
  by (rule nat_text_digits [of _ n]) simp

lemma int_text_inject [simp]: "int_text i = int_text j \<longleftrightarrow> i = j"
proof
  assume eq: "int_text i = int_text j"
  have "(i < 0) = (j < 0)"
    using eq nat_text_hd [of "nat i"] nat_text_hd [of "nat j"]
    by (auto simp: int_text_def split: if_splits)
       (metis list.sel(1) minus_not_digit nat_text_hd)+
  with eq show "i = j"
    by (auto simp: int_text_def split: if_splits)
qed simp

lemma fmt_d_inject [simp]: "fmt_d v = fmt_d w \<longleftrightarrow> v = w"
proof
  assume "fmt_d v = fmt_d w"
  then show "v = w" by (intro signed_word_eqI) (simp add: fmt_d_def)
qed simp

lemma int_text_no_colon: "CHR '':'' \<notin> set (int_text i)"
  by (auto simp: int_text_def dest: nat_text_digits)

lemma fmt_d_no_colon [simp]: "CHR '':'' \<notin> set (fmt_d w)"
  by (simp add: fmt_d_def int_text_no_colon)

lemma separated_inject:
  assumes "c \<notin> set xs" "c \<notin> set xs'"
  shows "xs @ c # ys = xs' @ c # ys' \<longleftrightarrow> xs = xs' \<and> ys = ys'"
  using assms
proof (induction xs arbitrary: xs')
  case Nil
  then show ?case by (cases xs') auto
next
  case (Cons x xs)
  then show ?case by (cases xs') auto
qed

section \<open>The strings package\<close>

definition has_prefix :: "'a list \<Rightarrow> 'a list \<Rightarrow> bool" where
  "has_prefix s p \<longleftrightarrow> take (length p) s = p"

lemma has_prefix_not_Nil: "has_prefix s p \<Longrightarrow> p \<noteq> [] \<Longrightarrow> s \<noteq> []"
  by (auto simp: has_prefix_def)

definition trim_prefix :: "string \<Rightarrow> string \<Rightarrow> string" where
  "trim_prefix s p = (if has_prefix s p then drop (length p) s else s)"

text \<open>\<open>strings.TrimLeft(s, "/")\<close>.\<close>

definition trim_left_slashes :: "string \<Rightarrow> string" where
  "trim_left_slashes s = dropWhile (\<lambda>c. c = CHR ''/'') s"

text \<open>\<open>bytes.Contains\<close>.\<close>

fun contains :: "'a list \<Rightarrow> 'a list \<Rightarrow> bool" where
  "contains [] p = (p = [])"
| "contains (x # xs) p = (has_prefix (x # xs) p \<or> contains xs p)"

text \<open>\<open>strings.Split\<close> with a separator of one byte.\<close>

fun split_on :: "char \<Rightarrow> string \<Rightarrow> string list" where
  "split_on c [] = [[]]"
| "split_on c (x # xs) =
     (if x = c then [] # split_on c xs
      else (case split_on c xs of [] \<Rightarrow> [[x]] | y # ys \<Rightarrow> (x # y) # ys))"

text \<open>\<open>strings.Join\<close> with a separator of one byte.\<close>

fun join_with :: "char \<Rightarrow> string list \<Rightarrow> string" where
  "join_with c [] = []"
| "join_with c [x] = x"
| "join_with c (x # xs) = x @ c # join_with c xs"

text \<open>
  \<open>strings.TrimSpace\<close> removes, at both ends, the UTF-8 encodings of the code points for
  which \<open>unicode.IsSpace\<close> holds. The encodings are self-synchronising, so removing an
  encoding at the end is removing that suffix.
\<close>

definition space_encodings :: "string list" where
  "space_encodings =
     [[CHR 0x09], [CHR 0x0A], [CHR 0x0B], [CHR 0x0C], [CHR 0x0D], [CHR 0x20],
      [CHR 0xC2, CHR 0x85], [CHR 0xC2, CHR 0xA0], [CHR 0xE1, CHR 0x9A, CHR 0x80],
      [CHR 0xE2, CHR 0x80, CHR 0x80], [CHR 0xE2, CHR 0x80, CHR 0x81],
      [CHR 0xE2, CHR 0x80, CHR 0x82], [CHR 0xE2, CHR 0x80, CHR 0x83],
      [CHR 0xE2, CHR 0x80, CHR 0x84], [CHR 0xE2, CHR 0x80, CHR 0x85],
      [CHR 0xE2, CHR 0x80, CHR 0x86], [CHR 0xE2, CHR 0x80, CHR 0x87],
      [CHR 0xE2, CHR 0x80, CHR 0x88], [CHR 0xE2, CHR 0x80, CHR 0x89],
      [CHR 0xE2, CHR 0x80, CHR 0x8A], [CHR 0xE2, CHR 0x80, CHR 0xA8],
      [CHR 0xE2, CHR 0x80, CHR 0xA9], [CHR 0xE2, CHR 0x80, CHR 0xAF],
      [CHR 0xE2, CHR 0x81, CHR 0x9F], [CHR 0xE3, CHR 0x80, CHR 0x80]]"

function strip_front :: "string list \<Rightarrow> string \<Rightarrow> string" where
  "strip_front es s =
     (case find (\<lambda>e. e \<noteq> [] \<and> has_prefix s e) es of
        None \<Rightarrow> s
      | Some e \<Rightarrow> strip_front es (drop (length e) s))"
  by pat_completeness auto
termination
  by (relation "measure (\<lambda>(es, s). length s)")
     (auto simp: find_Some_iff intro!: diff_less dest: has_prefix_not_Nil)

declare strip_front.simps [simp del]

definition trim_space :: "string \<Rightarrow> string" where
  "trim_space s =
     rev (strip_front (map rev space_encodings) (rev (strip_front space_encodings s)))"

text \<open>
  \<open>strings.ToLower\<close>: on ASCII text it maps byte by byte; on other text it uses the Unicode
  tables, which are an argument (\<open>ul\<close>).
\<close>

definition is_ascii :: "string \<Rightarrow> bool" where
  "is_ascii s \<longleftrightarrow> list_all (\<lambda>c. (of_char c :: nat) < 128) s"

definition lower_char :: "char \<Rightarrow> char" where
  "lower_char c =
     (if 65 \<le> (of_char c :: nat) \<and> (of_char c :: nat) \<le> 90 then char_of ((of_char c :: nat) + 32) else c)"

definition to_lower :: "(string \<Rightarrow> string) \<Rightarrow> string \<Rightarrow> string" where
  "to_lower ul s = (if is_ascii s then map lower_char s else ul s)"

text \<open>A text between apostrophes, as the format \<open>'%s'\<close> prints it.\<close>

definition quoted :: "string \<Rightarrow> string" where
  "quoted s = [CHR 0x27] @ s @ [CHR 0x27]"

lemma has_prefix_prefix: "has_prefix s p \<longleftrightarrow> prefix p s"
  by (metis append_eq_conv_conj append_take_drop_id has_prefix_def prefix_def)

lemma has_prefix_append [simp]: "has_prefix (p @ s) p"
  by (simp add: has_prefix_def)

lemma trim_prefix_append [simp]: "trim_prefix (p @ s) p = s"
  by (simp add: trim_prefix_def)

lemma trim_left_slashes_id: "s = [] \<or> hd s \<noteq> CHR ''/'' \<Longrightarrow> trim_left_slashes s = s"
  by (cases s) (auto simp: trim_left_slashes_def)

lemma split_on_not_Nil [simp]: "split_on c s \<noteq> []"
  by (induction s) (auto split: list.splits)

lemma join_split [simp]: "join_with c (split_on c s) = s"
proof (induction s)
  case Nil
  show ?case by simp
next
  case (Cons x xs)
  obtain y ys where "split_on c xs = y # ys"
    by (meson neq_Nil_conv split_on_not_Nil)
  with Cons show ?case by (cases ys) auto
qed

lemma split_on_no_sep: "c \<notin> set s \<Longrightarrow> split_on c s = [s]"
  by (induction s) auto

lemma split_on_append: "c \<notin> set s \<Longrightarrow> split_on c (s @ c # t) = s # split_on c t"
  by (induction s) auto

lemma trim_space_Nil [simp]: "trim_space [] = []"
  by (simp add: trim_space_def strip_front.simps space_encodings_def has_prefix_def)

lemma is_ascii_Nil [simp]: "is_ascii []"
  and is_ascii_Cons [simp]: "is_ascii (c # s) \<longleftrightarrow> (of_char c :: nat) < 128 \<and> is_ascii s"
  by (simp_all add: is_ascii_def)

lemma lower_char_idem [simp]: "lower_char (lower_char c) = lower_char c"
  by (simp add: lower_char_def)

lemma lower_char_ascii: "(of_char c :: nat) < 128 \<Longrightarrow> (of_char (lower_char c) :: nat) < 128"
  by (simp add: lower_char_def)

lemma to_lower_idem: "is_ascii s \<Longrightarrow> to_lower ul (to_lower ul s) = to_lower ul s"
  by (auto simp: to_lower_def is_ascii_def list_all_iff lower_char_ascii)

section \<open>Durations\<close>

definition second :: duration where
  "second = 1000000000"

text \<open>\<open>time.Duration(n) * time.Second\<close>, a 64-bit multiplication that wraps.\<close>

definition seconds :: "go_int \<Rightarrow> duration" where
  "seconds n = n * second"

lemma sint_seconds:
  assumes "- 9223372036 \<le> sint n" "sint n \<le> 9223372036"
  shows "sint (seconds n) = sint n * 1000000000"
proof -
  have "sint (seconds n) = signed_take_bit 63 (sint n * sint second)"
    by (simp add: seconds_def sint_word_ariths)
  also have "sint second = 1000000000"
    by (simp add: second_def)
  also have "signed_take_bit 63 (sint n * 1000000000) = sint n * 1000000000"
    using assms by (intro signed_take_bit_int_eq_self) auto
  finally show ?thesis .
qed

section \<open>Lists of configuration entries read into a map\<close>

lemma find_append:
  "find P (xs @ ys) = (case find P xs of Some x \<Rightarrow> Some x | None \<Rightarrow> find P ys)"
  by (induction xs) simp_all

lemma fold_map_upd:
  "fold (\<lambda>c m. m(f c \<mapsto> g c)) cs m k =
     (case find (\<lambda>c. f c = k) (rev cs) of Some c \<Rightarrow> Some (g c) | None \<Rightarrow> m k)"
proof (induction cs arbitrary: m)
  case Nil
  show ?case by simp
next
  case (Cons c cs)
  show ?case
    unfolding rev.simps find_append fold_Cons o_apply Cons.IH
    by (auto split: option.splits)
qed

end
