(* ===== verification/Gate_Errors.thy ===== *)
theory Gate_Errors
  imports Gate_Prelude
begin

text \<open>
  Errors and results. A Go error is a value: the sentinels of \<open>domain/errors.go\<close>,
  \<open>domain/cache.go\<close> and \<open>request/context.go\<close>, an error made with \<open>errors.New\<close> or
  \<open>errors.Errorf\<close>, an error from code outside the repository, an error wrapped by
  \<open>errors.WithMessage\<close>, or the \<open>HttpError\<close> of \<open>httperrors/errors.go\<close>. A call that returns
  \<open>(value, error)\<close> is a \<open>res\<close>; \<open>Panic\<close> is a run-time panic, which no code of the gateway
  recovers while it serves a request.
\<close>

section \<open>JSON values\<close>

text \<open>The values the gateway hands to the JSON encoder; object members in the order of the source.\<close>

datatype json =
    JNull
  | JStr string
  | JArr "json list"
  | JObj "(string \<times> json) list"

section \<open>Errors\<close>

datatype go_error =
    ErrNotAuthenticated
  | ErrAuthenticationCacheMiss
  | ErrUserAuthSettingNotFound
  | ErrEmptyUserToken
  | ErrInvalidUserToken
  | ErrNoCookie
  | NewError string
  | ExternalError string
  | WithMessage go_error string
  | HttpError (he_statusCode: nat) (he_userMessage: string) (he_details: "json list") (he_err: go_error)

datatype 'a res = Ok 'a | Err go_error | Panic

text \<open>\<open>httperrors.New\<close> and \<open>WithDetails\<close>.\<close>

definition New_HttpError :: "nat \<Rightarrow> string \<Rightarrow> go_error \<Rightarrow> go_error" where
  "New_HttpError statusCode userMessage internalError = HttpError statusCode userMessage [] internalError"

fun WithDetails :: "go_error \<Rightarrow> json list \<Rightarrow> go_error" where
  "WithDetails (HttpError c m d e) details = HttpError c m details e"
| "WithDetails e details = e"

text \<open>\<open>Error()\<close>: an \<open>HttpError\<close> shows the text of its internal error.\<close>

primrec Error :: "go_error \<Rightarrow> string" where
  "Error ErrNotAuthenticated = ''not authenticated''"
| "Error ErrAuthenticationCacheMiss = ''authentication not found in cache''"
| "Error ErrUserAuthSettingNotFound = ''user auth setting not found''"
| "Error ErrEmptyUserToken = ''failed to extract user token''"
| "Error ErrInvalidUserToken = ''invalid user token''"
| "Error ErrNoCookie = ''http: named cookie not present''"
| "Error (NewError s) = s"
| "Error (ExternalError s) = s"
| "Error (WithMessage e m) = m @ '': '' @ Error e"
| "Error (HttpError c m d e) = Error e"

text \<open>
  \<open>errors.Is\<close> with a sentinel as target: the chain is unwrapped through \<open>WithMessage\<close> only;
  \<open>HttpError\<close> has no \<open>Unwrap\<close> method.
\<close>

fun errors_Is :: "go_error \<Rightarrow> go_error \<Rightarrow> bool" where
  "errors_Is (WithMessage e m) target = (WithMessage e m = target \<or> errors_Is e target)"
| "errors_Is e target = (e = target)"

lemma errors_Is_refl [simp]: "errors_Is e e"
  by (cases e) simp_all

section \<open>The error response\<close>

text \<open>\<open>http.StatusText\<close>.\<close>

definition status_texts :: "(nat \<times> string) list" where
  "status_texts =
     [(100, ''Continue''), (101, ''Switching Protocols''), (102, ''Processing''), (103, ''Early Hints''),
      (200, ''OK''), (201, ''Created''), (202, ''Accepted''), (203, ''Non-Authoritative Information''),
      (204, ''No Content''), (205, ''Reset Content''), (206, ''Partial Content''),
      (207, ''Multi-Status''), (208, ''Already Reported''), (226, ''IM Used''),
      (300, ''Multiple Choices''), (301, ''Moved Permanently''), (302, ''Found''), (303, ''See Other''),
      (304, ''Not Modified''), (305, ''Use Proxy''), (307, ''Temporary Redirect''),
      (308, ''Permanent Redirect''),
      (400, ''Bad Request''), (401, ''Unauthorized''), (402, ''Payment Required''), (403, ''Forbidden''),
      (404, ''Not Found''), (405, ''Method Not Allowed''), (406, ''Not Acceptable''),
      (407, ''Proxy Authentication Required''), (408, ''Request Timeout''), (409, ''Conflict''),
      (410, ''Gone''), (411, ''Length Required''), (412, ''Precondition Failed''),
      (413, ''Request Entity Too Large''), (414, ''Request URI Too Long''),
      (415, ''Unsupported Media Type''), (416, ''Requested Range Not Satisfiable''),
      (417, ''Expectation Failed''), (418, ''I'' @ [CHR 0x27] @ ''m a teapot''), (421, ''Misdirected Request''),
      (422, ''Unprocessable Entity''), (423, ''Locked''), (424, ''Failed Dependency''),
      (425, ''Too Early''), (426, ''Upgrade Required''), (428, ''Precondition Required''),
      (429, ''Too Many Requests''), (431, ''Request Header Fields Too Large''),
      (451, ''Unavailable For Legal Reasons''),
      (500, ''Internal Server Error''), (501, ''Not Implemented''), (502, ''Bad Gateway''),
      (503, ''Service Unavailable''), (504, ''Gateway Timeout''), (505, ''HTTP Version Not Supported''),
      (506, ''Variant Also Negotiates''), (507, ''Insufficient Storage''), (508, ''Loop Detected''),
      (510, ''Not Extended''), (511, ''Network Authentication Required'')]"

definition StatusText :: "nat \<Rightarrow> string" where
  "StatusText code = (case map_of status_texts code of Some t \<Rightarrow> t | None \<Rightarrow> [])"

definition StatusOK :: nat where "StatusOK = 200"
definition StatusBadRequest :: nat where "StatusBadRequest = 400"
definition StatusUnauthorized :: nat where "StatusUnauthorized = 401"
definition StatusForbidden :: nat where "StatusForbidden = 403"
definition StatusNotFound :: nat where "StatusNotFound = 404"
definition StatusRequestTimeout :: nat where "StatusRequestTimeout = 408"
definition StatusConflict :: nat where "StatusConflict = 409"
definition StatusPreconditionFailed :: nat where "StatusPreconditionFailed = 412"
definition StatusTooManyRequests :: nat where "StatusTooManyRequests = 429"
definition StatusInternalServerError :: nat where "StatusInternalServerError = 500"
definition StatusNotImplemented :: nat where "StatusNotImplemented = 501"
definition StatusServiceUnavailable :: nat where "StatusServiceUnavailable = 503"
definition StatusGatewayTimeout :: nat where "StatusGatewayTimeout = 504"

lemmas status_defs =
  StatusOK_def StatusBadRequest_def StatusUnauthorized_def StatusForbidden_def StatusNotFound_def
  StatusRequestTimeout_def StatusConflict_def StatusPreconditionFailed_def StatusTooManyRequests_def
  StatusInternalServerError_def StatusNotImplemented_def StatusServiceUnavailable_def
  StatusGatewayTimeout_def

text \<open>
  The body \<open>WriteError\<close> encodes; a \<open>details\<close> slice that was never set is \<open>nil\<close>, which is
  encoded as \<open>null\<close>.
\<close>

definition error_body :: "nat \<Rightarrow> string \<Rightarrow> json list \<Rightarrow> json" where
  "error_body statusCode userMessage details =
     JObj [(''errorCode'', JStr (StatusText statusCode)),
           (''errorMessage'', JStr userMessage),
           (''details'', if details = [] then JNull else JArr details)]"

text \<open>
  The status a client gets for an error a handler returns: an \<open>HttpError\<close> carries it, any other
  error is a 500.
\<close>

primrec error_status :: "go_error \<Rightarrow> nat" where
  "error_status ErrNotAuthenticated = 500"
| "error_status ErrAuthenticationCacheMiss = 500"
| "error_status ErrUserAuthSettingNotFound = 500"
| "error_status ErrEmptyUserToken = 500"
| "error_status ErrInvalidUserToken = 500"
| "error_status ErrNoCookie = 500"
| "error_status (NewError s) = 500"
| "error_status (ExternalError s) = 500"
| "error_status (WithMessage e m) = 500"
| "error_status (HttpError c m d e) = c"

section \<open>Results\<close>

primrec map_res :: "('a \<Rightarrow> 'b) \<Rightarrow> 'a res \<Rightarrow> 'b res" where
  "map_res f (Ok a) = Ok (f a)"
| "map_res f (Err e) = Err e"
| "map_res f Panic = Panic"

text \<open>\<open>if err != nil { return nil, errors.WithMessage(err, m) }\<close>.\<close>

primrec with_message :: "string \<Rightarrow> 'a res \<Rightarrow> 'a res" where
  "with_message m (Ok a) = Ok a"
| "with_message m (Err e) = Err (WithMessage e m)"
| "with_message m Panic = Panic"

text \<open>An answer of code outside the repository: its error has a text and no identity here.\<close>

primrec of_external :: "string + 'a \<Rightarrow> 'a res" where
  "of_external (Inl e) = Err (ExternalError e)"
| "of_external (Inr a) = Ok a"

lemma map_res_Ok_iff [simp]: "map_res f r = Ok b \<longleftrightarrow> (\<exists>a. r = Ok a \<and> b = f a)"
  by (cases r) auto

lemma with_message_Ok_iff [simp]: "with_message m r = Ok a \<longleftrightarrow> r = Ok a"
  by (cases r) auto

lemma of_external_Ok_iff [simp]: "of_external r = Ok a \<longleftrightarrow> r = Inr a"
  by (cases r) auto

lemma of_external_not_Panic [simp]: "of_external r \<noteq> Panic"
  by (cases r) auto

lemma with_message_Panic_iff [simp]: "with_message m r = Panic \<longleftrightarrow> r = Panic"
  by (cases r) auto

lemma map_res_Panic_iff [simp]: "map_res f r = Panic \<longleftrightarrow> r = Panic"
  by (cases r) auto

end
