(* ===== verification/Gate_Domain.thy ===== *)
theory Gate_Domain
  imports Gate_Errors
begin

text \<open>
  The data of the gateway: \<open>entity/*.go\<close> (what the remote modules receive and return),
  \<open>domain/*.go\<close> (what the services return), \<open>conf/*.go\<close> (the local and the remote
  configuration), and the request context values. A pointer that may be \<open>nil\<close> is an option. A
  \<open>map[string][]string\<close> that the code ranges over is the list of its entries in the order of
  that iteration; the order is arbitrary, the keys are distinct, and a \<open>nil\<close> map is \<open>None\<close>.
\<close>

type_synonym extra_headers = "(string \<times> string list) list"

section \<open>entity\<close>

record entity_AppAuthData =
  ea_AppName :: string
  ea_SystemId :: go_int
  ea_DomainId :: go_int
  ea_ServiceId :: go_int
  ea_ApplicationId :: go_int

record entity_AuthenticateRequest =
  eq_Token :: string

record entity_AuthenticateResponse =
  er_Authenticated :: bool
  er_ErrorReason :: string
  er_AuthData :: "entity_AppAuthData option"

record entity_AuthorizeRequest =
  ez_ApplicationId :: go_int
  ez_HttpMethod :: string
  ez_Endpoint :: string

record entity_AuthorizeResponse =
  ez_Authorized :: bool

record entity_AdminAuthenticateResponse =
  em_Authenticated :: bool
  em_ErrorReason :: string
  em_AdminId :: go_int

record entity_AdminAuthorizeRequest =
  emz_AdminId :: go_int
  emz_Permission :: string

record entity_AdminAuthorizeResponse =
  emz_Authorized :: bool

record entity_UserAuthenticateRequest =
  euq_Token :: string

record entity_UserAuthData =
  eu_Identity :: string
  eu_IdentityHeader :: string
  eu_ExtraHeaders :: "extra_headers option"

record entity_UserAuthenticateResponse =
  eur_Authenticated :: bool
  eur_ErrorReason :: string
  eur_AuthData :: "entity_UserAuthData option"

record entity_IncrementRequest =
  ei_Key :: string
  ei_Today :: time

record entity_IncrementResponse =
  ei_Value :: go_uint64

record entity_RateLimiterRequest =
  el_Key :: string
  el_MaxRps :: go_int

record entity_RateLimiterResponse =
  el_Allow :: bool
  el_Remaining :: go_int
  el_RetryAfter :: duration

section \<open>domain\<close>

record AppAuthData =
  ad_AppName :: string
  ad_SystemId :: go_int
  ad_DomainId :: go_int
  ad_ServiceId :: go_int
  ad_ApplicationId :: go_int

record AuthenticateAppResponse =
  ar_Authenticated :: bool
  ar_ErrorReason :: string
  ar_AuthData :: "AppAuthData option"

record UserAuthData =
  ud_SkipAppAuth :: bool
  ud_Identity :: string
  ud_IdentityHeader :: string
  ud_ExtraHeaders :: "extra_headers option"

record AuthenticateUserResponse =
  ur_Authenticated :: bool
  ur_SkipUserAuth :: bool
  ur_ErrorReason :: string
  ur_AuthData :: "UserAuthData option"

record AdminAuthenticateResponse =
  mr_Authenticated :: bool
  mr_ErrorReason :: string
  mr_AdminId :: go_int

record RateLimitResult =
  rl_Allow :: bool
  rl_Remaining :: go_int
  rl_RetryAfter :: duration

record EndpointMeta =
  me_Inner :: bool
  me_UserAuthRequired :: bool
  me_ModuleName :: string
  me_RequiredAdminPermission :: string
  me_PathSchema :: string
  me_Endpoint :: string
  me_NormalizedEndpoint :: string

text \<open>The zero value of the struct.\<close>

definition zero_EndpointMeta :: EndpointMeta where
  "zero_EndpointMeta =
     \<lparr>me_Inner = False, me_UserAuthRequired = False, me_ModuleName = [],
      me_RequiredAdminPermission = [], me_PathSchema = [], me_Endpoint = [],
      me_NormalizedEndpoint = []\<rparr>"

definition zero_AppAuthData :: AppAuthData where
  "zero_AppAuthData =
     \<lparr>ad_AppName = [], ad_SystemId = 0, ad_DomainId = 0, ad_ServiceId = 0, ad_ApplicationId = 0\<rparr>"

section \<open>Log fields and request contexts\<close>

datatype log_field = LogString string string | LogInt string go_int | LogByteString string bytes

datatype log_level = DebugLevel | InfoLevel | WarnLevel | ErrorLevel | FatalLevel

text \<open>
  A \<open>context.Context\<close> is the values put into it by \<open>context.WithValue\<close>, the latest first. The
  key of the endpoint metadata is private to \<open>domain/endpoint_meta.go\<close>; the other keys belong to
  libraries.
\<close>

datatype ctx_key = EndpointMetaKey | LibraryKey string

datatype ctx_value = MetaValue EndpointMeta | StringValue string | FieldsValue "log_field list"

type_synonym go_context = "(ctx_key \<times> ctx_value) list"

text \<open>A call of the logger: the level, the context it was given, the message and the fields.\<close>

datatype log_entry = LogEntry log_level go_context string "log_field list"

definition WithValue :: "go_context \<Rightarrow> ctx_key \<Rightarrow> ctx_value \<Rightarrow> go_context" where
  "WithValue ctx k v = (k, v) # ctx"

definition Value :: "go_context \<Rightarrow> ctx_key \<Rightarrow> ctx_value option" where
  "Value ctx k = map_of ctx k"

definition EndpointMeta_ToContext :: "EndpointMeta \<Rightarrow> go_context \<Rightarrow> go_context" where
  "EndpointMeta_ToContext m ctx = WithValue ctx EndpointMetaKey (MetaValue m)"

definition EndpointMetaFromContext :: "go_context \<Rightarrow> EndpointMeta" where
  "EndpointMetaFromContext ctx =
     (case Value ctx EndpointMetaKey of Some (MetaValue m) \<Rightarrow> m | _ \<Rightarrow> zero_EndpointMeta)"

lemma EndpointMeta_context [simp]:
  "EndpointMetaFromContext (EndpointMeta_ToContext m ctx) = m"
  by (simp add: EndpointMetaFromContext_def EndpointMeta_ToContext_def WithValue_def Value_def)

section \<open>conf\<close>

definition HttpProtocol :: string where "HttpProtocol = ''http''"
definition GrpcProtocol :: string where "GrpcProtocol = ''grpc''"
definition WsProtocol :: string where "WsProtocol = ''ws''"

lemmas protocol_defs = HttpProtocol_def GrpcProtocol_def WsProtocol_def

record Location =
  lo_WithPrefix :: bool
  lo_SkipAuth :: bool
  lo_PathPrefix :: string
  lo_Protocol :: string
  lo_TargetModule :: string

definition HeaderTokenProviderType :: string where "HeaderTokenProviderType = ''HEADER''"
definition CookieTokenProviderType :: string where "CookieTokenProviderType = ''COOKIE''"

record ForwardReqIdClientSettings =
  cf_ApplicationId :: go_int
  cf_ForwardRequestId :: bool

record conf_Http =
  ch_MaxRequestBodySizeInMb :: go_int64
  ch_ProxyTimeoutInSec :: go_int

record conf_Logging =
  cl_LogLevel :: string
  cl_RequestLogEnable :: bool
  cl_BodyLogEnable :: bool
  cl_SkipBodyLoggingEndpointPrefixes :: "string list"
  cl_EnableForceUnescapingUnicode :: bool

record conf_Caching =
  cc_AuthenticationDataInSec :: go_int
  cc_AuthorizationDataInSec :: go_int

record conf_DailyLimit =
  cd_ApplicationId :: go_int
  cd_RequestsPerDay :: go_int64

record conf_Throttling =
  ct_ApplicationId :: go_int
  ct_RequestsPerSeconds :: go_int

record conf_HeaderTokenProvider =
  chp_HeaderName :: string

record conf_CookieTokenProvider =
  ccp_CookieName :: string
  ccp_Validate :: bool

record conf_TokenProvider =
  ctp_Name :: string
  ctp_Type :: string
  ctp_HeaderProvider :: "conf_HeaderTokenProvider option"
  ctp_CookieProvider :: "conf_CookieTokenProvider option"

record conf_UserAuthSetting =
  cus_ModuleNameList :: "string list"
  cus_TokenProviders :: "string list"
  cus_AuthenticateEndpoint :: string
  cus_CacheDataInSec :: go_int
  cus_SkipAppAuth :: bool

record conf_CustomAuth =
  cca_TokenProviders :: "conf_TokenProvider list"
  cca_UserAuthSettings :: "conf_UserAuthSetting list"

record conf_Remote =
  cr_Http :: conf_Http
  cr_Logging :: conf_Logging
  cr_Caching :: conf_Caching
  cr_DailyLimits :: "conf_DailyLimit list"
  cr_Throttling :: "conf_Throttling list"
  cr_EnableClientRequestIdForwarding :: bool
  cr_ForwardReqIdClientSettings :: "ForwardReqIdClientSettings list"
  cr_CustomAuth :: conf_CustomAuth

end
