(* ===== verification/Net_Http.thy ===== *)
theory Net_Http
  imports Gate_Domain
begin

text \<open>
  What the gateway uses of Go's \<open>net/http\<close> and \<open>encoding/base64\<close>: header maps with canonical
  keys, requests with a body that is read once and up to a limit, the server's response writer,
  cookies, basic authentication and the standard base64 encoding.
\<close>

section \<open>Headers\<close>

type_synonym header = "string \<rightharpoonup> string list"

text \<open>The characters of an HTTP token (\<open>validHeaderFieldByte\<close>, \<open>isToken\<close>).\<close>

definition is_token_char :: "char \<Rightarrow> bool" where
  "is_token_char c \<longleftrightarrow>
     (let n = (of_char c :: nat) in
        (48 \<le> n \<and> n \<le> 57) \<or> (65 \<le> n \<and> n \<le> 90) \<or> (97 \<le> n \<and> n \<le> 122) \<or>
        n \<in> {33, 35, 36, 37, 38, 39, 42, 43, 45, 46, 94, 95, 96, 124, 126})"

definition is_token :: "string \<Rightarrow> bool" where
  "is_token s \<longleftrightarrow> s \<noteq> [] \<and> list_all is_token_char s"

definition upper_char :: "char \<Rightarrow> char" where
  "upper_char c =
     (if 97 \<le> (of_char c :: nat) \<and> (of_char c :: nat) \<le> 122 then char_of ((of_char c :: nat) - 32) else c)"

fun canonical_chars :: "bool \<Rightarrow> string \<Rightarrow> string" where
  "canonical_chars upper [] = []"
| "canonical_chars upper (c # cs) =
     (if upper then upper_char c else lower_char c) # canonical_chars (c = CHR ''-'') cs"

text \<open>\<open>textproto.CanonicalMIMEHeaderKey\<close>: a key that is no token is left as it is.\<close>

definition CanonicalMIMEHeaderKey :: "string \<Rightarrow> string" where
  "CanonicalMIMEHeaderKey s = (if list_all is_token_char s then canonical_chars True s else s)"

definition Header_Get :: "header \<Rightarrow> string \<Rightarrow> string" where
  "Header_Get h key =
     (case h (CanonicalMIMEHeaderKey key) of Some (v # vs) \<Rightarrow> v | _ \<Rightarrow> [])"

definition Header_Values :: "header \<Rightarrow> string \<Rightarrow> string list" where
  "Header_Values h key = (case h (CanonicalMIMEHeaderKey key) of Some vs \<Rightarrow> vs | None \<Rightarrow> [])"

definition Header_Set :: "header \<Rightarrow> string \<Rightarrow> string \<Rightarrow> header" where
  "Header_Set h key value = h(CanonicalMIMEHeaderKey key \<mapsto> [value])"

definition Header_Add :: "header \<Rightarrow> string \<Rightarrow> string \<Rightarrow> header" where
  "Header_Add h key value = h(CanonicalMIMEHeaderKey key \<mapsto> Header_Values h key @ [value])"

definition Header_Del :: "header \<Rightarrow> string \<Rightarrow> header" where
  "Header_Del h key = h(CanonicalMIMEHeaderKey key := None)"

abbreviation same_header :: "string \<Rightarrow> string \<Rightarrow> bool" where
  "same_header k k' \<equiv> CanonicalMIMEHeaderKey k = CanonicalMIMEHeaderKey k'"

lemma Header_Get_Values: "Header_Get h key = (case Header_Values h key of [] \<Rightarrow> [] | v # vs \<Rightarrow> v)"
  by (simp add: Header_Get_def Header_Values_def split: option.splits list.splits)

lemma Values_Set [simp]:
  "Header_Values (Header_Set h key v) k = (if same_header k key then [v] else Header_Values h k)"
  by (simp add: Header_Values_def Header_Set_def)

lemma Values_Add [simp]:
  "Header_Values (Header_Add h key v) k =
     (if same_header k key then Header_Values h key @ [v] else Header_Values h k)"
  by (simp add: Header_Values_def Header_Add_def)

lemma Values_Del [simp]:
  "Header_Values (Header_Del h key) k = (if same_header k key then [] else Header_Values h k)"
  by (simp add: Header_Values_def Header_Del_def)

section \<open>Request bodies\<close>

text \<open>
  A body is what the client will send, the error the connection ends with, if any, the limit that
  \<open>http.MaxBytesReader\<close> put on it, and the error of \<open>Close\<close>.
\<close>

record http_body =
  bo_data :: bytes
  bo_fail :: "string option"
  bo_limit :: "nat option"
  bo_close :: "string option"

text \<open>\<open>http.MaxBytesReader\<close>: a negative limit counts as 0.\<close>

definition MaxBytesReader :: "http_body \<Rightarrow> go_int64 \<Rightarrow> http_body" where
  "MaxBytesReader b n = b\<lparr>bo_limit := Some (nat (sint n))\<rparr>"

text \<open>Reading to the end, as \<open>io.ReadAll\<close> does; the body is empty afterwards.\<close>

definition ReadAll :: "http_body \<Rightarrow> string + bytes" where
  "ReadAll b =
     (case bo_limit b of
        Some n \<Rightarrow>
          (if n < length (bo_data b) then Inl ''http: request body too large''
           else (case bo_fail b of Some e \<Rightarrow> Inl e | None \<Rightarrow> Inr (bo_data b)))
      | None \<Rightarrow> (case bo_fail b of Some e \<Rightarrow> Inl e | None \<Rightarrow> Inr (bo_data b)))"

definition consumed :: "http_body \<Rightarrow> http_body" where
  "consumed b = b\<lparr>bo_data := [], bo_limit := None\<rparr>"

text \<open>\<open>io.NopCloser(bytes.NewBuffer(data))\<close>.\<close>

definition NewBuffer :: "bytes \<Rightarrow> http_body" where
  "NewBuffer data = \<lparr>bo_data = data, bo_fail = None, bo_limit = None, bo_close = None\<rparr>"

section \<open>Requests\<close>

text \<open>\<open>rq_Query\<close> is the map \<open>URL.Query()\<close> returns, as a list of entries in iteration order.\<close>

record http_request =
  rq_Method :: string
  rq_Path :: string
  rq_Query :: "(string \<times> string list) list"
  rq_Header :: header
  rq_RemoteAddr :: string
  rq_Body :: http_body
  rq_Context :: go_context

section \<open>The response writer of the server\<close>

text \<open>
  \<open>rw_Sent\<close> is the status and the header as they were when the status line went out; later calls
  of \<open>WriteHeader\<close> are ignored by the server and later header changes have no effect. Interim
  statuses (1xx other than 101) do not end the header.
\<close>

record response_writer =
  rw_Header :: header
  rw_Interim :: "nat list"
  rw_Sent :: "(nat \<times> header) option"
  rw_Body :: bytes
  rw_WriteError :: "string option"
  rw_Hijacker :: bool

definition WriteHeader :: "nat \<Rightarrow> response_writer \<Rightarrow> response_writer" where
  "WriteHeader code w =
     (if rw_Sent w \<noteq> None then w
      else if 100 \<le> code \<and> code \<le> 199 \<and> code \<noteq> 101 then w\<lparr>rw_Interim := rw_Interim w @ [code]\<rparr>
      else w\<lparr>rw_Sent := Some (code, rw_Header w)\<rparr>)"

definition Write :: "bytes \<Rightarrow> response_writer \<Rightarrow> string option \<times> response_writer" where
  "Write data w =
     (let w' = (if rw_Sent w = None then w\<lparr>rw_Sent := Some (StatusOK, rw_Header w)\<rparr> else w)
      in case rw_WriteError w' of
           Some e \<Rightarrow> (Some e, w')
         | None \<Rightarrow> (None, w'\<lparr>rw_Body := rw_Body w' @ data\<rparr>))"

text \<open>
  What the client receives once the handler has returned: a handler that wrote nothing has answered
  200 with an empty body.
\<close>

definition final_status :: "response_writer \<Rightarrow> nat" where
  "final_status w = (case rw_Sent w of Some (code, h) \<Rightarrow> code | None \<Rightarrow> StatusOK)"

definition final_header :: "response_writer \<Rightarrow> header" where
  "final_header w = (case rw_Sent w of Some (code, h) \<Rightarrow> h | None \<Rightarrow> rw_Header w)"

text \<open>\<open>http.Error\<close>: the fixed header, the status and the text with a newline.\<close>

definition bytes_of_string :: "string \<Rightarrow> bytes" where
  "bytes_of_string s = map (\<lambda>c. of_nat (of_char c)) s"

definition string_of_bytes :: "bytes \<Rightarrow> string" where
  "string_of_bytes bs = map (\<lambda>b. char_of (unat b)) bs"

definition http_Error :: "string \<Rightarrow> nat \<Rightarrow> response_writer \<Rightarrow> response_writer" where
  "http_Error text code w =
     (let h0 = rw_Header w;
          h1 = Header_Del h0 ''Content-Length'';
          h2 = Header_Set h1 ''Content-Type'' ''text/plain; charset=utf-8'';
          h3 = Header_Set h2 ''X-Content-Type-Options'' ''nosniff''
      in snd (Write (bytes_of_string (text @ [CHR 0x0A])) (WriteHeader code (w\<lparr>rw_Header := h3\<rparr>))))"

lemma final_status_WriteHeader:
  "rw_Sent w = None \<Longrightarrow> 200 \<le> code \<Longrightarrow> final_status (WriteHeader code w) = code"
  by (simp add: WriteHeader_def final_status_def)

lemma WriteHeader_once [simp]: "rw_Sent w \<noteq> None \<Longrightarrow> WriteHeader code w = w"
  by (simp add: WriteHeader_def)

lemma rw_Sent_Write: "rw_Sent (snd (Write data w)) = (if rw_Sent w = None then Some (StatusOK, rw_Header w) else rw_Sent w)"
  by (simp add: Write_def Let_def split: option.splits)

lemma string_of_bytes_of_string [simp]: "string_of_bytes (bytes_of_string s) = s"
proof -
  have "unat (of_nat (of_char c) :: byte) = of_char c" for c :: char
    using nat_of_char_less_256 [of c] by (simp add: unat_of_nat)
  then show ?thesis by (simp add: string_of_bytes_def bytes_of_string_def comp_def)
qed

section \<open>Cookies\<close>

text \<open>\<open>strings.Cut\<close> with a separator of one byte: what precedes it and what follows it.\<close>

definition cut :: "char \<Rightarrow> string \<Rightarrow> string \<times> string" where
  "cut c s = (takeWhile (\<lambda>x. x \<noteq> c) s, drop 1 (dropWhile (\<lambda>x. x \<noteq> c) s))"

definition is_ascii_space :: "char \<Rightarrow> bool" where
  "is_ascii_space c \<longleftrightarrow> c \<in> {CHR 0x20, CHR 0x09, CHR 0x0A, CHR 0x0D}"

definition TrimString :: "string \<Rightarrow> string" where
  "TrimString s = rev (dropWhile is_ascii_space (rev (dropWhile is_ascii_space s)))"

record cookie =
  ck_Name :: string
  ck_Value :: string

definition validCookieValueByte :: "char \<Rightarrow> bool" where
  "validCookieValueByte c \<longleftrightarrow>
     0x20 \<le> (of_char c :: nat) \<and> (of_char c :: nat) < 0x7F \<and> c \<notin> {CHR 0x22, CHR 0x3B, CHR 0x5C}"

definition parseCookieValue :: "string \<Rightarrow> string option" where
  "parseCookieValue raw =
     (let v = (if 1 < length raw \<and> hd raw = CHR 0x22 \<and> last raw = CHR 0x22 then butlast (tl raw) else raw)
      in if list_all validCookieValueByte v then Some v else None)"

text \<open>One part of a \<open>Cookie\<close> line, between semicolons: a cookie of that name, or nothing.\<close>

definition read_part :: "string \<Rightarrow> string \<Rightarrow> cookie option" where
  "read_part filter_name part =
     (let (n, v) = cut (CHR ''='') (TrimString part); name = TrimString n
      in if \<not> is_token name \<or> (filter_name \<noteq> [] \<and> filter_name \<noteq> name) then None
         else map_option (\<lambda>value. \<lparr>ck_Name = name, ck_Value = value\<rparr>) (parseCookieValue v))"

definition readCookies :: "header \<Rightarrow> string \<Rightarrow> cookie list" where
  "readCookies h filter_name =
     List.map_filter (read_part filter_name)
       (concat (map (\<lambda>line. split_on (CHR '';'') (TrimString line)) (Header_Values h ''Cookie'')))"

text \<open>\<open>Request.Cookie\<close>; \<open>None\<close> is the error \<open>http.ErrNoCookie\<close>, the only one it returns.\<close>

definition Request_Cookie :: "http_request \<Rightarrow> string \<Rightarrow> cookie option" where
  "Request_Cookie r name =
     (if name = [] then None
      else case readCookies (rq_Header r) name of [] \<Rightarrow> None | c # cs \<Rightarrow> Some c)"

text \<open>\<open>Cookie.Valid\<close> on a cookie that carries a name and a value only.\<close>

definition Cookie_Valid :: "cookie \<Rightarrow> string option" where
  "Cookie_Valid c =
     (if \<not> is_token (ck_Name c) then Some ''http: invalid Cookie.Name''
      else if list_all validCookieValueByte (ck_Value c) then None
      else Some ''http: invalid byte in Cookie.Value'')"

lemma read_part_valid: "read_part f part = Some c \<Longrightarrow> Cookie_Valid c = None"
  by (auto simp: read_part_def parseCookieValue_def Cookie_Valid_def Let_def split: prod.splits if_splits)

lemma read_part_name: "read_part f part = Some c \<Longrightarrow> f \<noteq> [] \<Longrightarrow> ck_Name c = f"
  by (auto simp: read_part_def Let_def split: prod.splits if_splits)

lemma readCookies_read_part: "c \<in> set (readCookies h f) \<Longrightarrow> \<exists>part. read_part f part = Some c"
  by (auto simp: readCookies_def List.map_filter_def)

lemma Request_Cookie_in:
  "Request_Cookie r name = Some c \<Longrightarrow> name \<noteq> [] \<and> c \<in> set (readCookies (rq_Header r) name)"
  by (auto simp: Request_Cookie_def split: if_splits list.splits)

lemma Request_Cookie_valid: "Request_Cookie r name = Some c \<Longrightarrow> Cookie_Valid c = None"
  by (auto dest!: Request_Cookie_in readCookies_read_part intro: read_part_valid)

lemma Request_Cookie_name: "Request_Cookie r name = Some c \<Longrightarrow> ck_Name c = name"
  by (auto dest!: Request_Cookie_in readCookies_read_part intro: read_part_name)

section \<open>Base64\<close>

text \<open>The character of a 6-bit value.\<close>

definition b64_char :: "nat \<Rightarrow> char" where
  "b64_char n =
     char_of (if n < 26 then n + 65 else if n < 52 then n + 71 else if n < 62 then n - 4
              else if n = 62 then 43 else 47 :: nat)"

definition b64_value :: "char \<Rightarrow> nat option" where
  "b64_value c =
     (let n = (of_char c :: nat) in
      if 65 \<le> n \<and> n \<le> 90 then Some (n - 65)
      else if 97 \<le> n \<and> n \<le> 122 then Some (n - 71)
      else if 48 \<le> n \<and> n \<le> 57 then Some (n + 4)
      else if n = 43 then Some 62
      else if n = 47 then Some 63
      else None)"

text \<open>\<open>base64.StdEncoding.EncodeToString\<close> on the bytes of a string.\<close>

fun base64_encode :: "string \<Rightarrow> string" where
  "base64_encode [] = []"
| "base64_encode [x] =
     (let a = of_char x in [b64_char (a div 4), b64_char (a mod 4 * 16), CHR ''='', CHR ''=''])"
| "base64_encode [x, y] =
     (let a = of_char x; b = of_char y in
      [b64_char (a div 4), b64_char (a mod 4 * 16 + b div 16), b64_char (b mod 16 * 4), CHR ''=''])"
| "base64_encode (x # y # z # s) =
     (let a = of_char x; b = of_char y; c = of_char z in
      b64_char (a div 4) # b64_char (a mod 4 * 16 + b div 16) #
      b64_char (b mod 16 * 4 + c div 64) # b64_char (c mod 64) # base64_encode s)"

text \<open>
  \<open>base64.StdEncoding.DecodeString\<close>: line breaks are skipped, the padding is required, and the
  unused bits before it are not checked.
\<close>

fun decode_quanta :: "string \<Rightarrow> string option" where
  "decode_quanta [] = Some []"
| "decode_quanta (p # q # r # s # rest) =
     (case (b64_value p, b64_value q) of
        (Some a, Some b) \<Rightarrow>
          (if r = CHR ''='' \<and> s = CHR ''='' \<and> rest = [] then Some [char_of (a * 4 + b div 16)]
           else (case b64_value r of
                   None \<Rightarrow> None
                 | Some c \<Rightarrow>
                     (if s = CHR ''='' \<and> rest = []
                      then Some [char_of (a * 4 + b div 16), char_of (b mod 16 * 16 + c div 4)]
                      else (case b64_value s of
                              None \<Rightarrow> None
                            | Some d \<Rightarrow>
                                map_option
                                  (\<lambda>t. char_of (a * 4 + b div 16) # char_of (b mod 16 * 16 + c div 4) #
                                       char_of (c mod 4 * 64 + d) # t)
                                  (decode_quanta rest)))))
      | _ \<Rightarrow> None)"
| "decode_quanta _ = None"

definition base64_decode :: "string \<Rightarrow> string option" where
  "base64_decode s = decode_quanta (filter (\<lambda>c. c \<noteq> CHR 0x0D \<and> c \<noteq> CHR 0x0A) s)"

lemma of_char_b64 [simp]:
  "n < 64 \<Longrightarrow> (of_char (b64_char n) :: nat) =
     (if n < 26 then n + 65 else if n < 52 then n + 71 else if n < 62 then n - 4
      else if n = 62 then 43 else 47)"
  by (simp add: b64_char_def)

lemma b64_value_char [simp]: "n < 64 \<Longrightarrow> b64_value (b64_char n) = Some n"
  by (auto simp: b64_value_def Let_def)

lemma char_neqI: "(of_char c :: nat) \<noteq> of_char d \<Longrightarrow> c \<noteq> d"
  by auto

lemma b64_char_neq [simp]:
  assumes "n < 64"
  shows "b64_char n \<noteq> CHR ''=''" "b64_char n \<noteq> CHR 0x0D" "b64_char n \<noteq> CHR 0x0A"
  using assms by (auto intro!: char_neqI split: if_splits)

lemma of_char_div [simp]:
  "(of_char (x :: char) :: nat) div 4 < 64" "(of_char (x :: char) :: nat) div 16 < 16"
  "(of_char (x :: char) :: nat) div 64 < 4"
  using nat_of_char_less_256 [of x] by linarith+

lemma sextets [simp]:
  fixes a b c :: nat
  shows "a mod 4 * 16 < 64" "b mod 16 * 4 < 64"
    "b div 16 < 16 \<Longrightarrow> a mod 4 * 16 + b div 16 < 64"
    "c div 64 < 4 \<Longrightarrow> b mod 16 * 4 + c div 64 < 64"
  using mod_less_divisor [of 4 a] mod_less_divisor [of 16 b] by linarith+

lemma octets [simp]:
  fixes a b c :: nat
  shows "b div 16 < 16 \<Longrightarrow> a div 4 * 4 + (a mod 4 * 16 + b div 16) div 16 = a"
    "b div 16 < 16 \<Longrightarrow> (a mod 4 * 16 + b div 16) mod 16 * 16 + b mod 16 * 4 div 4 = b"
    "b div 16 < 16 \<Longrightarrow> c div 64 < 4 \<Longrightarrow>
       (a mod 4 * 16 + b div 16) mod 16 * 16 + (b mod 16 * 4 + c div 64) div 4 = b"
    "c div 64 < 4 \<Longrightarrow> (b mod 16 * 4 + c div 64) mod 4 * 64 + c mod 64 = c"
  by (simp_all add: div_add1_eq mod_add_eq)

lemma decode_quanta_encode: "decode_quanta (base64_encode s) = Some s"
  by (induction s rule: base64_encode.induct) (simp_all add: Let_def)

lemma base64_encode_no_breaks:
  "filter (\<lambda>c. c \<noteq> CHR 0x0D \<and> c \<noteq> CHR 0x0A) (base64_encode s) = base64_encode s"
  by (induction s rule: base64_encode.induct) (simp_all add: Let_def)

lemma base64_roundtrip: "base64_decode (base64_encode s) = Some s"
  by (simp add: base64_decode_def base64_encode_no_breaks decode_quanta_encode)

section \<open>Basic authentication\<close>

text \<open>
  \<open>Request.BasicAuth\<close>: user, password and whether the header was there and well formed. The
  scheme is compared without regard to case.
\<close>

definition parseBasicAuth :: "string \<Rightarrow> (string \<times> string) option" where
  "parseBasicAuth auth =
     (if length auth < 6 \<or> map lower_char (take 6 auth) \<noteq> ''basic '' then None
      else case base64_decode (drop 6 auth) of
             None \<Rightarrow> None
           | Some cs \<Rightarrow> if CHR '':'' \<in> set cs then Some (cut (CHR '':'') cs) else None)"

definition BasicAuth :: "http_request \<Rightarrow> string \<times> string \<times> bool" where
  "BasicAuth r =
     (let auth = Header_Get (rq_Header r) ''Authorization'' in
      if auth = [] then ([], [], False)
      else case parseBasicAuth auth of
             None \<Rightarrow> ([], [], False)
           | Some (username, password) \<Rightarrow> (username, password, True))"

lemma cut_append [simp]: "c \<notin> set xs \<Longrightarrow> cut c (xs @ c # ys) = (xs, ys)"
proof -
  assume "c \<notin> set xs"
  then have "takeWhile (\<lambda>x. x \<noteq> c) (xs @ c # ys) = xs" "dropWhile (\<lambda>x. x \<noteq> c) (xs @ c # ys) = c # ys"
    by (induction xs) auto
  then show ?thesis by (simp add: cut_def)
qed

lemma parseBasicAuth_encode:
  assumes "CHR '':'' \<notin> set user"
  shows "parseBasicAuth (''Basic '' @ base64_encode (user @ CHR '':'' # password)) = Some (user, password)"
proof -
  have "map lower_char ''Basic '' = ''basic ''" by code_simp
  with assms show ?thesis by (simp add: parseBasicAuth_def base64_roundtrip)
qed

end
