(* ===== verification/Request_Context.thy ===== *)
theory Request_Context
  imports Net_Http
begin

text \<open>
  \<open>request/context.go\<close>: the state of one request as the middlewares see it. The response writer the
  context holds is one of three objects: the server's own writer, the \<open>writerWrapper\<close> or the
  buffer that the logger put in front of it.
\<close>

datatype writer_ref = ServerWriter | WrapperWriter | BufferWriter

record Context =
  rc_request :: http_request
  rc_responseWriter :: writer_ref
  rc_endpointMeta :: EndpointMeta
  rc_authenticated :: bool
  rc_authData :: "AppAuthData option"
  rc_userAuthenticated :: bool
  rc_userAuthData :: "UserAuthData option"
  rc_adminAuthenticated :: bool
  rc_adminId :: go_int
  rc_adminToken :: string
  rc_queryParams :: "(string \<rightharpoonup> string) option"

definition NewContext :: "http_request \<Rightarrow> writer_ref \<Rightarrow> EndpointMeta \<Rightarrow> Context" where
  "NewContext request response endpointMeta =
     \<lparr>rc_request = request, rc_responseWriter = response, rc_endpointMeta = endpointMeta,
      rc_authenticated = False, rc_authData = None,
      rc_userAuthenticated = False, rc_userAuthData = None,
      rc_adminAuthenticated = False, rc_adminId = 0, rc_adminToken = [],
      rc_queryParams = None\<rparr>"

definition SetResponseWriter :: "writer_ref \<Rightarrow> Context \<Rightarrow> Context" where
  "SetResponseWriter writer c = c\<lparr>rc_responseWriter := writer\<rparr>"

definition Context_Authenticate :: "AppAuthData \<Rightarrow> Context \<Rightarrow> Context" where
  "Context_Authenticate authData c = c\<lparr>rc_authenticated := True, rc_authData := Some authData\<rparr>"

definition GetAuthData :: "Context \<Rightarrow> AppAuthData res" where
  "GetAuthData c =
     (if \<not> rc_authenticated c then Err ErrNotAuthenticated
      else case rc_authData c of None \<Rightarrow> Panic | Some d \<Rightarrow> Ok d)"

definition AuthenticateUser :: "UserAuthData \<Rightarrow> Context \<Rightarrow> Context" where
  "AuthenticateUser authData c = c\<lparr>rc_userAuthenticated := True, rc_userAuthData := Some authData\<rparr>"

definition GetUserAuthData :: "Context \<Rightarrow> UserAuthData res" where
  "GetUserAuthData c =
     (if \<not> rc_userAuthenticated c then Err ErrNotAuthenticated
      else case rc_userAuthData c of None \<Rightarrow> Panic | Some d \<Rightarrow> Ok d)"

definition SkipAppAuth :: "Context \<Rightarrow> bool" where
  "SkipAppAuth c = (case rc_userAuthData c of None \<Rightarrow> False | Some d \<Rightarrow> ud_SkipAppAuth d)"

definition AuthenticateAdmin :: "go_int \<Rightarrow> string \<Rightarrow> Context \<Rightarrow> Context" where
  "AuthenticateAdmin adminId adminToken c =
     c\<lparr>rc_adminAuthenticated := True, rc_adminId := adminId, rc_adminToken := adminToken\<rparr>"

definition Context_Context :: "Context \<Rightarrow> go_context" where
  "Context_Context c = rq_Context (rc_request c)"

definition SetContext :: "go_context \<Rightarrow> Context \<Rightarrow> Context" where
  "SetContext ctx c = c\<lparr>rc_request := (rc_request c)\<lparr>rq_Context := ctx\<rparr>\<rparr>"

text \<open>
  \<open>Param\<close>: a header of the request, else a query parameter whose name is compared in lower case.
  The map of query parameters is built at the first use and kept; \<open>ul\<close> is \<open>strings.ToLower\<close> on
  text that is not ASCII.
\<close>

definition query_params :: "(string \<Rightarrow> string) \<Rightarrow> (string \<times> string list) list \<Rightarrow> (string \<rightharpoonup> string)" where
  "query_params ul query =
     fold (\<lambda>(key, values) m. case values of [] \<Rightarrow> m | v # vs \<Rightarrow> m(to_lower ul key \<mapsto> v)) query Map.empty"

definition Param :: "(string \<Rightarrow> string) \<Rightarrow> string \<Rightarrow> Context \<Rightarrow> string \<times> Context" where
  "Param ul name c =
     (let value = Header_Get (rq_Header (rc_request c)) name in
      if value \<noteq> [] then (trim_space value, c)
      else
        let params = (case rc_queryParams c of
                        None \<Rightarrow> query_params ul (rq_Query (rc_request c))
                      | Some m \<Rightarrow> m);
            value = (case params (to_lower ul name) of None \<Rightarrow> [] | Some v \<Rightarrow> v)
        in (trim_space value, c\<lparr>rc_queryParams := Some params\<rparr>))"

section \<open>Lemmas\<close>

lemma GetAuthData_Authenticate [simp]: "GetAuthData (Context_Authenticate d c) = Ok d"
  by (simp add: GetAuthData_def Context_Authenticate_def)

lemma GetUserAuthData_AuthenticateUser [simp]: "GetUserAuthData (AuthenticateUser d c) = Ok d"
  by (simp add: GetUserAuthData_def AuthenticateUser_def)

lemma SkipAppAuth_AuthenticateUser [simp]: "SkipAppAuth (AuthenticateUser d c) = ud_SkipAppAuth d"
  by (simp add: SkipAppAuth_def AuthenticateUser_def)

text \<open>
  Well-formed contexts: the flags and the pointers agree, so the two getters never dereference
  \<open>nil\<close>, and the cached query map is the request's.
\<close>

definition wf_context :: "(string \<Rightarrow> string) \<Rightarrow> Context \<Rightarrow> bool" where
  "wf_context ul c \<longleftrightarrow>
     rc_authenticated c = (rc_authData c \<noteq> None) \<and>
     rc_userAuthenticated c = (rc_userAuthData c \<noteq> None) \<and>
     (rc_queryParams c = None \<or> rc_queryParams c = Some (query_params ul (rq_Query (rc_request c))))"

lemma wf_NewContext [simp]: "wf_context ul (NewContext r w m)"
  by (simp add: wf_context_def NewContext_def)

lemma wf_context_steps [simp]:
  "wf_context ul c \<Longrightarrow> wf_context ul (Context_Authenticate a c)"
  "wf_context ul c \<Longrightarrow> wf_context ul (AuthenticateUser u c)"
  "wf_context ul c \<Longrightarrow> wf_context ul (AuthenticateAdmin i t c)"
  "wf_context ul c \<Longrightarrow> wf_context ul (SetContext x c)"
  "wf_context ul c \<Longrightarrow> wf_context ul (SetResponseWriter w c)"
  by (auto simp: wf_context_def Context_Authenticate_def AuthenticateUser_def AuthenticateAdmin_def
      SetContext_def SetResponseWriter_def)

lemma wf_context_getters:
  "wf_context ul c \<Longrightarrow> GetAuthData c \<noteq> Panic"
  "wf_context ul c \<Longrightarrow> GetUserAuthData c \<noteq> Panic"
  by (auto simp: wf_context_def GetAuthData_def GetUserAuthData_def)

lemma Param_keeps [gate_keep]:
  "rc_request (snd (Param ul name c)) = rc_request c"
  "rc_responseWriter (snd (Param ul name c)) = rc_responseWriter c"
  "rc_endpointMeta (snd (Param ul name c)) = rc_endpointMeta c"
  "rc_authenticated (snd (Param ul name c)) = rc_authenticated c"
  "rc_authData (snd (Param ul name c)) = rc_authData c"
  "rc_userAuthenticated (snd (Param ul name c)) = rc_userAuthenticated c"
  "rc_userAuthData (snd (Param ul name c)) = rc_userAuthData c"
  "rc_adminAuthenticated (snd (Param ul name c)) = rc_adminAuthenticated c"
  "rc_adminId (snd (Param ul name c)) = rc_adminId c"
  by (simp_all add: Param_def Let_def)

lemma wf_Param: "wf_context ul c \<Longrightarrow> wf_context ul (snd (Param ul name c))"
  by (auto simp: wf_context_def Param_def Let_def)

lemma query_params_find:
  "query_params ul query k =
     (case find (\<lambda>(key, values). to_lower ul key = k \<and> values \<noteq> []) (rev query) of
        None \<Rightarrow> None
      | Some (key, values) \<Rightarrow> Some (hd values))"
proof -
  have "fold (\<lambda>(key, values) m. case values of [] \<Rightarrow> m | v # vs \<Rightarrow> m(to_lower ul key \<mapsto> v)) query m k =
      (case find (\<lambda>(key, values). to_lower ul key = k \<and> values \<noteq> []) (rev query) of
        None \<Rightarrow> m k
      | Some (key, values) \<Rightarrow> Some (hd values))" for m
    by (induction query arbitrary: m)
       (auto simp: find_append split: option.splits list.splits if_splits)
  then show ?thesis by (simp add: query_params_def)
qed

section \<open>Properties\<close>

text \<open>
  Where a token is looked for: in a well-formed context \<open>Param\<close> returns, without surrounding
  white space, the header of that name if it is there and not empty, and otherwise the first value
  of the query parameter whose name is the same in lower case (of the last such parameter in
  iteration order), and asking again gives the same answer.
\<close>

lemma Param_lookup:
  assumes "wf_context ul c"
  shows "fst (Param ul name c) =
    trim_space
      (if Header_Get (rq_Header (rc_request c)) name \<noteq> []
       then Header_Get (rq_Header (rc_request c)) name
       else (case find (\<lambda>(key, values). to_lower ul key = to_lower ul name \<and> values \<noteq> [])
                   (rev (rq_Query (rc_request c))) of
               None \<Rightarrow> []
             | Some (key, values) \<Rightarrow> hd values))
    \<and> fst (Param ul name (snd (Param ul other c))) = fst (Param ul name c)"
  using assms
  by (auto simp: Param_def Let_def wf_context_def query_params_find split: option.splits prod.splits)

definition sample_request :: http_request where
  "sample_request =
     \<lparr>rq_Method = ''GET'', rq_Path = ''/api/x'', rq_Query = [(''X-Application-Token'', ['' t ''])],
      rq_Header = [''X-Request-Id'' \<mapsto> [''id'']], rq_RemoteAddr = ''1.2.3.4'',
      rq_Body = NewBuffer [], rq_Context = []\<rparr>"

lemma Param_lookup_witness:
  "fst (Param (\<lambda>s. s) ''x-application-token'' (NewContext sample_request ServerWriter zero_EndpointMeta)) = ''t''"
proof -
  let ?c = "NewContext sample_request ServerWriter zero_EndpointMeta"
  have h: "Header_Get (rq_Header (rc_request ?c)) ''x-application-token'' = []"
    by code_simp
  have f: "find (\<lambda>(key, values). to_lower (\<lambda>s. s) key = to_lower (\<lambda>s. s) ''x-application-token'' \<and> values \<noteq> [])
      (rev (rq_Query (rc_request ?c))) = Some (''X-Application-Token'', ['' t ''])"
    by code_simp
  have t: "trim_space '' t '' = ''t''"
    by code_simp
  show ?thesis
    using conjunct1 [OF Param_lookup [OF wf_NewContext [of "\<lambda>s. s" sample_request ServerWriter zero_EndpointMeta],
        of "''x-application-token''"]]
    unfolding h f by (simp add: t)
qed

end
