(* ===== verification/Gate_Cache.thy ===== *)
theory Gate_Cache
  imports Gate_Prelude
begin

text \<open>
  The in-memory cache of \<open>cache/cache.go\<close>: a map from keys to items with an expiry time, read
  by \<open>Get\<close>, written by \<open>Set\<close>, and purged by the \<open>cleanup\<close> that \<open>StartCleaner\<close> runs at every tick.
  Every operation holds the lock of the cache from start to end, so a run of concurrent callers
  is a sequence of operations; the clock is read under the lock and is an argument here, in
  nanoseconds. A \<open>[]byte\<close> that may be \<open>nil\<close> is an option.

  The interface \<open>expiring_cache\<close> states what the rest of the gateway relies on; the model of the
  cache is an instance of it, and the run lemmas are proved from the interface alone.
\<close>

section \<open>State and operations\<close>

record item =
  it_data :: "bytes option"
  it_expired_at :: time

record cache =
  ca_store :: "string \<rightharpoonup> item"

definition New :: cache where
  "New = \<lparr>ca_store = Map.empty\<rparr>"

text \<open>\<open>t.After(u)\<close>.\<close>

definition After :: "time \<Rightarrow> time \<Rightarrow> bool" where
  "After t u \<longleftrightarrow> u < t"

text \<open>\<open>t.Add(d)\<close>.\<close>

definition Add :: "time \<Rightarrow> duration \<Rightarrow> time" where
  "Add t d = t + sint d"

text \<open>\<open>None\<close> is the result \<open>(nil, false)\<close>; \<open>Some d\<close> is \<open>(d, true)\<close>, where \<open>d\<close> may be \<open>nil\<close>.\<close>

definition Get :: "time \<Rightarrow> string \<Rightarrow> cache \<Rightarrow> bytes option option" where
  "Get now key c =
     (case ca_store c key of
        None \<Rightarrow> None
      | Some it \<Rightarrow> if After now (it_expired_at it) then None else Some (it_data it))"

definition Set :: "time \<Rightarrow> string \<Rightarrow> bytes option \<Rightarrow> duration \<Rightarrow> cache \<Rightarrow> cache" where
  "Set now key data lifeTime c =
     c\<lparr>ca_store := (ca_store c)(key \<mapsto> \<lparr>it_data = data, it_expired_at = Add now lifeTime\<rparr>)\<rparr>"

text \<open>The loop of \<open>cleanup\<close> deletes exactly the entries it finds expired.\<close>

definition cleanup :: "time \<Rightarrow> cache \<Rightarrow> cache" where
  "cleanup now c =
     c\<lparr>ca_store := (\<lambda>k. case ca_store c k of
                          None \<Rightarrow> None
                        | Some v \<Rightarrow> if After now (it_expired_at v) then None else Some v)\<rparr>"

datatype cleaner_event = CtxDone | Tick time

text \<open>
  The \<open>select\<close> loop over the events it receives; the flag says whether the call has returned.
\<close>

fun StartCleaner :: "cleaner_event list \<Rightarrow> cache \<Rightarrow> cache \<times> bool" where
  "StartCleaner [] c = (c, False)"
| "StartCleaner (CtxDone # es) c = (c, True)"
| "StartCleaner (Tick t # es) c = StartCleaner es (cleanup t c)"

section \<open>The interface\<close>

locale expiring_cache =
  fixes new :: "'c"
    and get :: "time \<Rightarrow> string \<Rightarrow> 'c \<Rightarrow> bytes option option"
    and put :: "time \<Rightarrow> string \<Rightarrow> bytes option \<Rightarrow> duration \<Rightarrow> 'c \<Rightarrow> 'c"
    and purge :: "time \<Rightarrow> 'c \<Rightarrow> 'c"
  assumes get_new: "get t k new = None"
    and get_put_same:
      "get t' k (put t k d life c) = (if t' \<le> t + sint life then Some d else None)"
    and get_put_other: "k' \<noteq> k \<Longrightarrow> get t' k' (put t k d life c) = get t' k' c"
    and get_purge_later: "t \<le> t' \<Longrightarrow> get t' k (purge t c) = get t' k c"
    and get_purge_sound: "get t' k (purge t c) = Some d \<Longrightarrow> get t' k c = Some d"

text \<open>
  A history is the operations that changed the cache, the latest first. \<open>history_get\<close> is the
  abstract reading of it: the latest \<open>Set\<close> of the key decides, whatever was purged in between.
\<close>

datatype cache_op = OpSet time string "bytes option" duration | OpCleanup time

fun op_time :: "cache_op \<Rightarrow> time" where
  "op_time (OpSet t k d life) = t"
| "op_time (OpCleanup t) = t"

fun replay ::
  "(time \<Rightarrow> string \<Rightarrow> bytes option \<Rightarrow> duration \<Rightarrow> 'c \<Rightarrow> 'c) \<Rightarrow> (time \<Rightarrow> 'c \<Rightarrow> 'c) \<Rightarrow> 'c \<Rightarrow> cache_op list \<Rightarrow> 'c"
where
  "replay put purge c [] = c"
| "replay put purge c (OpSet t k d life # h) = put t k d life (replay put purge c h)"
| "replay put purge c (OpCleanup t # h) = purge t (replay put purge c h)"

fun history_get :: "time \<Rightarrow> string \<Rightarrow> cache_op list \<Rightarrow> bytes option option" where
  "history_get now key [] = None"
| "history_get now key (OpSet t k d life # h) =
     (if k = key then (if now \<le> t + sint life then Some d else None) else history_get now key h)"
| "history_get now key (OpCleanup t # h) = history_get now key h"

context expiring_cache
begin

lemma replay_get:
  assumes "\<forall>op \<in> set h. op_time op \<le> now"
  shows "get now key (replay put purge new h) = history_get now key h"
  using assms
proof (induction h)
  case Nil
  show ?case by (simp add: get_new)
next
  case (Cons op h)
  then show ?case
    by (cases op) (auto simp: get_put_same get_put_other get_purge_later)
qed

lemma replay_get_sound:
  assumes "get now key (replay put purge new h) = Some d"
  shows "\<exists>t life. OpSet t key d life \<in> set h \<and> now \<le> t + sint life"
  using assms
proof (induction h)
  case Nil
  then show ?case by (simp add: get_new)
next
  case (Cons op h)
  show ?case
  proof (cases op)
    case (OpSet t k d' life)
    with Cons show ?thesis
      by (cases "k = key") (auto simp: get_put_same get_put_other split: if_splits)
  next
    case (OpCleanup t)
    with Cons show ?thesis by (auto dest: get_purge_sound)
  qed
qed

end

section \<open>The model is an instance\<close>

lemma Get_New [simp]: "Get t k New = None"
  by (simp add: Get_def New_def)

lemma Get_Set [simp]:
  "Get t' k' (Set t k d life c) =
     (if k' = k then (if t' \<le> t + sint life then Some d else None) else Get t' k' c)"
  by (simp add: Get_def Set_def After_def Add_def)

lemma Get_cleanup_later [simp]: "t \<le> t' \<Longrightarrow> Get t' k (cleanup t c) = Get t' k c"
  by (auto simp: Get_def cleanup_def After_def split: option.splits)

lemma Get_cleanup_SomeD: "Get t' k (cleanup t c) = Some d \<Longrightarrow> Get t' k c = Some d"
  by (auto simp: Get_def cleanup_def After_def split: option.splits if_splits)

interpretation mem: expiring_cache New Get Set cleanup
  by unfold_locales (auto dest: Get_cleanup_SomeD)

lemma ca_store_Set [simp]:
  "ca_store (Set t k d life c) k' =
     (if k' = k then Some \<lparr>it_data = d, it_expired_at = t + sint life\<rparr> else ca_store c k')"
  by (simp add: Set_def Add_def)

lemma ca_store_cleanupD: "ca_store (cleanup t c) k = Some it \<Longrightarrow> ca_store c k = Some it \<and> t \<le> it_expired_at it"
  by (auto simp: cleanup_def After_def split: option.splits if_splits)

lemma Get_SomeD: "Get t k c = Some d \<Longrightarrow> \<exists>it. ca_store c k = Some it \<and> it_data it = d \<and> t \<le> it_expired_at it"
  by (auto simp: Get_def After_def split: option.splits if_splits)

lemma dom_Set [simp]: "dom (ca_store (Set t k d life c)) = insert k (dom (ca_store c))"
  by (auto simp: Set_def)

lemma dom_cleanup: "dom (ca_store (cleanup t c)) = {k. \<exists>it. ca_store c k = Some it \<and> t \<le> it_expired_at it}"
  by (auto simp: cleanup_def After_def split: option.splits if_splits)

lemma StartCleaner_replay:
  "fst (StartCleaner (map Tick ts) c) = replay Set cleanup c (map OpCleanup (rev ts))"
proof (induction ts arbitrary: c)
  case (Cons t ts)
  have "replay Set cleanup c (xs @ ys) = replay Set cleanup (replay Set cleanup c ys) xs" for xs ys
    by (induction Set "cleanup :: time \<Rightarrow> cache \<Rightarrow> cache" c xs rule: replay.induct) simp_all
  with Cons show ?case by simp
qed simp

section \<open>Properties\<close>

text \<open>
  C9. The cache refines its history: after any sequence of \<open>Set\<close> and \<open>cleanup\<close> calls made no later
  than now, \<open>Get\<close> returns the data of the latest \<open>Set\<close> of the key while its lifetime lasts (its
  last instant included) and nothing otherwise; purges are invisible.
\<close>

theorem cache_refines_history:
  assumes "\<forall>op \<in> set h. op_time op \<le> now"
  shows "Get now key (replay Set cleanup New h) = history_get now key h"
  using assms by (rule mem.replay_get)

theorem cache_refines_history_witness:
  "Get 15 ''k'' (replay Set cleanup New [OpCleanup 12, OpSet 10 ''k'' (Some [7]) 5, OpSet 1 ''k'' None 2])
     = Some (Some [7])"
  using cache_refines_history
    [of "[OpCleanup 12, OpSet 10 ''k'' (Some [7]) 5, OpSet 1 ''k'' None 2]" 15 "''k''"]
  by simp

text \<open>
  No stale or invented data: whatever the clock did between the calls, what \<open>Get\<close> returns was
  stored under that very key by a \<open>Set\<close> whose lifetime has not run out.
\<close>

lemma cache_get_sound:
  assumes "Get now key (replay Set cleanup New h) = Some d"
  shows "\<exists>t life. OpSet t key d life \<in> set h \<and> now \<le> t + sint life"
  using assms by (rule mem.replay_get_sound)

lemma cache_get_sound_witness:
  "\<exists>t life. OpSet t ''k'' (Some [7]) life \<in> set [OpSet 10 ''k'' (Some [7]) 5] \<and> 15 \<le> t + sint life"
  using cache_get_sound [of 15 "''k''" "[OpSet 10 ''k'' (Some [7]) 5]" "Some [7]"] by simp

text \<open>A cleaner pass keeps exactly the live entries, each with its item unchanged.\<close>

lemma cleanup_exact:
  "ca_store (cleanup now c) key = Some it \<longleftrightarrow>
     (ca_store c key = Some it \<and> \<not> After now (it_expired_at it))"
  by (auto simp: cleanup_def split: option.splits if_splits)


end
