(* ===== verification/Gate_World.thy ===== *)
theory Gate_World
  imports Request_Context Gate_Cache
begin

text \<open>
  What a request handler runs in. \<open>'w gate\<close> is the state a handler reads and changes: the request
  context, the server's response writer, the status the logger's wrapper has seen, the caches, the
  log, the observed metrics, and the world outside the process, of any type \<open>'w\<close>.
  \<open>'w ext\<close> holds the code that is not in the repository, as functions: the clock, the clients of
  the other modules, the load balancers, the JSON codec, the proxies of other packages, the
  router and the buffer of the logging library. The model never looks inside them; what a theorem
  relies on is a hypothesis of that theorem.
\<close>

section \<open>Answers of the upstream side\<close>

text \<open>
  A detail of a gRPC status: a message of the gateway's own protocol, with the three bodies it may
  carry, or any other message, as the value that is marshalled.
\<close>

datatype grpc_detail = IspMessage "bytes option" "json option" "json option" | OtherDetail json

text \<open>
  An error of a gRPC call: its text and, when \<open>status.FromError\<close> recognises it, the code, the
  message and the details.
\<close>

record grpc_error =
  ge_text :: string
  ge_status :: "(nat \<times> string \<times> grpc_detail list) option"

datatype http_outcome =
    ForwardError string
  | ForwardResponse "nat list" nat extra_headers bytes
  | ForwardAbort "nat list" nat extra_headers bytes
  | ForwardTunnelled

datatype ws_outcome = WsUpgradeError string | WsAnswered nat extra_headers bytes | WsTunnelled

type_synonym metadata = "string \<rightharpoonup> string list"

text \<open>The endpoint descriptor another module announces.\<close>

record EndpointDescriptor =
  ed_HttpMethod :: string
  ed_Path :: string
  ed_Inner :: bool
  ed_UserAuthRequired :: bool
  ed_Extra :: "(string \<times> string) list"

section \<open>Code that is not in the repository\<close>

record 'w ext =
  x_Now :: "'w \<Rightarrow> time \<times> 'w"
  x_date :: "time \<Rightarrow> go_int \<times> go_int \<times> go_int"
  x_unicode_lower :: "string \<Rightarrow> string"
  x_map_order :: "'w \<Rightarrow> extra_headers \<Rightarrow> extra_headers"
  x_requestid_Next :: "'w \<Rightarrow> string \<times> 'w"
  x_requestid_ToContext :: "go_context \<Rightarrow> string \<Rightarrow> go_context"
  x_requestid_FromContext :: "go_context \<Rightarrow> string"
  x_log_ToContext :: "go_context \<Rightarrow> log_field list \<Rightarrow> go_context"
  x_log_RewriteContextField :: "go_context \<Rightarrow> log_field \<Rightarrow> go_context"
  x_marshal_app :: "entity_AppAuthData \<Rightarrow> string + bytes"
  x_unmarshal_app :: "bytes option \<Rightarrow> string + entity_AppAuthData"
  x_marshal_user :: "entity_UserAuthData \<Rightarrow> string + bytes"
  x_unmarshal_user :: "bytes option \<Rightarrow> string + entity_UserAuthData"
  x_marshal_json :: "json \<Rightarrow> string + bytes"
  x_system_authenticate ::
    "string \<Rightarrow> entity_AuthenticateRequest \<Rightarrow> 'w \<Rightarrow> (string + entity_AuthenticateResponse) \<times> 'w"
  x_system_authorize ::
    "string \<Rightarrow> entity_AuthorizeRequest \<Rightarrow> 'w \<Rightarrow> (string + entity_AuthorizeResponse) \<times> 'w"
  x_admin_authenticate ::
    "string \<Rightarrow> entity_AuthenticateRequest \<Rightarrow> 'w \<Rightarrow> (string + entity_AdminAuthenticateResponse) \<times> 'w"
  x_admin_authorize ::
    "string \<Rightarrow> entity_AdminAuthorizeRequest \<Rightarrow> 'w \<Rightarrow> (string + entity_AdminAuthorizeResponse) \<times> 'w"
  x_locker_increment ::
    "string \<Rightarrow> entity_IncrementRequest \<Rightarrow> 'w \<Rightarrow> (string + entity_IncrementResponse) \<times> 'w"
  x_locker_rate_limit ::
    "string \<Rightarrow> entity_RateLimiterRequest \<Rightarrow> 'w \<Rightarrow> (string + entity_RateLimiterResponse) \<times> 'w"
  x_router_next :: "'w \<Rightarrow> (string + string) \<times> 'w"
  x_post_user_auth ::
    "string \<Rightarrow> entity_UserAuthenticateRequest \<Rightarrow> 'w \<Rightarrow> (string + entity_UserAuthenticateResponse) \<times> 'w"
  x_host_next :: "string \<Rightarrow> 'w \<Rightarrow> (string + string) \<times> 'w"
  x_url_parse :: "string \<Rightarrow> string option"
  x_forward_http :: "string \<Rightarrow> http_request \<Rightarrow> duration \<Rightarrow> 'w \<Rightarrow> http_outcome \<times> 'w"
  x_forward_ws :: "string \<Rightarrow> http_request \<Rightarrow> (header \<Rightarrow> header) \<Rightarrow> string option \<Rightarrow> 'w \<Rightarrow> ws_outcome \<times> 'w"
  x_backend_request :: "string \<Rightarrow> metadata \<Rightarrow> duration \<Rightarrow> bytes \<Rightarrow> 'w \<Rightarrow> (grpc_error + bytes) \<times> 'w"
  x_ProxyMethodNameHeader :: string
  x_md_Set :: "metadata \<Rightarrow> string \<Rightarrow> string list \<Rightarrow> metadata"
  x_router_lookup ::
    "(string \<times> string \<times> EndpointMeta) list \<Rightarrow> string \<Rightarrow> string \<Rightarrow> EndpointMeta option"
  x_required_admin_permission :: "EndpointDescriptor \<Rightarrow> string \<times> bool"
  x_mux_Match :: "string list \<Rightarrow> http_request \<Rightarrow> nat option"
  x_mux_Answer :: "http_request \<Rightarrow> response_writer \<Rightarrow> response_writer"
  x_client_Default :: "'w \<Rightarrow> string option \<times> 'w"
  x_buffer_Acquire :: "'w \<Rightarrow> 'w"
  x_buffer_ReadRequestBody :: "(string + bytes) \<Rightarrow> 'w \<Rightarrow> string option \<times> 'w"
  x_buffer_RequestBody :: "'w \<Rightarrow> bytes"
  x_buffer_ResponseBody :: "'w \<Rightarrow> bytes"
  x_buffer_StatusCode :: "'w \<Rightarrow> nat"
  x_buffer_WriteHeader :: "nat \<Rightarrow> response_writer \<Rightarrow> 'w \<Rightarrow> response_writer \<times> 'w"
  x_buffer_Write :: "bytes \<Rightarrow> response_writer \<Rightarrow> 'w \<Rightarrow> (string option \<times> response_writer) \<times> 'w"
  x_buffer_Release :: "'w \<Rightarrow> 'w"

text \<open>The header names and log keys of the kit library, as the acceptance test uses them.\<close>

definition RequestIdHeader :: string where "RequestIdHeader = ''x-request-id''"
definition RequestIdLogKey :: string where "RequestIdLogKey = ''requestId''"
definition SystemIdHeader :: string where "SystemIdHeader = ''x-system-identity''"
definition DomainIdHeader :: string where "DomainIdHeader = ''x-domain-identity''"
definition ServiceIdHeader :: string where "ServiceIdHeader = ''x-service-identity''"
definition ApplicationIdHeader :: string where "ApplicationIdHeader = ''x-application-identity''"
definition ApplicationNameHeader :: string where "ApplicationNameHeader = ''x-application-name''"

section \<open>The state of a request in the gateway\<close>

record 'w gate =
  g_ctx :: Context
  g_rw :: response_writer
  g_wrapper_status :: nat
  g_app_cache :: cache
  g_authz_cache :: cache
  g_admin_cache :: cache
  g_user_cache :: cache
  g_log_level :: string
  g_log :: "log_entry list"
  g_metrics :: "(string \<times> string \<times> duration) list"
  g_world :: 'w

type_synonym 'w handler = "'w gate \<Rightarrow> unit res \<times> 'w gate"

definition in_world :: "('w \<Rightarrow> 'a \<times> 'w) \<Rightarrow> 'w gate \<Rightarrow> 'a \<times> 'w gate" where
  "in_world f s = (case f (g_world s) of (a, w) \<Rightarrow> (a, s\<lparr>g_world := w\<rparr>))"

lemma in_world_fst [simp]: "fst (in_world f s) = fst (f (g_world s))"
  and in_world_snd [simp]: "snd (in_world f s) = s\<lparr>g_world := snd (f (g_world s))\<rparr>"
  by (simp_all add: in_world_def split_beta)

abbreviation on_ctx :: "(Context \<Rightarrow> Context) \<Rightarrow> 'w gate \<Rightarrow> 'w gate" where
  "on_ctx f s \<equiv> s\<lparr>g_ctx := f (g_ctx s)\<rparr>"

definition now :: "'w ext \<Rightarrow> 'w gate \<Rightarrow> time \<times> 'w gate" where
  "now x s = in_world (x_Now x) s"

lemma now_fst [simp]: "fst (now x s) = fst (x_Now x (g_world s))"
  and now_snd [simp]: "snd (now x s) = s\<lparr>g_world := snd (x_Now x (g_world s))\<rparr>"
  by (simp_all add: now_def)

definition log_call :: "log_level \<Rightarrow> string \<Rightarrow> log_field list \<Rightarrow> 'w gate \<Rightarrow> 'w gate" where
  "log_call level msg fs s =
     s\<lparr>g_log := g_log s @ [LogEntry level (Context_Context (g_ctx s)) msg fs]\<rparr>"

section \<open>The three response writers\<close>

text \<open>\<open>writerWrapper.WriteHeader\<close>, the buffer's, or the server's, whichever the context holds.\<close>

definition ctx_WriteHeader :: "'w ext \<Rightarrow> nat \<Rightarrow> 'w gate \<Rightarrow> 'w gate" where
  "ctx_WriteHeader x code s =
     (case rc_responseWriter (g_ctx s) of
        ServerWriter \<Rightarrow> s\<lparr>g_rw := WriteHeader code (g_rw s)\<rparr>
      | WrapperWriter \<Rightarrow> s\<lparr>g_wrapper_status := code, g_rw := WriteHeader code (g_rw s)\<rparr>
      | BufferWriter \<Rightarrow>
          (case x_buffer_WriteHeader x code (g_rw s) (g_world s) of
             (rw, w) \<Rightarrow> s\<lparr>g_rw := rw, g_world := w\<rparr>))"

definition ctx_Write :: "'w ext \<Rightarrow> bytes \<Rightarrow> 'w gate \<Rightarrow> string option \<times> 'w gate" where
  "ctx_Write x data s =
     (case rc_responseWriter (g_ctx s) of
        BufferWriter \<Rightarrow>
          (case x_buffer_Write x data (g_rw s) (g_world s) of
             ((e, rw), w) \<Rightarrow> (e, s\<lparr>g_rw := rw, g_world := w\<rparr>))
      | _ \<Rightarrow> (case Write data (g_rw s) of (e, rw) \<Rightarrow> (e, s\<lparr>g_rw := rw\<rparr>)))"

definition ctx_SetHeader :: "string \<Rightarrow> string \<Rightarrow> 'w gate \<Rightarrow> 'w gate" where
  "ctx_SetHeader key value s =
     s\<lparr>g_rw := (g_rw s)\<lparr>rw_Header := Header_Set (rw_Header (g_rw s)) key value\<rparr>\<rparr>"

text \<open>\<open>writerWrapper.StatusCode\<close>.\<close>

definition StatusCode :: "nat \<Rightarrow> nat" where
  "StatusCode statusCode = (if statusCode = 0 then StatusOK else statusCode)"

text \<open>\<open>writerWrapper.Hijack\<close>: the error, if the server's writer cannot be hijacked.\<close>

definition Hijack :: "response_writer \<Rightarrow> string option" where
  "Hijack w =
     (if rw_Hijacker w then None
      else Some (''writerWrapper: upstream writer doesn'' @ [CHR 0x27] @ ''t implement Hijack''))"

text \<open>
  \<open>HttpError.WriteError\<close>: the JSON encoder marshals the value first and then writes it with a
  newline.
\<close>

definition WriteError :: "'w ext \<Rightarrow> go_error \<Rightarrow> 'w gate \<Rightarrow> unit res \<times> 'w gate" where
  "WriteError x e s =
     (case e of
        HttpError statusCode userMessage details err \<Rightarrow>
          (let s1 = ctx_SetHeader ''Content-Type'' ''application/json'' s;
               s2 = ctx_WriteHeader x statusCode s1
           in case x_marshal_json x (error_body statusCode userMessage details) of
                Inl m \<Rightarrow> (Err (ExternalError m), s2)
              | Inr data \<Rightarrow>
                  (case ctx_Write x (data @ [0x0A]) s2 of
                     (Some m, s3) \<Rightarrow> (Err (ExternalError m), s3)
                   | (None, s3) \<Rightarrow> (Ok (), s3)))
      | _ \<Rightarrow> (Panic, s))"

section \<open>Answers on the server's writer\<close>

text \<open>A request nobody has answered yet, whose answer goes straight to the server's writer.\<close>

definition direct :: "'w gate \<Rightarrow> bool" where
  "direct s \<longleftrightarrow>
     rc_responseWriter (g_ctx s) \<noteq> BufferWriter \<and> rw_Sent (g_rw s) = None \<and> rw_WriteError (g_rw s) = None"

definition answered :: "'w gate \<Rightarrow> nat \<Rightarrow> bytes \<Rightarrow> 'w gate \<Rightarrow> bool" where
  "answered s status data s' \<longleftrightarrow>
     final_status (g_rw s') = status \<and> rw_Sent (g_rw s') \<noteq> None \<and>
     rw_Body (g_rw s') = rw_Body (g_rw s) @ data"

lemma ctx_WriteHeader_direct:
  assumes "direct s" "200 \<le> status"
  shows "g_rw (ctx_WriteHeader x status s) = (g_rw s)\<lparr>rw_Sent := Some (status, rw_Header (g_rw s))\<rparr>"
    and "rc_responseWriter (g_ctx (ctx_WriteHeader x status s)) \<noteq> BufferWriter"
  using assms by (auto simp: ctx_WriteHeader_def direct_def WriteHeader_def split: writer_ref.splits)

lemma ctx_Write_direct:
  assumes "rc_responseWriter (g_ctx s) \<noteq> BufferWriter" "rw_WriteError (g_rw s) = None" "rw_Sent (g_rw s) \<noteq> None"
  shows "ctx_Write x data s = (None, s\<lparr>g_rw := (g_rw s)\<lparr>rw_Body := rw_Body (g_rw s) @ data\<rparr>\<rparr>)"
  using assms by (auto simp: ctx_Write_def Write_def Let_def split: writer_ref.splits)

lemma direct_SetHeader [simp]: "direct (ctx_SetHeader k v s) = direct s"
  by (simp add: direct_def ctx_SetHeader_def)

lemma g_rw_SetHeader [simp]:
  "rw_Body (g_rw (ctx_SetHeader k v s)) = rw_Body (g_rw s)"
  "rw_Header (g_rw (ctx_SetHeader k v s)) = Header_Set (rw_Header (g_rw s)) k v"
  by (simp_all add: ctx_SetHeader_def)

lemma direct_world [simp]: "direct (s\<lparr>g_world := w\<rparr>) = direct s"
  by (simp add: direct_def)

lemma direct_on_ctx [simp]:
  "rc_responseWriter (f (g_ctx s)) = rc_responseWriter (g_ctx s) \<Longrightarrow> direct (on_ctx f s) = direct s"
  by (simp add: direct_def)

text \<open>\<open>WriteError\<close> on such a request answers with the status and the encoded body.\<close>

lemma WriteError_direct:
  assumes "direct s" "200 \<le> c" "x_marshal_json x (error_body c m d) = Inr data"
  shows "\<exists>s'. WriteError x (HttpError c m d e) s = (Ok (), s') \<and> answered s c (data @ [0x0A]) s' \<and>
    Header_Get (final_header (g_rw s')) ''Content-Type'' = ''application/json''"
proof -
  let ?s1 = "ctx_SetHeader ''Content-Type'' ''application/json'' s"
  have d: "direct ?s1" using assms(1) by simp
  have "CanonicalMIMEHeaderKey ''Content-Type'' = ''Content-Type''" by code_simp
  then have h: "Header_Get (rw_Header (g_rw ?s1)) ''Content-Type'' = ''application/json''"
    by (simp add: Header_Get_Values)
  note wh = ctx_WriteHeader_direct [OF d assms(2), of x]
  have "rw_WriteError (g_rw ?s1) = None" using d by (simp add: direct_def)
  then have "ctx_Write x (data @ [0x0A]) (ctx_WriteHeader x c ?s1) =
      (None, (ctx_WriteHeader x c ?s1)\<lparr>g_rw := (g_rw (ctx_WriteHeader x c ?s1))
         \<lparr>rw_Body := rw_Body (g_rw (ctx_WriteHeader x c ?s1)) @ data @ [0x0A]\<rparr>\<rparr>)"
    using wh by (intro ctx_Write_direct) simp_all
  with wh(1) h show ?thesis
    by (simp add: WriteError_def Let_def assms(3) answered_def final_status_def final_header_def)
qed

end
