(* ===== verification/Service_Interfaces.thy ===== *)
theory Service_Interfaces
  imports Gate_World
begin

text \<open>
  The interfaces the services are written against (\<open>AuthenticationCache\<close> and
  \<open>UserAuthenticationCache\<close>, \<open>AuthorizationCache\<close> of \<open>service/*.go\<close>), as contracts between a
  client that calls \<open>get\<close> and \<open>put\<close> on a state and the provider of these operations. The contracts
  are about content: a cache never answers what it does not hold, and only \<open>put\<close> makes it hold
  something, namely what was put under that very key.
\<close>

section \<open>A cache of decoded data\<close>

text \<open>
  \<open>holds s k d\<close>: reading the key \<open>k\<close> in the state \<open>s\<close> may answer \<open>d\<close>. \<open>same k k'\<close>: the two keys
  share an entry. \<open>codes d d'\<close>: storing \<open>d\<close> may be read back as \<open>d'\<close>; a lossless codec makes it
  equality.
\<close>

locale decoding_cache =
  fixes get :: "'k \<Rightarrow> 's \<Rightarrow> 'd res \<times> 's"
    and put :: "'k \<Rightarrow> 'd \<Rightarrow> 's \<Rightarrow> unit res \<times> 's"
    and holds :: "'s \<Rightarrow> 'k \<Rightarrow> 'd \<Rightarrow> bool"
    and same :: "'k \<Rightarrow> 'k \<Rightarrow> bool"
    and codes :: "'d \<Rightarrow> 'd \<Rightarrow> bool"
  assumes get_holds: "fst (get k s) = Ok d \<Longrightarrow> holds s k d"
    and get_adds_nothing: "holds (snd (get k s)) k' d' = holds s k' d'"
    and put_adds: "holds (snd (put k d s)) k' d' \<Longrightarrow> holds s k' d' \<or> (same k k' \<and> codes d d')"
    and get_total: "fst (get k s) \<noteq> Panic"
    and put_total: "fst (put k d s) \<noteq> Panic"

section \<open>A cache of permissions\<close>

text \<open>\<open>allowed s i e\<close>: the permission \<open>e\<close> of the subject \<open>i\<close> is in the cache.\<close>

locale permission_cache =
  fixes get :: "go_int \<Rightarrow> string \<Rightarrow> 's \<Rightarrow> bool res \<times> 's"
    and put :: "go_int \<Rightarrow> string \<Rightarrow> 's \<Rightarrow> unit res \<times> 's"
    and allowed :: "'s \<Rightarrow> go_int \<Rightarrow> string \<Rightarrow> bool"
  assumes get_allowed: "fst (get i e s) = Ok True \<Longrightarrow> allowed s i e"
    and get_adds_no_permission: "allowed (snd (get i e s)) i' e' = allowed s i' e'"
    and put_adds_permission: "allowed (snd (put i e s)) i' e' \<Longrightarrow> allowed s i' e' \<or> (i' = i \<and> e' = e)"
    and get_permission_total: "fst (get i e s) \<noteq> Panic"
    and put_permission_total: "fst (put i e s) \<noteq> Panic"

section \<open>A middleware that decides\<close>

text \<open>
  What a middleware makes of a request is visible without looking into it: it passes the request
  on in the state \<open>s'\<close> when, whatever comes next, it does what comes next does in \<open>s'\<close>; it stops
  the request when it gives the same failure whatever comes next.
\<close>

definition passes :: "('w handler \<Rightarrow> 'w handler) \<Rightarrow> 'w gate \<Rightarrow> 'w gate \<Rightarrow> bool" where
  "passes m s s' \<longleftrightarrow> (\<forall>nxt. m nxt s = nxt s')"

definition stops :: "('w handler \<Rightarrow> 'w handler) \<Rightarrow> 'w gate \<Rightarrow> unit res \<Rightarrow> 'w gate \<Rightarrow> bool" where
  "stops m s r s' \<longleftrightarrow> r \<noteq> Ok () \<and> (\<forall>nxt. m nxt s = (r, s'))"

text \<open>What a refused request ends with: an error of one of these statuses, or a panic.\<close>

definition refusal :: "unit res \<Rightarrow> bool" where
  "refusal r \<longleftrightarrow>
     (case r of
        Ok u \<Rightarrow> False
      | Err e \<Rightarrow> error_status e \<in> {401, 403, 429, 500}
      | Panic \<Rightarrow> True)"

text \<open>
  The contract of an access middleware: it decides every request, \<open>admits s s'\<close> holds whenever it
  lets a request pass, and otherwise it refuses the request.
\<close>

locale access_middleware =
  fixes m :: "'w handler \<Rightarrow> 'w handler"
    and admits :: "'w gate \<Rightarrow> 'w gate \<Rightarrow> bool"
  assumes decides: "(\<exists>s'. admits s s' \<and> passes m s s') \<or> (\<exists>r s'. stops m s r s')"
    and refuses: "m (\<lambda>s. (Ok (), s)) s = (r, s') \<Longrightarrow> r \<noteq> Ok () \<Longrightarrow> refusal r"
begin

lemma passes_unique: "passes m s s' \<Longrightarrow> passes m s s'' \<Longrightarrow> s' = s''"
  by (auto simp: passes_def dest: spec [where x = "\<lambda>s. (Ok (), s)"])

lemma stops_not_passes: "stops m s r s' \<Longrightarrow> \<not> passes m s s''"
  by (auto simp: passes_def stops_def dest!: spec [where x = "\<lambda>s. (Ok (), s)"])

lemma admitted: "passes m s s' \<Longrightarrow> admits s s'"
  using decides [of s] passes_unique stops_not_passes by metis

lemma stopped: "stops m s r s' \<Longrightarrow> refusal r"
  using refuses by (auto simp: stops_def)

lemma verdict:
  obtains (pass) s' where "admits s s'" "passes m s s'"
  | (stop) r s' where "refusal r" "stops m s r s'"
  using decides [of s] stopped by blast

end

text \<open>Two middlewares of the contract, one in front of the other, are one middleware of the contract.\<close>

lemma access_middleware_comp:
  assumes "access_middleware m A" "access_middleware m' B"
  shows "access_middleware (\<lambda>n. m (m' n)) (\<lambda>s s''. \<exists>s'. A s s' \<and> B s' s'')"
proof (unfold_locales)
  show "(\<exists>s''. (\<exists>s'. A s s' \<and> B s' s'') \<and> passes (\<lambda>n. m (m' n)) s s'') \<or> (\<exists>r s''. stops (\<lambda>n. m (m' n)) s r s'')" for s
  proof (rule access_middleware.verdict [OF assms(1), of s])
    fix s'
    assume pass: "A s s'" "passes m s s'"
    show ?thesis
      by (rule access_middleware.verdict [OF assms(2), of s']) (use pass in \<open>auto simp: passes_def stops_def\<close>)
  qed (auto simp: stops_def)
  show "refusal r" if r: "m (m' (\<lambda>s. (Ok (), s))) s = (r, s'')" "r \<noteq> Ok ()" for r s s''
  proof (rule access_middleware.verdict [OF assms(1), of s])
    fix s'
    assume "passes m s s'"
    with r show ?thesis using access_middleware.refuses [OF assms(2)] by (auto simp: passes_def)
  qed (use r in \<open>auto simp: stops_def\<close>)
qed

end
