(* ===== verification/Gate_Repository.thy ===== *)
theory Gate_Repository
  imports Service_Interfaces
begin

text \<open>
  \<open>repository/*.go\<close>: the calls of the system, admin and lock modules through their gRPC clients,
  the call of the user authentication endpoint over HTTP, and the caches of authentication data
  and of permissions on top of the in-memory cache. The caches are instances of the interfaces
  the services use.
\<close>

section \<open>Remote modules\<close>

definition System_Authenticate ::
  "'w ext \<Rightarrow> string \<Rightarrow> 'w gate \<Rightarrow> entity_AuthenticateResponse res \<times> 'w gate" where
  "System_Authenticate x token s =
     (case in_world (x_system_authenticate x ''system/secure/authenticate'' \<lparr>eq_Token = token\<rparr>) s of
        (r, s1) \<Rightarrow>
          (with_message ''grpc client invoke: system/secure/authenticate'' (of_external r), s1))"

definition System_Authorize ::
  "'w ext \<Rightarrow> entity_AuthorizeRequest \<Rightarrow> 'w gate \<Rightarrow> bool res \<times> 'w gate" where
  "System_Authorize x req s =
     (case in_world (x_system_authorize x ''system/secure/authorize'' req) s of
        (r, s1) \<Rightarrow>
          (map_res ez_Authorized
             (with_message ''grpc client invoke: system/secure/authorize'' (of_external r)), s1))"

definition Admin_Authenticate ::
  "'w ext \<Rightarrow> string \<Rightarrow> 'w gate \<Rightarrow> entity_AdminAuthenticateResponse res \<times> 'w gate" where
  "Admin_Authenticate x token s =
     (case in_world (x_admin_authenticate x ''admin/secure/authenticate'' \<lparr>eq_Token = token\<rparr>) s of
        (r, s1) \<Rightarrow>
          (with_message ''grpc client invoke admin/secure/authenticate'' (of_external r), s1))"

definition Admin_Authorize ::
  "'w ext \<Rightarrow> go_int \<Rightarrow> string \<Rightarrow> 'w gate \<Rightarrow> bool res \<times> 'w gate" where
  "Admin_Authorize x adminId permission s =
     (case in_world (x_admin_authorize x ''admin/secure/authorize''
                       \<lparr>emz_AdminId = adminId, emz_Permission = permission\<rparr>) s of
        (r, s1) \<Rightarrow>
          (map_res emz_Authorized
             (with_message ''grpc client invoke: admin/secure/authorize'' (of_external r)), s1))"

text \<open>\<open>Locker.Increment\<close> reads the unsigned counter of the answer as an \<open>int64\<close>.\<close>

definition Locker_Increment ::
  "'w ext \<Rightarrow> string \<Rightarrow> time \<Rightarrow> 'w gate \<Rightarrow> go_int64 res \<times> 'w gate" where
  "Locker_Increment x key today s =
     (case in_world (x_locker_increment x ''isp-lock-service/daily_limit/increment''
                       \<lparr>ei_Key = key, ei_Today = today\<rparr>) s of
        (r, s1) \<Rightarrow>
          (map_res ei_Value
             (with_message (''invoke isp-lock-service: '' @ quoted ''isp-lock-service/daily_limit/increment'') (of_external r)), s1))"

definition Locker_IsAllowRequestPerSecond ::
  "'w ext \<Rightarrow> string \<Rightarrow> go_int \<Rightarrow> 'w gate \<Rightarrow> entity_RateLimiterResponse res \<times> 'w gate" where
  "Locker_IsAllowRequestPerSecond x key rate s =
     (case in_world (x_locker_rate_limit x ''isp-lock-service/rate_limit''
                       \<lparr>el_Key = key, el_MaxRps = rate\<rparr>) s of
        (r, s1) \<Rightarrow>
          (with_message (''invoke isp-lock-service: '' @ quoted ''isp-lock-service/rate_limit'') (of_external r), s1))"

definition UserAuth_Authenticate ::
  "'w ext \<Rightarrow> string \<Rightarrow> string \<Rightarrow> 'w gate \<Rightarrow> entity_UserAuthenticateResponse res \<times> 'w gate" where
  "UserAuth_Authenticate x method token s =
     (case in_world (x_router_next x) s of
        (Inl e, s1) \<Rightarrow> (Err (WithMessage (ExternalError e) ''lb next''), s1)
      | (Inr host, s1) \<Rightarrow>
          (let endpoint = ''http://'' @ host @ ''/'' @ method in
           case in_world (x_post_user_auth x endpoint \<lparr>euq_Token = token\<rparr>) s1 of
             (r, s2) \<Rightarrow> (with_message (''http client invoke: '' @ endpoint) (of_external r), s2)))"

section \<open>Caches\<close>

text \<open>\<open>cache.Get\<close> with the clock it reads when the key is there, and \<open>cache.Set\<close>.\<close>

definition cached :: "'w ext \<Rightarrow> ('w gate \<Rightarrow> cache) \<Rightarrow> string \<Rightarrow> 'w gate \<Rightarrow> bytes option option \<times> 'w gate" where
  "cached x sel key s =
     (case ca_store (sel s) key of
        None \<Rightarrow> (None, s)
      | Some it \<Rightarrow> (case now x s of (t, s1) \<Rightarrow> (Get t key (sel s), s1)))"

definition store ::
  "'w ext \<Rightarrow> ((cache \<Rightarrow> cache) \<Rightarrow> 'w gate \<Rightarrow> 'w gate) \<Rightarrow> string \<Rightarrow> bytes option \<Rightarrow> duration \<Rightarrow> 'w gate \<Rightarrow> 'w gate" where
  "store x upd key data lifeTime s =
     (case now x s of (t, s1) \<Rightarrow> upd (Set t key data lifeTime) s1)"

definition AuthenticationCache_Get ::
  "'w ext \<Rightarrow> string \<Rightarrow> 'w gate \<Rightarrow> entity_AppAuthData res \<times> 'w gate" where
  "AuthenticationCache_Get x token s =
     (case cached x g_app_cache token s of
        (None, s1) \<Rightarrow> (Err ErrAuthenticationCacheMiss, s1)
      | (Some data, s1) \<Rightarrow>
          (with_message ''json unmarshal auth data'' (of_external (x_unmarshal_app x data)), s1))"

definition AuthenticationCache_Set ::
  "'w ext \<Rightarrow> duration \<Rightarrow> string \<Rightarrow> entity_AppAuthData \<Rightarrow> 'w gate \<Rightarrow> unit res \<times> 'w gate" where
  "AuthenticationCache_Set x duration token data s =
     (case x_marshal_app x data of
        Inl e \<Rightarrow> (Err (WithMessage (ExternalError e) ''json marshal auth data''), s)
      | Inr value \<Rightarrow> (Ok (), store x g_app_cache_update token (Some value) duration s))"

definition AuthorizationCache_key :: "go_int \<Rightarrow> string \<Rightarrow> string" where
  "AuthorizationCache_key i endpoint = fmt_d i @ '':'' @ endpoint"

definition AuthorizationCache_Get ::
  "'w ext \<Rightarrow> ('w gate \<Rightarrow> cache) \<Rightarrow> go_int \<Rightarrow> string \<Rightarrow> 'w gate \<Rightarrow> bool res \<times> 'w gate" where
  "AuthorizationCache_Get x sel i endpoint s =
     (case cached x sel (AuthorizationCache_key i endpoint) s of (d, s1) \<Rightarrow> (Ok (d \<noteq> None), s1))"

definition AuthorizationCache_SetAuthorized ::
  "'w ext \<Rightarrow> ((cache \<Rightarrow> cache) \<Rightarrow> 'w gate \<Rightarrow> 'w gate) \<Rightarrow> duration \<Rightarrow> go_int \<Rightarrow> string \<Rightarrow> 'w gate \<Rightarrow> unit res \<times> 'w gate" where
  "AuthorizationCache_SetAuthorized x upd duration i endpoint s =
     (Ok (), store x upd (AuthorizationCache_key i endpoint) None duration s)"

definition UserAuthenticationCache_key :: "string \<Rightarrow> string \<Rightarrow> string" where
  "UserAuthenticationCache_key authModuleName token = authModuleName @ '':'' @ token"

definition UserAuthenticationCache_Get ::
  "'w ext \<Rightarrow> string \<times> string \<Rightarrow> 'w gate \<Rightarrow> entity_UserAuthData res \<times> 'w gate" where
  "UserAuthenticationCache_Get x k s =
     (case cached x g_user_cache (UserAuthenticationCache_key (fst k) (snd k)) s of
        (None, s1) \<Rightarrow> (Err ErrAuthenticationCacheMiss, s1)
      | (Some data, s1) \<Rightarrow>
          (with_message ''json unmarshal auth data'' (of_external (x_unmarshal_user x data)), s1))"

definition UserAuthenticationCache_Set ::
  "'w ext \<Rightarrow> duration \<Rightarrow> string \<times> string \<Rightarrow> entity_UserAuthData \<Rightarrow> 'w gate \<Rightarrow> unit res \<times> 'w gate" where
  "UserAuthenticationCache_Set x duration k data s =
     (case x_marshal_user x data of
        Inl e \<Rightarrow> (Err (WithMessage (ExternalError e) ''json marshal auth data''), s)
      | Inr value \<Rightarrow>
          (Ok (), store x g_user_cache_update (UserAuthenticationCache_key (fst k) (snd k)) (Some value) duration s))"

section \<open>Keys\<close>

lemma AuthorizationCache_key_inject [simp]:
  "AuthorizationCache_key i e = AuthorizationCache_key i' e' \<longleftrightarrow> i = i' \<and> e = e'"
  by (simp add: AuthorizationCache_key_def separated_inject)

lemma UserAuthenticationCache_key_inject:
  assumes "CHR '':'' \<notin> set m" "CHR '':'' \<notin> set m'"
  shows "UserAuthenticationCache_key m t = UserAuthenticationCache_key m' t' \<longleftrightarrow> m = m' \<and> t = t'"
  using assms by (simp add: UserAuthenticationCache_key_def separated_inject)

section \<open>The caches are instances of the interfaces\<close>

text \<open>What the caches hold, read through the codec.\<close>

definition app_holds :: "'w ext \<Rightarrow> 'w gate \<Rightarrow> string \<Rightarrow> entity_AppAuthData \<Rightarrow> bool" where
  "app_holds x s token d \<longleftrightarrow>
     (\<exists>it. ca_store (g_app_cache s) token = Some it \<and> x_unmarshal_app x (it_data it) = Inr d)"

definition app_codes :: "'w ext \<Rightarrow> entity_AppAuthData \<Rightarrow> entity_AppAuthData \<Rightarrow> bool" where
  "app_codes x d d' \<longleftrightarrow> (\<exists>v. x_marshal_app x d = Inr v \<and> x_unmarshal_app x (Some v) = Inr d')"

definition user_holds :: "'w ext \<Rightarrow> 'w gate \<Rightarrow> string \<times> string \<Rightarrow> entity_UserAuthData \<Rightarrow> bool" where
  "user_holds x s k d \<longleftrightarrow>
     (\<exists>it. ca_store (g_user_cache s) (UserAuthenticationCache_key (fst k) (snd k)) = Some it \<and>
           x_unmarshal_user x (it_data it) = Inr d)"

definition user_codes :: "'w ext \<Rightarrow> entity_UserAuthData \<Rightarrow> entity_UserAuthData \<Rightarrow> bool" where
  "user_codes x d d' \<longleftrightarrow> (\<exists>v. x_marshal_user x d = Inr v \<and> x_unmarshal_user x (Some v) = Inr d')"

definition permission_held :: "('w gate \<Rightarrow> cache) \<Rightarrow> 'w gate \<Rightarrow> go_int \<Rightarrow> string \<Rightarrow> bool" where
  "permission_held sel s i e \<longleftrightarrow> AuthorizationCache_key i e \<in> dom (ca_store (sel s))"

lemma cached_snd: "snd (cached x sel key s) = (if ca_store (sel s) key = None then s else snd (now x s))"
  by (simp add: cached_def split_beta split: option.splits)

lemma cached_world [simp]: "\<exists>w. snd (cached x sel key s) = s\<lparr>g_world := w\<rparr>"
proof (cases "ca_store (sel s) key = None")
  case True
  then have "snd (cached x sel key s) = s\<lparr>g_world := g_world s\<rparr>" by (simp add: cached_snd)
  then show ?thesis by blast
qed (auto simp: cached_snd)

lemma cached_keeps [simp]:
  "g_ctx (snd (cached x sel key s)) = g_ctx s"
  "g_rw (snd (cached x sel key s)) = g_rw s"
  "g_wrapper_status (snd (cached x sel key s)) = g_wrapper_status s"
  "g_app_cache (snd (cached x sel key s)) = g_app_cache s"
  "g_authz_cache (snd (cached x sel key s)) = g_authz_cache s"
  "g_admin_cache (snd (cached x sel key s)) = g_admin_cache s"
  "g_user_cache (snd (cached x sel key s)) = g_user_cache s"
  "g_log (snd (cached x sel key s)) = g_log s"
  "g_metrics (snd (cached x sel key s)) = g_metrics s"
  by (simp_all add: cached_snd)

lemma cached_SomeD:
  "fst (cached x sel key s) = Some d \<Longrightarrow> \<exists>it. ca_store (sel s) key = Some it \<and> it_data it = d"
  by (auto simp: cached_def split_beta dest: Get_SomeD split: option.splits)

lemma store_eq:
  "store x upd key data life s =
     upd (Set (fst (x_Now x (g_world s))) key data life) (s\<lparr>g_world := snd (x_Now x (g_world s))\<rparr>)"
  by (simp add: store_def split_beta)

lemma AuthenticationCache_Get_snd [simp]:
  "snd (AuthenticationCache_Get x k s) = snd (cached x g_app_cache k s)"
  by (simp add: AuthenticationCache_Get_def split_beta split: option.splits)

lemma UserAuthenticationCache_Get_snd [simp]:
  "snd (UserAuthenticationCache_Get x k s) =
     snd (cached x g_user_cache (UserAuthenticationCache_key (fst k) (snd k)) s)"
  by (simp add: UserAuthenticationCache_Get_def split_beta split: option.splits)

lemma AuthorizationCache_Get_snd [simp]:
  "snd (AuthorizationCache_Get x sel i e s) = snd (cached x sel (AuthorizationCache_key i e) s)"
  by (simp add: AuthorizationCache_Get_def split_beta)

interpretation app_cache: decoding_cache
  "AuthenticationCache_Get x" "AuthenticationCache_Set x d" "app_holds x" "(=)" "app_codes x" for x d
proof (unfold_locales, goal_cases)
  case 1
  then show ?case
    by (auto simp: AuthenticationCache_Get_def split_beta app_holds_def dest!: cached_SomeD split: option.splits)
next
  case 2
  show ?case by (simp add: app_holds_def)
next
  case 3
  then show ?case
    by (auto simp: AuthenticationCache_Set_def app_holds_def app_codes_def store_eq split: sum.splits if_splits)
next
  case 4
  show ?case by (simp add: AuthenticationCache_Get_def split_beta split: option.splits)
next
  case 5
  show ?case by (simp add: AuthenticationCache_Set_def split: sum.splits)
qed

text \<open>
  The key of the user cache joins the authentication endpoint and the token with a colon; two
  pairs share an entry when the joined texts agree.
\<close>

definition same_user_key :: "string \<times> string \<Rightarrow> string \<times> string \<Rightarrow> bool" where
  "same_user_key k k' \<longleftrightarrow>
     UserAuthenticationCache_key (fst k) (snd k) = UserAuthenticationCache_key (fst k') (snd k')"

interpretation user_cache: decoding_cache
  "UserAuthenticationCache_Get x" "UserAuthenticationCache_Set x d" "user_holds x" same_user_key
  "user_codes x" for x d
proof (unfold_locales, goal_cases)
  case 1
  then show ?case
    by (auto simp: UserAuthenticationCache_Get_def split_beta user_holds_def dest!: cached_SomeD split: option.splits)
next
  case 2
  show ?case by (simp add: user_holds_def)
next
  case 3
  then show ?case
    by (auto simp: UserAuthenticationCache_Set_def user_holds_def user_codes_def same_user_key_def store_eq
        split: sum.splits if_splits)
next
  case 4
  show ?case by (simp add: UserAuthenticationCache_Get_def split_beta split: option.splits)
next
  case 5
  show ?case by (simp add: UserAuthenticationCache_Set_def split: sum.splits)
qed

interpretation authz_cache: permission_cache
  "AuthorizationCache_Get x g_authz_cache" "AuthorizationCache_SetAuthorized x g_authz_cache_update d"
  "permission_held g_authz_cache" for x d
  by unfold_locales
     (auto simp: AuthorizationCache_Get_def AuthorizationCache_SetAuthorized_def permission_held_def
       split_beta store_eq dest!: cached_SomeD)

interpretation admin_cache: permission_cache
  "AuthorizationCache_Get x g_admin_cache" "AuthorizationCache_SetAuthorized x g_admin_cache_update d"
  "permission_held g_admin_cache" for x d
  by unfold_locales
     (auto simp: AuthorizationCache_Get_def AuthorizationCache_SetAuthorized_def permission_held_def
       split_beta store_eq dest!: cached_SomeD)

end
