(* ===== verification/Sample_World.thy ===== *)
theory Sample_World
  imports Gate_World
begin

text \<open>
  A concrete environment for the examples of the development: every call of code outside the
  repository answers in the simplest way, and an example replaces the calls it is about.
\<close>

definition idle :: "'w ext" where
  "idle =
     \<lparr>x_Now = (\<lambda>w. (0, w)),
      x_date = (\<lambda>t. (2025, 1, 1)),
      x_unicode_lower = (\<lambda>s. s),
      x_map_order = (\<lambda>w m. m),
      x_requestid_Next = (\<lambda>w. (''r1'', w)),
      x_requestid_ToContext = (\<lambda>ctx i. WithValue ctx (LibraryKey ''requestId'') (StringValue i)),
      x_requestid_FromContext =
        (\<lambda>ctx. case Value ctx (LibraryKey ''requestId'') of Some (StringValue i) \<Rightarrow> i | _ \<Rightarrow> []),
      x_log_ToContext = (\<lambda>ctx fs. WithValue ctx (LibraryKey ''log'') (FieldsValue fs)),
      x_log_RewriteContextField = (\<lambda>ctx f. WithValue ctx (LibraryKey ''log'') (FieldsValue [f])),
      x_marshal_app = (\<lambda>d. Inl ''no codec''),
      x_unmarshal_app = (\<lambda>b. Inl ''no codec''),
      x_marshal_user = (\<lambda>d. Inl ''no codec''),
      x_unmarshal_user = (\<lambda>b. Inl ''no codec''),
      x_marshal_json = (\<lambda>j. Inr []),
      x_system_authenticate = (\<lambda>e q w. (Inl ''unavailable'', w)),
      x_system_authorize = (\<lambda>e q w. (Inl ''unavailable'', w)),
      x_admin_authenticate = (\<lambda>e q w. (Inl ''unavailable'', w)),
      x_admin_authorize = (\<lambda>e q w. (Inl ''unavailable'', w)),
      x_locker_increment = (\<lambda>e q w. (Inl ''unavailable'', w)),
      x_locker_rate_limit = (\<lambda>e q w. (Inl ''unavailable'', w)),
      x_router_next = (\<lambda>w. (Inl ''no host'', w)),
      x_post_user_auth = (\<lambda>e q w. (Inl ''unavailable'', w)),
      x_host_next = (\<lambda>m w. (Inl ''no host'', w)),
      x_url_parse = (\<lambda>u. None),
      x_forward_http = (\<lambda>h r d w. (ForwardError ''unavailable'', w)),
      x_forward_ws = (\<lambda>h r f e w. (WsUpgradeError ''unavailable'', w)),
      x_backend_request = (\<lambda>m md d b w. (Inl \<lparr>ge_text = ''unavailable'', ge_status = None\<rparr>, w)),
      x_ProxyMethodNameHeader = ''proxy_method_name'',
      x_md_Set = (\<lambda>md k vs. md(k \<mapsto> vs)),
      x_router_lookup = (\<lambda>hs m p. None),
      x_required_admin_permission = (\<lambda>d. ([], False)),
      x_mux_Match = (\<lambda>ps r. map_option fst (find (\<lambda>(i, p). has_prefix (rq_Path r) p) (enumerate 0 ps))),
      x_mux_Answer = (\<lambda>r rw. http_Error ''404 page not found'' StatusNotFound rw),
      x_client_Default = (\<lambda>w. (None, w)),
      x_buffer_Acquire = (\<lambda>w. w),
      x_buffer_ReadRequestBody = (\<lambda>b w. (None, w)),
      x_buffer_RequestBody = (\<lambda>w. []),
      x_buffer_ResponseBody = (\<lambda>w. []),
      x_buffer_StatusCode = (\<lambda>w. StatusOK),
      x_buffer_WriteHeader = (\<lambda>c rw w. (WriteHeader c rw, w)),
      x_buffer_Write = (\<lambda>d rw w. (Write d rw, w)),
      x_buffer_Release = (\<lambda>w. w)\<rparr>"

definition sample_writer :: response_writer where
  "sample_writer =
     \<lparr>rw_Header = Map.empty, rw_Interim = [], rw_Sent = None, rw_Body = [], rw_WriteError = None,
      rw_Hijacker = True\<rparr>"

text \<open>A gateway that has just started, with a request that arrived at the endpoint of \<open>meta\<close>.\<close>

definition fresh_gate :: "EndpointMeta \<Rightarrow> http_request \<Rightarrow> 'w \<Rightarrow> 'w gate" where
  "fresh_gate meta r w =
     \<lparr>g_ctx = NewContext r ServerWriter meta, g_rw = sample_writer, g_wrapper_status = 0,
      g_app_cache = New, g_authz_cache = New, g_admin_cache = New, g_user_cache = New,
      g_log_level = ''debug'', g_log = [], g_metrics = [], g_world = w\<rparr>"

end
