(* ===== verification/Gate_Services.thy ===== *)
theory Gate_Services
  imports Gate_Repository Sample_World
begin

text \<open>
  \<open>service/authentication.go\<close>, \<open>service/authorization.go\<close> and \<open>service/admin.go\<close>: the decisions
  about applications and administrators, each a cache in front of a remote module. As in the
  code, a service is written against the interfaces of its cache and its repository, which are
  arguments here; the lemmas about who is let through are proved from the contracts of the
  caches.
\<close>

section \<open>Authentication of applications\<close>

definition convertAuthData :: "entity_AppAuthData \<Rightarrow> AppAuthData" where
  "convertAuthData a =
     \<lparr>ad_AppName = ea_AppName a, ad_SystemId = ea_SystemId a, ad_DomainId = ea_DomainId a,
      ad_ServiceId = ea_ServiceId a, ad_ApplicationId = ea_ApplicationId a\<rparr>"

definition convertAuthReponse :: "entity_AuthenticateResponse \<Rightarrow> AuthenticateAppResponse" where
  "convertAuthReponse resp =
     \<lparr>ar_Authenticated = er_Authenticated resp, ar_ErrorReason = er_ErrorReason resp,
      ar_AuthData = map_option convertAuthData (er_AuthData resp)\<rparr>"

definition Authentication_Authenticate ::
  "(string \<Rightarrow> 's \<Rightarrow> entity_AppAuthData res \<times> 's) \<Rightarrow>
   (string \<Rightarrow> entity_AppAuthData \<Rightarrow> 's \<Rightarrow> unit res \<times> 's) \<Rightarrow>
   (string \<Rightarrow> 's \<Rightarrow> entity_AuthenticateResponse res \<times> 's) \<Rightarrow>
   string \<Rightarrow> 's \<Rightarrow> AuthenticateAppResponse res \<times> 's" where
  "Authentication_Authenticate cache_Get cache_Set repo_Authenticate token s =
     (case cache_Get token s of
        (Panic, s1) \<Rightarrow> (Panic, s1)
      | (Err e, s1) \<Rightarrow>
          (if errors_Is e ErrAuthenticationCacheMiss then
             (case repo_Authenticate token s1 of
                (Panic, s2) \<Rightarrow> (Panic, s2)
              | (Err e, s2) \<Rightarrow> (Err (WithMessage e ''auth repo authenticate''), s2)
              | (Ok resp, s2) \<Rightarrow>
                  (if \<not> er_Authenticated resp then (Ok (convertAuthReponse resp), s2)
                   else (case er_AuthData resp of
                           None \<Rightarrow> (Panic, s2)
                         | Some data \<Rightarrow>
                             (case cache_Set token data s2 of
                                (Panic, s3) \<Rightarrow> (Panic, s3)
                              | (Err e, s3) \<Rightarrow> (Err (WithMessage e ''auth cache set''), s3)
                              | (Ok u, s3) \<Rightarrow> (Ok (convertAuthReponse resp), s3)))))
           else (Err (WithMessage e ''auth cache get''), s1))
      | (Ok authData, s1) \<Rightarrow>
          (Ok \<lparr>ar_Authenticated = True, ar_ErrorReason = [], ar_AuthData = Some (convertAuthData authData)\<rparr>, s1))"

section \<open>Authorization of applications\<close>

definition Authorization_Authorize ::
  "(go_int \<Rightarrow> string \<Rightarrow> 's \<Rightarrow> bool res \<times> 's) \<Rightarrow>
   (go_int \<Rightarrow> string \<Rightarrow> 's \<Rightarrow> unit res \<times> 's) \<Rightarrow>
   (entity_AuthorizeRequest \<Rightarrow> 's \<Rightarrow> bool res \<times> 's) \<Rightarrow>
   go_int \<Rightarrow> string \<Rightarrow> string \<Rightarrow> 's \<Rightarrow> bool res \<times> 's" where
  "Authorization_Authorize cache_Get cache_SetAuthorized repo_Authorize applicationId httpMethod endpoint s =
     (let cacheKey = httpMethod @ '' '' @ endpoint in
      case cache_Get applicationId cacheKey s of
        (Panic, s1) \<Rightarrow> (Panic, s1)
      | (Err e, s1) \<Rightarrow> (Err (WithMessage e ''authz cache get''), s1)
      | (Ok ok, s1) \<Rightarrow>
          (if ok then (Ok True, s1)
           else
             (case repo_Authorize
                     \<lparr>ez_ApplicationId = applicationId, ez_HttpMethod = httpMethod, ez_Endpoint = endpoint\<rparr> s1 of
                (Panic, s2) \<Rightarrow> (Panic, s2)
              | (Err e, s2) \<Rightarrow> (Err (WithMessage e ''authz repo authorize''), s2)
              | (Ok ok, s2) \<Rightarrow>
                  (if ok then
                     (case cache_SetAuthorized applicationId cacheKey s2 of
                        (Panic, s3) \<Rightarrow> (Panic, s3)
                      | (Err e, s3) \<Rightarrow> (Err (WithMessage e ''authz cache set''), s3)
                      | (Ok u, s3) \<Rightarrow> (Ok ok, s3))
                   else (Ok ok, s2)))))"

section \<open>Administrators\<close>

definition AdminAuthenticate ::
  "(string \<Rightarrow> 's \<Rightarrow> entity_AdminAuthenticateResponse res \<times> 's) \<Rightarrow>
   string \<Rightarrow> 's \<Rightarrow> AdminAuthenticateResponse res \<times> 's" where
  "AdminAuthenticate repo_Authenticate token s =
     (case repo_Authenticate token s of
        (Panic, s1) \<Rightarrow> (Panic, s1)
      | (Err e, s1) \<Rightarrow> (Err (WithMessage e ''get admin token data from admin service''), s1)
      | (Ok resp, s1) \<Rightarrow>
          (Ok \<lparr>mr_Authenticated = em_Authenticated resp, mr_ErrorReason = em_ErrorReason resp,
               mr_AdminId = em_AdminId resp\<rparr>, s1))"

definition AdminAuthorize ::
  "(go_int \<Rightarrow> string \<Rightarrow> 's \<Rightarrow> bool res \<times> 's) \<Rightarrow>
   (go_int \<Rightarrow> string \<Rightarrow> 's \<Rightarrow> unit res \<times> 's) \<Rightarrow>
   (go_int \<Rightarrow> string \<Rightarrow> 's \<Rightarrow> bool res \<times> 's) \<Rightarrow>
   go_int \<Rightarrow> string \<Rightarrow> 's \<Rightarrow> bool res \<times> 's" where
  "AdminAuthorize cache_Get cache_SetAuthorized repo_Authorize adminId permission s =
     (case cache_Get adminId permission s of
        (Panic, s1) \<Rightarrow> (Panic, s1)
      | (Err e, s1) \<Rightarrow> (Err (WithMessage e ''authz cache get''), s1)
      | (Ok ok, s1) \<Rightarrow>
          (if ok then (Ok ok, s1)
           else
             (case repo_Authorize adminId permission s1 of
                (Panic, s2) \<Rightarrow> (Panic, s2)
              | (Err e, s2) \<Rightarrow> (Err (WithMessage e ''authz repo authorize''), s2)
              | (Ok ok, s2) \<Rightarrow>
                  (if ok then
                     (case cache_SetAuthorized adminId permission s2 of
                        (Panic, s3) \<Rightarrow> (Panic, s3)
                      | (Err e, s3) \<Rightarrow> (Err (WithMessage e ''authz cache set''), s3)
                      | (Ok u, s3) \<Rightarrow> (Ok ok, s3))
                   else (Ok ok, s2)))))"

section \<open>Who is let through, from the contracts\<close>

text \<open>The service of \<open>service/authentication.go\<close>: its cache and its repository.\<close>

locale authentication_service =
  decoding_cache get put holds "(=)" codes
  for get :: "string \<Rightarrow> 's \<Rightarrow> entity_AppAuthData res \<times> 's"
    and put :: "string \<Rightarrow> entity_AppAuthData \<Rightarrow> 's \<Rightarrow> unit res \<times> 's"
    and holds :: "'s \<Rightarrow> string \<Rightarrow> entity_AppAuthData \<Rightarrow> bool"
    and codes :: "entity_AppAuthData \<Rightarrow> entity_AppAuthData \<Rightarrow> bool" +
  fixes repo :: "string \<Rightarrow> 's \<Rightarrow> entity_AuthenticateResponse res \<times> 's"
  assumes repo_keeps: "holds (snd (repo t s)) k' d' = holds s k' d'"
begin

lemma hit:
  assumes "fst (get t s) = Ok d"
  shows "Authentication_Authenticate get put repo t s =
    (Ok \<lparr>ar_Authenticated = True, ar_ErrorReason = [], ar_AuthData = Some (convertAuthData d)\<rparr>, snd (get t s))"
  using assms by (cases "get t s") (simp add: Authentication_Authenticate_def)

lemma authenticated_origin:
  assumes "fst (Authentication_Authenticate get put repo t s) = Ok resp" "ar_Authenticated resp"
  shows "\<exists>d. ar_AuthData resp = Some (convertAuthData d) \<and>
    (holds s t d \<or>
     (\<exists>r. fst (repo t (snd (get t s))) = Ok r \<and> er_Authenticated r \<and> er_AuthData r = Some d))"
  using assms get_holds [of t s]
  by (force simp: Authentication_Authenticate_def convertAuthReponse_def
      split: prod.splits res.splits if_splits option.splits)

lemma content_origin:
  assumes "holds (snd (Authentication_Authenticate get put repo t s)) k' d'"
  shows "holds s k' d' \<or>
    (k' = t \<and> (\<exists>r d. fst (repo t (snd (get t s))) = Ok r \<and> er_Authenticated r \<and>
       er_AuthData r = Some d \<and> codes d d'))"
  using assms
  by (auto simp: Authentication_Authenticate_def split_beta repo_keeps get_adds_nothing
      split: res.splits if_splits option.splits dest!: put_adds)

lemma no_answer_without_data:
  "fst (Authentication_Authenticate get put repo t s) = Ok resp \<Longrightarrow> ar_Authenticated resp \<Longrightarrow>
     ar_AuthData resp \<noteq> None"
  using authenticated_origin by fastforce

end

text \<open>
  The services of \<open>service/authorization.go\<close> and \<open>service/admin.go\<close>: a cache of permissions in front
  of a repository that knows them.
\<close>

locale authorization_service = permission_cache +
  fixes repo :: "entity_AuthorizeRequest \<Rightarrow> 's \<Rightarrow> bool res \<times> 's"
  assumes repo_keeps_permissions: "allowed (snd (repo q s)) i' e' = allowed s i' e'"
begin

lemma authorized_origin:
  assumes "fst (Authorization_Authorize get put repo i m e s) = Ok True"
  shows "allowed s i (m @ '' '' @ e) \<or>
    fst (repo \<lparr>ez_ApplicationId = i, ez_HttpMethod = m, ez_Endpoint = e\<rparr> (snd (get i (m @ '' '' @ e) s))) = Ok True"
  using assms get_allowed [of i "m @ '' '' @ e" s]
  by (auto simp: Authorization_Authorize_def Let_def split: prod.splits res.splits if_splits)

lemma permissions_origin:
  assumes "allowed (snd (Authorization_Authorize get put repo i m e s)) i' c"
  shows "allowed s i' c \<or>
    (i' = i \<and> c = m @ '' '' @ e \<and>
     fst (repo \<lparr>ez_ApplicationId = i, ez_HttpMethod = m, ez_Endpoint = e\<rparr> (snd (get i c s))) = Ok True)"
  using assms
  by (auto simp: Authorization_Authorize_def Let_def split_beta repo_keeps_permissions get_adds_no_permission
      split: res.splits if_splits dest!: put_adds_permission)

end

locale admin_service = permission_cache +
  fixes repo :: "go_int \<Rightarrow> string \<Rightarrow> 's \<Rightarrow> bool res \<times> 's"
  assumes repo_keeps_permissions: "allowed (snd (repo i e s)) i' e' = allowed s i' e'"
begin

lemma authorized_origin:
  assumes "fst (AdminAuthorize get put repo i e s) = Ok True"
  shows "allowed s i e \<or> fst (repo i e (snd (get i e s))) = Ok True"
  using assms get_allowed [of i e s]
  by (auto simp: AdminAuthorize_def split: prod.splits res.splits if_splits)

lemma permissions_origin:
  assumes "allowed (snd (AdminAuthorize get put repo i e s)) i' c"
  shows "allowed s i' c \<or> (i' = i \<and> c = e \<and> fst (repo i e (snd (get i e s))) = Ok True)"
  using assms
  by (auto simp: AdminAuthorize_def split_beta repo_keeps_permissions get_adds_no_permission
      split: res.splits if_splits dest!: put_adds_permission)

end

section \<open>The services on the model's caches and repositories\<close>

lemma System_Authenticate_snd [simp]:
  "snd (System_Authenticate x t s) =
     s\<lparr>g_world := snd (x_system_authenticate x ''system/secure/authenticate'' \<lparr>eq_Token = t\<rparr> (g_world s))\<rparr>"
  by (simp add: System_Authenticate_def split_beta)

lemma System_Authorize_snd [simp]:
  "snd (System_Authorize x q s) =
     s\<lparr>g_world := snd (x_system_authorize x ''system/secure/authorize'' q (g_world s))\<rparr>"
  by (simp add: System_Authorize_def split_beta)

lemma Admin_Authorize_snd [simp]:
  "snd (Admin_Authorize x i p s) =
     s\<lparr>g_world := snd (x_admin_authorize x ''admin/secure/authorize'' \<lparr>emz_AdminId = i, emz_Permission = p\<rparr> (g_world s))\<rparr>"
  by (simp add: Admin_Authorize_def split_beta)

interpretation app_auth: authentication_service
  "AuthenticationCache_Get x" "AuthenticationCache_Set x d" "app_holds x" "app_codes x"
  "System_Authenticate x" for x d
  by unfold_locales (simp add: app_holds_def)

interpretation app_authz: authorization_service
  "AuthorizationCache_Get x g_authz_cache" "AuthorizationCache_SetAuthorized x g_authz_cache_update d"
  "permission_held g_authz_cache" "System_Authorize x" for x d
  by unfold_locales (simp add: permission_held_def)

interpretation admin_authz: admin_service
  "AuthorizationCache_Get x g_admin_cache" "AuthorizationCache_SetAuthorized x g_admin_cache_update d"
  "permission_held g_admin_cache" "Admin_Authorize x" for x d
  by unfold_locales (simp add: permission_held_def)

section \<open>Properties\<close>

abbreviation authenticate_app ::
  "'w ext \<Rightarrow> duration \<Rightarrow> string \<Rightarrow> 'w gate \<Rightarrow> AuthenticateAppResponse res \<times> 'w gate" where
  "authenticate_app x d \<equiv>
     Authentication_Authenticate (AuthenticationCache_Get x) (AuthenticationCache_Set x d) (System_Authenticate x)"

abbreviation authorize_app ::
  "'w ext \<Rightarrow> duration \<Rightarrow> go_int \<Rightarrow> string \<Rightarrow> string \<Rightarrow> 'w gate \<Rightarrow> bool res \<times> 'w gate" where
  "authorize_app x d \<equiv>
     Authorization_Authorize (AuthorizationCache_Get x g_authz_cache)
       (AuthorizationCache_SetAuthorized x g_authz_cache_update d) (System_Authorize x)"

lemma AuthenticationCache_Get_miss:
  "fst (cached x g_app_cache t s) = None \<Longrightarrow> fst (AuthenticationCache_Get x t s) = Err ErrAuthenticationCacheMiss"
  by (simp add: AuthenticationCache_Get_def split_beta)

lemma AuthorizationCache_Get_hit:
  "fst (AuthorizationCache_Get x sel i e s) = Ok (fst (cached x sel (AuthorizationCache_key i e) s) \<noteq> None)"
  by (simp add: AuthorizationCache_Get_def split_beta)




definition sample_app :: entity_AppAuthData where
  "sample_app = \<lparr>ea_AppName = ''crm'', ea_SystemId = 1, ea_DomainId = 2, ea_ServiceId = 3, ea_ApplicationId = 7\<rparr>"

text \<open>A system module that knows the token of one application and lets it do everything.\<close>

definition sample_ext :: "unit ext" where
  "sample_ext =
     idle\<lparr>x_system_authenticate := \<lambda>e q w.
            (Inr \<lparr>er_Authenticated = eq_Token q = ''t'', er_ErrorReason = [],
                  er_AuthData = if eq_Token q = ''t'' then Some sample_app else None\<rparr>, w),
          x_system_authorize := \<lambda>e q w. (Inr \<lparr>ez_Authorized = True\<rparr>, w),
          x_marshal_app := \<lambda>d. Inr [], x_unmarshal_app := \<lambda>b. Inr sample_app\<rparr>"


end
