(* ===== verification/User_Authentication.thy ===== *)
theory User_Authentication
  imports Gate_Services
begin

text \<open>
  \<open>service/user_authentication.go\<close> and \<open>service/token_provider/*.go\<close>: the configurable authentication
  of users. The constructor checks the configuration and builds the settings of every module; a
  request of an endpoint that requires a user has its token extracted by the providers of the
  setting, in order, and checked by the authentication endpoint, behind a cache when the setting
  has a positive cache duration.
\<close>

section \<open>Token providers\<close>

datatype TokenProvider =
    HeaderProvider (tp_name: string) (tp_headerName: string)
  | CookieProvider (tp_name: string) (tp_cookieName: string) (tp_validate: bool)

definition NewHeaderProvider :: "string \<Rightarrow> conf_HeaderTokenProvider \<Rightarrow> TokenProvider" where
  "NewHeaderProvider name cfg = HeaderProvider name (chp_HeaderName cfg)"

definition NewCookieProvider :: "string \<Rightarrow> conf_CookieTokenProvider \<Rightarrow> TokenProvider" where
  "NewCookieProvider name cfg = CookieProvider name (ccp_CookieName cfg) (ccp_Validate cfg)"

definition GetName :: "TokenProvider \<Rightarrow> string" where
  "GetName p = tp_name p"

definition cookie_result :: "http_request \<Rightarrow> string \<Rightarrow> cookie res" where
  "cookie_result r name = (case Request_Cookie r name of None \<Rightarrow> Err ErrNoCookie | Some c \<Rightarrow> Ok c)"

fun ExtractToken :: "TokenProvider \<Rightarrow> http_request \<Rightarrow> string res" where
  "ExtractToken (HeaderProvider name headerName) r = Ok (trim_space (Header_Get (rq_Header r) headerName))"
| "ExtractToken (CookieProvider name cookieName validate) r =
     (case cookie_result r cookieName of
        Panic \<Rightarrow> Panic
      | Err err \<Rightarrow>
          (if errors_Is err ErrNoCookie then Ok []
           else Err (WithMessage err (''get cookie with name '' @ quoted cookieName)))
      | Ok cookie \<Rightarrow>
          (if \<not> validate then Ok (trim_space (ck_Value cookie))
           else (case Cookie_Valid cookie of
                   Some e \<Rightarrow> Err (WithMessage (ExternalError e) (''validate cookie with name '' @ quoted cookieName))
                 | None \<Rightarrow> Ok (trim_space (ck_Value cookie)))))"

definition tokenProviderFromConfig :: "conf_TokenProvider \<Rightarrow> TokenProvider res" where
  "tokenProviderFromConfig cfg =
     (if ctp_Type cfg = HeaderTokenProviderType then
        (case ctp_HeaderProvider cfg of
           None \<Rightarrow> Err (NewError (''token method '' @ quoted (ctp_Name cfg) @ '' has empty header provider''))
         | Some h \<Rightarrow> Ok (NewHeaderProvider (ctp_Name cfg) h))
      else if ctp_Type cfg = CookieTokenProviderType then
        (case ctp_CookieProvider cfg of
           None \<Rightarrow> Err (NewError (''token method '' @ quoted (ctp_Name cfg) @ '' has empty cookie provider''))
         | Some c \<Rightarrow> Ok (NewCookieProvider (ctp_Name cfg) c))
      else Err (NewError (''unknown token provider with type '' @ quoted (ctp_Type cfg))))"

section \<open>The constructor\<close>

record userAuthSetting =
  us_tokenProviders :: "TokenProvider list"
  us_authEndpoint :: string
  us_authCacheDuration :: duration
  us_skipAppAuth :: bool

text \<open>The loop over the token providers, at index \<open>i\<close>.\<close>

fun read_providers :: "nat \<Rightarrow> (string \<rightharpoonup> TokenProvider) \<Rightarrow> conf_TokenProvider list \<Rightarrow> (string \<rightharpoonup> TokenProvider) res" where
  "read_providers i m [] = Ok m"
| "read_providers i m (provider # ps) =
     (if m (ctp_Name provider) \<noteq> None
      then Err (NewError (''token provider name must have unique name, found duplicate at ['' @ nat_text i @
                          ''] with name '' @ quoted (ctp_Name provider)))
      else (case tokenProviderFromConfig provider of
              Ok tokenProvider \<Rightarrow> read_providers (i + 1) (m(ctp_Name provider \<mapsto> tokenProvider)) ps
            | Err e \<Rightarrow> Err (WithMessage e (''init token provider with name '' @ quoted (ctp_Name provider)))
            | Panic \<Rightarrow> Panic))"

text \<open>The loop over the provider names of one setting.\<close>

fun setting_providers ::
  "(string \<rightharpoonup> TokenProvider) \<Rightarrow> string list \<Rightarrow> TokenProvider list \<Rightarrow> string list \<Rightarrow> TokenProvider list res" where
  "setting_providers m modules acc [] = Ok acc"
| "setting_providers m modules acc (providerName # names) =
     (case m providerName of
        None \<Rightarrow> Err (NewError (''modules with names'' @ quoted (''['' @ join_with (CHR '','') modules @ '']'') @
                              '' has unknown token provider '' @ quoted providerName))
      | Some tokenProvider \<Rightarrow> setting_providers m modules (acc @ [tokenProvider]) names)"

text \<open>The loop over the modules of one setting.\<close>

fun add_modules ::
  "userAuthSetting \<Rightarrow> (string \<rightharpoonup> userAuthSetting) \<Rightarrow> string list \<Rightarrow> (string \<rightharpoonup> userAuthSetting) res" where
  "add_modules st m [] = Ok m"
| "add_modules st m (moduleName # names) =
     (if m moduleName \<noteq> None
      then Err (NewError (''setting unique violation, setting for module with name '' @ quoted moduleName @
                          '' already present''))
      else add_modules st (m(moduleName \<mapsto> st)) names)"

definition build_setting :: "TokenProvider list \<Rightarrow> conf_UserAuthSetting \<Rightarrow> userAuthSetting" where
  "build_setting providers setting =
     \<lparr>us_tokenProviders = providers, us_authEndpoint = cus_AuthenticateEndpoint setting,
      us_authCacheDuration = seconds (cus_CacheDataInSec setting),
      us_skipAppAuth = cus_SkipAppAuth setting\<rparr>"

text \<open>The loop over the settings.\<close>

fun read_settings ::
  "(string \<rightharpoonup> TokenProvider) \<Rightarrow> (string \<rightharpoonup> userAuthSetting) \<Rightarrow> conf_UserAuthSetting list \<Rightarrow> (string \<rightharpoonup> userAuthSetting) res" where
  "read_settings tps m [] = Ok m"
| "read_settings tps m (setting # rest) =
     (case setting_providers tps (cus_ModuleNameList setting) [] (cus_TokenProviders setting) of
        Err e \<Rightarrow> Err e
      | Panic \<Rightarrow> Panic
      | Ok providers \<Rightarrow>
          (case add_modules (build_setting providers setting) m (cus_ModuleNameList setting) of
             Err e \<Rightarrow> Err e
           | Panic \<Rightarrow> Panic
           | Ok m' \<Rightarrow> read_settings tps m' rest))"

definition NewUserAuthentication :: "conf_CustomAuth \<Rightarrow> (string \<rightharpoonup> userAuthSetting) res" where
  "NewUserAuthentication cfg =
     (case read_providers 0 Map.empty (cca_TokenProviders cfg) of
        Err e \<Rightarrow> Err e
      | Panic \<Rightarrow> Panic
      | Ok tokenProviders \<Rightarrow> read_settings tokenProviders Map.empty (cca_UserAuthSettings cfg))"

section \<open>A request\<close>

fun extractToken :: "http_request \<Rightarrow> TokenProvider list \<Rightarrow> string res" where
  "extractToken r [] = Err ErrEmptyUserToken"
| "extractToken r (provider # ps) =
     (case ExtractToken provider r of
        Panic \<Rightarrow> Panic
      | Err e \<Rightarrow>
          Err (WithMessage ErrInvalidUserToken (''extract token by '' @ quoted (GetName provider) @ '' error: '' @ Error e))
      | Ok token \<Rightarrow> if token \<noteq> [] then Ok token else extractToken r ps)"

definition convertUserAuthData :: "bool \<Rightarrow> entity_UserAuthData \<Rightarrow> UserAuthData" where
  "convertUserAuthData skipAppAuth a =
     \<lparr>ud_SkipAppAuth = skipAppAuth, ud_Identity = eu_Identity a, ud_IdentityHeader = eu_IdentityHeader a,
      ud_ExtraHeaders = eu_ExtraHeaders a\<rparr>"

definition convertAuthResponse :: "entity_UserAuthenticateResponse \<Rightarrow> bool \<Rightarrow> AuthenticateUserResponse" where
  "convertAuthResponse resp skipAppAuth =
     \<lparr>ur_Authenticated = eur_Authenticated resp, ur_SkipUserAuth = False,
      ur_ErrorReason = eur_ErrorReason resp,
      ur_AuthData = map_option (convertUserAuthData skipAppAuth) (eur_AuthData resp)\<rparr>"

definition authenticate_user ::
  "(string \<times> string \<Rightarrow> 's \<Rightarrow> entity_UserAuthData res \<times> 's) \<Rightarrow>
   (duration \<Rightarrow> string \<times> string \<Rightarrow> entity_UserAuthData \<Rightarrow> 's \<Rightarrow> unit res \<times> 's) \<Rightarrow>
   (string \<Rightarrow> string \<Rightarrow> 's \<Rightarrow> entity_UserAuthenticateResponse res \<times> 's) \<Rightarrow>
   userAuthSetting \<Rightarrow> string \<Rightarrow> 's \<Rightarrow> AuthenticateUserResponse res \<times> 's" where
  "authenticate_user cache_Get cache_Set repo_Authenticate setting token s =
     (if sint (us_authCacheDuration setting) \<le> 0 then
        (case repo_Authenticate (us_authEndpoint setting) token s of
           (Panic, s1) \<Rightarrow> (Panic, s1)
         | (Err e, s1) \<Rightarrow> (Err (WithMessage e ''auth repo authenticate''), s1)
         | (Ok resp, s1) \<Rightarrow> (Ok (convertAuthResponse resp (us_skipAppAuth setting)), s1))
      else
        (case cache_Get (us_authEndpoint setting, token) s of
           (Panic, s1) \<Rightarrow> (Panic, s1)
         | (Err e, s1) \<Rightarrow>
             (if errors_Is e ErrAuthenticationCacheMiss then
                (case repo_Authenticate (us_authEndpoint setting) token s1 of
                   (Panic, s2) \<Rightarrow> (Panic, s2)
                 | (Err e, s2) \<Rightarrow> (Err (WithMessage e ''auth repo authenticate''), s2)
                 | (Ok resp, s2) \<Rightarrow>
                     (if \<not> eur_Authenticated resp then (Ok (convertAuthResponse resp (us_skipAppAuth setting)), s2)
                      else (case eur_AuthData resp of
                              None \<Rightarrow> (Panic, s2)
                            | Some data \<Rightarrow>
                                (case cache_Set (us_authCacheDuration setting) (us_authEndpoint setting, token) data s2 of
                                   (Panic, s3) \<Rightarrow> (Panic, s3)
                                 | (Err e, s3) \<Rightarrow> (Err (WithMessage e ''auth cache set''), s3)
                                 | (Ok u, s3) \<Rightarrow> (Ok (convertAuthResponse resp (us_skipAppAuth setting)), s3)))))
              else (Err (WithMessage e ''auth cache get''), s1))
         | (Ok authData, s1) \<Rightarrow>
             (Ok \<lparr>ur_Authenticated = True, ur_SkipUserAuth = False, ur_ErrorReason = [],
                  ur_AuthData = Some (convertUserAuthData (us_skipAppAuth setting) authData)\<rparr>, s1)))"

definition UserAuthentication_Authenticate ::
  "(string \<times> string \<Rightarrow> 's \<Rightarrow> entity_UserAuthData res \<times> 's) \<Rightarrow>
   (duration \<Rightarrow> string \<times> string \<Rightarrow> entity_UserAuthData \<Rightarrow> 's \<Rightarrow> unit res \<times> 's) \<Rightarrow>
   (string \<Rightarrow> string \<Rightarrow> 's \<Rightarrow> entity_UserAuthenticateResponse res \<times> 's) \<Rightarrow>
   (string \<rightharpoonup> userAuthSetting) \<Rightarrow> Context \<Rightarrow> 's \<Rightarrow> AuthenticateUserResponse res \<times> 's" where
  "UserAuthentication_Authenticate cache_Get cache_Set repo_Authenticate settingsByModuleName c s =
     (let meta = rc_endpointMeta c in
      if \<not> me_UserAuthRequired meta then
        (Ok \<lparr>ur_Authenticated = False, ur_SkipUserAuth = True, ur_ErrorReason = [], ur_AuthData = None\<rparr>, s)
      else
        (case settingsByModuleName (me_ModuleName meta) of
           None \<Rightarrow>
             (Err (WithMessage ErrUserAuthSettingNotFound
                     (''setting for module '' @ quoted (me_ModuleName meta) @ '' and endpoint '' @ quoted (me_Endpoint meta) @
                      '' not found'')), s)
         | Some setting \<Rightarrow>
             (case extractToken (rc_request c) (us_tokenProviders setting) of
                Panic \<Rightarrow> (Panic, s)
              | Err e \<Rightarrow> (Err (WithMessage e ''extract user token''), s)
              | Ok token \<Rightarrow>
                  (case authenticate_user cache_Get cache_Set repo_Authenticate setting token s of
                     (r, s1) \<Rightarrow> (with_message ''auth'' r, s1)))))"

section \<open>The constructor accepts exactly the valid configurations\<close>

definition provider_ok :: "conf_TokenProvider \<Rightarrow> bool" where
  "provider_ok cfg \<longleftrightarrow>
     (ctp_Type cfg = HeaderTokenProviderType \<and> ctp_HeaderProvider cfg \<noteq> None) \<or>
     (ctp_Type cfg = CookieTokenProviderType \<and> ctp_CookieProvider cfg \<noteq> None)"

definition valid_custom_auth :: "conf_CustomAuth \<Rightarrow> bool" where
  "valid_custom_auth cfg \<longleftrightarrow>
     distinct (map ctp_Name (cca_TokenProviders cfg)) \<and>
     list_all provider_ok (cca_TokenProviders cfg) \<and>
     list_all (\<lambda>setting. set (cus_TokenProviders setting) \<subseteq> set (map ctp_Name (cca_TokenProviders cfg)))
       (cca_UserAuthSettings cfg) \<and>
     distinct (concat (map cus_ModuleNameList (cca_UserAuthSettings cfg)))"

lemma tokenProviderFromConfig_Ok: "(\<exists>p. tokenProviderFromConfig cfg = Ok p) \<longleftrightarrow> provider_ok cfg"
  by (auto simp: tokenProviderFromConfig_def provider_ok_def HeaderTokenProviderType_def
      CookieTokenProviderType_def split: option.splits)

lemma tokenProviderFromConfig_not_Panic [simp]: "tokenProviderFromConfig cfg \<noteq> Panic"
  by (auto simp: tokenProviderFromConfig_def split: option.splits)

lemma read_providers_Ok_iff:
  "(\<exists>m'. read_providers i m ps = Ok m') \<longleftrightarrow>
     distinct (map ctp_Name ps) \<and> set (map ctp_Name ps) \<inter> dom m = {} \<and> list_all provider_ok ps"
proof (induction ps arbitrary: i m)
  case (Cons provider ps)
  show ?case
  proof (cases "tokenProviderFromConfig provider")
    case (Ok tp)
    then have "provider_ok provider" using tokenProviderFromConfig_Ok by blast
    with Ok Cons.IH [of "i + 1" "m(ctp_Name provider \<mapsto> tp)"] show ?thesis
      by (cases "m (ctp_Name provider)") (auto simp del: fun_upd_apply)
  next
    case (Err e)
    then have "\<not> provider_ok provider" using tokenProviderFromConfig_Ok [of provider] by auto
    with Err show ?thesis by auto
  qed simp
qed simp

lemma read_providers_dom:
  "read_providers i m ps = Ok m' \<Longrightarrow> dom m' = dom m \<union> set (map ctp_Name ps)"
  by (induction ps arbitrary: i m) (auto split: res.splits if_splits)

lemma read_providers_not_Panic [simp]: "read_providers i m ps \<noteq> Panic"
  by (induction ps arbitrary: i m) (auto split: res.splits)

lemma setting_providers_eq:
  "setting_providers m ms acc names =
     (if set names \<subseteq> dom m then Ok (acc @ map (the \<circ> m) names) else setting_providers m ms acc names)"
  by (induction names arbitrary: acc) (auto split: option.splits)

lemma setting_providers_Ok_iff:
  "setting_providers m ms acc names = Ok tps \<longleftrightarrow> set names \<subseteq> dom m \<and> tps = acc @ map (the \<circ> m) names"
  by (induction names arbitrary: acc) (auto split: option.splits)

lemma setting_providers_not_Panic [simp]: "setting_providers m ms acc names \<noteq> Panic"
  by (induction names arbitrary: acc) (auto split: option.splits)

lemma add_modules_Ok_iff:
  "add_modules st m names = Ok m' \<longleftrightarrow>
     distinct names \<and> set names \<inter> dom m = {} \<and> m' = (\<lambda>k. if k \<in> set names then Some st else m k)"
  by (induction names arbitrary: m) (auto simp: fun_eq_iff dom_def)

lemma add_modules_not_Panic [simp]: "add_modules st m names \<noteq> Panic"
  by (induction names arbitrary: m) auto

text \<open>The setting a module gets: that of the entry which lists the module.\<close>

fun setting_of ::
  "(string \<rightharpoonup> TokenProvider) \<Rightarrow> conf_UserAuthSetting list \<Rightarrow> string \<Rightarrow> userAuthSetting option" where
  "setting_of tps [] k = None"
| "setting_of tps (setting # rest) k =
     (if k \<in> set (cus_ModuleNameList setting)
      then Some (build_setting (map (the \<circ> tps) (cus_TokenProviders setting)) setting)
      else setting_of tps rest k)"

lemma setting_of_None_iff:
  "setting_of tps settings k = None \<longleftrightarrow> k \<notin> set (concat (map cus_ModuleNameList settings))"
  by (induction settings) auto

lemma read_settings_Ok_iff:
  "read_settings tps m settings = Ok m' \<longleftrightarrow>
     list_all (\<lambda>setting. set (cus_TokenProviders setting) \<subseteq> dom tps) settings \<and>
     distinct (concat (map cus_ModuleNameList settings)) \<and>
     set (concat (map cus_ModuleNameList settings)) \<inter> dom m = {} \<and>
     m' = m ++ setting_of tps settings"
proof (induction settings arbitrary: m)
  case (Cons setting rest)
  let ?names = "cus_ModuleNameList setting"
  let ?st = "build_setting (map (the \<circ> tps) (cus_TokenProviders setting)) setting"
  let ?m1 = "\<lambda>k. if k \<in> set ?names then Some ?st else m k"
  show ?case
  proof (cases "set (cus_TokenProviders setting) \<subseteq> dom tps \<and> distinct ?names \<and> set ?names \<inter> dom m = {}")
    case True
    then have sp: "setting_providers tps ?names [] (cus_TokenProviders setting) = Ok (map (the \<circ> tps) (cus_TokenProviders setting))"
      and am: "add_modules ?st m ?names = Ok ?m1"
      by (simp_all add: setting_providers_Ok_iff add_modules_Ok_iff)
    let ?more = "concat (map cus_ModuleNameList rest)"
    have d1: "set ?more \<inter> dom ?m1 = {} \<longleftrightarrow> set ?names \<inter> set ?more = {} \<and> set ?more \<inter> dom m = {}"
      by (auto simp: dom_def)
    have eq: "?m1 ++ setting_of tps rest = m ++ setting_of tps (setting # rest)"
      if disj: "set ?names \<inter> set ?more = {}"
    proof
      fix k
      have "k \<in> set ?names \<Longrightarrow> setting_of tps rest k = None"
        using disj unfolding setting_of_None_iff by blast
      then show "(?m1 ++ setting_of tps rest) k = (m ++ setting_of tps (setting # rest)) k"
        by (simp add: map_add_def)
    qed
    have "read_settings tps m (setting # rest) = Ok m' \<longleftrightarrow> read_settings tps ?m1 rest = Ok m'"
      by (simp only: read_settings.simps sp am res.case)
    also have "\<dots> \<longleftrightarrow> list_all (\<lambda>setting. set (cus_TokenProviders setting) \<subseteq> dom tps) rest \<and>
       distinct ?more \<and> (set ?names \<inter> set ?more = {} \<and> set ?more \<inter> dom m = {}) \<and>
       m' = m ++ setting_of tps (setting # rest)"
      unfolding Cons.IH d1 using eq by metis
    finally show ?thesis using True by (simp only: list.pred_inject list.map concat.simps distinct_append set_append) blast
  next
    case False
    then show ?thesis
      by (auto simp: setting_providers_Ok_iff add_modules_Ok_iff split: res.splits)
  qed
qed (auto simp: fun_eq_iff map_add_def)

text \<open>The provider a name stands for in the configuration.\<close>

definition provider_named :: "conf_CustomAuth \<Rightarrow> string \<Rightarrow> TokenProvider option" where
  "provider_named cfg n =
     (case find (\<lambda>p. ctp_Name p = n) (cca_TokenProviders cfg) of
        None \<Rightarrow> None
      | Some p \<Rightarrow> (case tokenProviderFromConfig p of Ok tp \<Rightarrow> Some tp | _ \<Rightarrow> None))"

lemma read_providers_lookup:
  "read_providers i m ps = Ok m' \<Longrightarrow>
     m' n = (case find (\<lambda>p. ctp_Name p = n) ps of
               None \<Rightarrow> m n
             | Some p \<Rightarrow> (case tokenProviderFromConfig p of Ok tp \<Rightarrow> Some tp | _ \<Rightarrow> None))"
proof (induction ps arbitrary: i m)
  case (Cons p ps)
  obtain tp where tp: "tokenProviderFromConfig p = Ok tp" "m (ctp_Name p) = None"
    "read_providers (i + 1) (m(ctp_Name p \<mapsto> tp)) ps = Ok m'"
    using Cons.prems by (auto split: res.splits if_splits)
  then have "ctp_Name p \<notin> ctp_Name ` set ps"
    using read_providers_Ok_iff [of "i + 1" "m(ctp_Name p \<mapsto> tp)" ps] by auto
  then have "find (\<lambda>q. ctp_Name q = ctp_Name p) ps = None"
    by (metis (mono_tags, lifting) find_None_iff imageI)
  then show ?case using Cons.IH [OF tp(3)] tp(1)
    by (cases "n = ctp_Name p") (auto split: option.splits)
qed simp

lemma read_settings_not_Panic: "read_settings tps m settings \<noteq> Panic"
  by (induction settings arbitrary: m) (auto split: res.splits)

lemma NewUserAuthentication_eq:
  "if valid_custom_auth cfg
   then NewUserAuthentication cfg = Ok (setting_of (provider_named cfg) (cca_UserAuthSettings cfg))
   else (\<exists>e. NewUserAuthentication cfg = Err e)"
proof (cases "read_providers 0 Map.empty (cca_TokenProviders cfg)")
  case (Ok tps)
  have tps: "tps = provider_named cfg"
    using read_providers_lookup [OF Ok] by (auto simp: provider_named_def fun_eq_iff split: option.splits)
  have "dom tps = set (map ctp_Name (cca_TokenProviders cfg))"
    using Ok by (simp add: read_providers_dom)
  moreover have "distinct (map ctp_Name (cca_TokenProviders cfg)) \<and> list_all provider_ok (cca_TokenProviders cfg)"
    using Ok read_providers_Ok_iff [of 0 Map.empty "cca_TokenProviders cfg"] by auto
  ultimately have "valid_custom_auth cfg \<longleftrightarrow>
      read_settings tps Map.empty (cca_UserAuthSettings cfg) = Ok (setting_of tps (cca_UserAuthSettings cfg))"
    by (simp add: read_settings_Ok_iff valid_custom_auth_def)
  moreover have "read_settings tps Map.empty (cca_UserAuthSettings cfg) = Ok m \<Longrightarrow>
      m = setting_of tps (cca_UserAuthSettings cfg)" for m
    by (simp add: read_settings_Ok_iff)
  ultimately show ?thesis
    by (cases "read_settings tps Map.empty (cca_UserAuthSettings cfg)")
       (auto simp: NewUserAuthentication_def Ok tps read_settings_not_Panic)
next
  case (Err e)
  then have "\<not> (distinct (map ctp_Name (cca_TokenProviders cfg)) \<and> list_all provider_ok (cca_TokenProviders cfg))"
    using read_providers_Ok_iff [of 0 Map.empty "cca_TokenProviders cfg"] by auto
  then show ?thesis by (auto simp: NewUserAuthentication_def Err valid_custom_auth_def)
qed simp

section \<open>Extraction never fails\<close>

text \<open>The token a provider finds in a request; empty when there is none.\<close>

fun token_of :: "http_request \<Rightarrow> TokenProvider \<Rightarrow> string" where
  "token_of r (HeaderProvider name headerName) = trim_space (Header_Get (rq_Header r) headerName)"
| "token_of r (CookieProvider name cookieName validate) =
     (case Request_Cookie r cookieName of None \<Rightarrow> [] | Some c \<Rightarrow> trim_space (ck_Value c))"

lemma ExtractToken_eq: "ExtractToken p r = Ok (token_of r p)"
  by (cases p) (auto simp: cookie_result_def Request_Cookie_valid split: option.splits)

lemma extractToken_eq:
  "extractToken r ps =
     (case find (\<lambda>t. t \<noteq> []) (map (token_of r) ps) of
        Some t \<Rightarrow> Ok t
      | None \<Rightarrow> Err ErrEmptyUserToken)"
  by (induction ps) (simp_all add: ExtractToken_eq)

section \<open>Who is let through\<close>

locale user_authentication_service =
  decoding_cache get "put dur" holds same codes
  for get :: "string \<times> string \<Rightarrow> 's \<Rightarrow> entity_UserAuthData res \<times> 's"
    and put :: "duration \<Rightarrow> string \<times> string \<Rightarrow> entity_UserAuthData \<Rightarrow> 's \<Rightarrow> unit res \<times> 's"
    and dur :: duration
    and holds :: "'s \<Rightarrow> string \<times> string \<Rightarrow> entity_UserAuthData \<Rightarrow> bool"
    and same :: "string \<times> string \<Rightarrow> string \<times> string \<Rightarrow> bool"
    and codes :: "entity_UserAuthData \<Rightarrow> entity_UserAuthData \<Rightarrow> bool" +
  fixes repo :: "string \<Rightarrow> string \<Rightarrow> 's \<Rightarrow> entity_UserAuthenticateResponse res \<times> 's"
  assumes repo_keeps: "holds (snd (repo m t s)) k' d' = holds s k' d'"
begin

lemma user_origin:
  assumes "fst (authenticate_user get put repo st t s) = Ok resp" "ur_Authenticated resp"
    "us_authCacheDuration st = dur"
  shows "(\<exists>d. ur_AuthData resp = Some (convertUserAuthData (us_skipAppAuth st) d) \<and> 0 < sint dur \<and>
           holds s (us_authEndpoint st, t) d) \<or>
    (\<exists>r s0. fst (repo (us_authEndpoint st) t s0) = Ok r \<and> eur_Authenticated r \<and>
       resp = convertAuthResponse r (us_skipAppAuth st))"
  using assms(1,2) unfolding authenticate_user_def assms(3)
  by (auto simp: split_beta not_le convertAuthResponse_def dest: get_holds
      split: res.splits if_splits option.splits)

lemma user_content_origin:
  assumes "holds (snd (authenticate_user get put repo st t s)) k' d'" "us_authCacheDuration st = dur"
  shows "holds s k' d' \<or>
    (same (us_authEndpoint st, t) k' \<and> 0 < sint dur \<and>
     (\<exists>r d s0. fst (repo (us_authEndpoint st) t s0) = Ok r \<and> eur_Authenticated r \<and>
        eur_AuthData r = Some d \<and> codes d d'))"
  using assms(1) unfolding authenticate_user_def assms(2)
  by (auto simp: split_beta repo_keeps get_adds_nothing not_le
      split: res.splits if_splits option.splits dest!: put_adds; blast)

end

lemma UserAuth_Authenticate_snd:
  "\<exists>w. snd (UserAuth_Authenticate x m t s) = s\<lparr>g_world := w\<rparr>"
  by (auto simp: UserAuth_Authenticate_def in_world_def split_beta Let_def split: sum.splits)

interpretation user_auth: user_authentication_service
  "UserAuthenticationCache_Get x" "UserAuthenticationCache_Set x" d "user_holds x" same_user_key
  "user_codes x" "UserAuth_Authenticate x" for x d
proof (unfold_locales, goal_cases)
  case (1 m t s k d)
  then show ?case using UserAuth_Authenticate_snd [of x m t s] by (auto simp: user_holds_def)
qed

section \<open>Properties\<close>

text \<open>
  C12. The constructor accepts exactly the valid configurations (provider names unique and each
  with the section its type needs, every provider a setting names known, every module in one
  setting only), and then the setting of a module is built from the entry that lists it, with its
  providers in the configured order and its cache time in seconds; every other configuration is
  an error and no panic.
\<close>

theorem NewUserAuthentication_spec:
  "if valid_custom_auth cfg
   then NewUserAuthentication cfg = Ok (setting_of (provider_named cfg) (cca_UserAuthSettings cfg))
   else (\<exists>e. NewUserAuthentication cfg = Err e)"
  by (rule NewUserAuthentication_eq)

text \<open>
  C34. The token of a user is the first one, in the order of the providers, that is not empty; when
  every provider comes back empty the error is \<open>ErrEmptyUserToken\<close>. No provider ever fails: a cookie
  that the request yields is always valid, so the \<open>validate\<close> flag of a cookie provider changes
  nothing and the invalid-token error cannot come from extraction.
\<close>

theorem extractToken_first:
  "extractToken r ps =
     (case find (\<lambda>t. t \<noteq> []) (map (token_of r) ps) of
        Some t \<Rightarrow> Ok t
      | None \<Rightarrow> Err ErrEmptyUserToken)
   \<and> ExtractToken (CookieProvider n c True) r = ExtractToken (CookieProvider n c False) r"
  by (simp only: extractToken_eq ExtractToken_eq token_of.simps)

end
