(* ===== verification/Rate_Limits.thy ===== *)
theory Rate_Limits
  imports Gate_Repository Sample_World
begin

text \<open>
  \<open>service/throttling.go\<close> and \<open>service/daily_limit.go\<close>: the limits of an application per second and
  per day. Both look the application up in the configuration and leave the counting to the lock
  module.
\<close>

section \<open>Throttling\<close>

definition NewThrottling :: "conf_Throttling list \<Rightarrow> (go_int \<rightharpoonup> go_int)" where
  "NewThrottling configs =
     fold (\<lambda>config limits. limits(ct_ApplicationId config \<mapsto> ct_RequestsPerSeconds config)) configs Map.empty"

definition Throttling_key :: "go_int \<Rightarrow> string" where
  "Throttling_key applicationId = ''isp-gate-service::rate-limit::'' @ fmt_d applicationId"

definition AllowRateLimit ::
  "(string \<Rightarrow> go_int \<Rightarrow> 's \<Rightarrow> entity_RateLimiterResponse res \<times> 's) \<Rightarrow>
   (go_int \<rightharpoonup> go_int) \<Rightarrow> go_int \<Rightarrow> 's \<Rightarrow> RateLimitResult res \<times> 's" where
  "AllowRateLimit repo_IsAllow limits applicationId s =
     (case limits applicationId of
        None \<Rightarrow> (Ok \<lparr>rl_Allow = True, rl_Remaining = - 1, rl_RetryAfter = - 1\<rparr>, s)
      | Some rate \<Rightarrow>
          (case repo_IsAllow (Throttling_key applicationId) rate s of
             (Panic, s1) \<Rightarrow> (Panic, s1)
           | (Err e, s1) \<Rightarrow> (Err (WithMessage e ''is allow request per second''), s1)
           | (Ok r, s1) \<Rightarrow>
               (Ok \<lparr>rl_Allow = el_Allow r, rl_Remaining = el_Remaining r, rl_RetryAfter = el_RetryAfter r\<rparr>, s1)))"

section \<open>Daily limits\<close>

definition NewDailyLimit :: "conf_DailyLimit list \<Rightarrow> (go_int \<rightharpoonup> go_int64)" where
  "NewDailyLimit configs =
     fold (\<lambda>config limits. limits(cd_ApplicationId config \<mapsto> cd_RequestsPerDay config)) configs Map.empty"

definition DailyLimit_key :: "go_int \<Rightarrow> go_int \<times> go_int \<times> go_int \<Rightarrow> string" where
  "DailyLimit_key applicationId today =
     (case today of (y, m, d) \<Rightarrow>
        ''isp-gate-service::daily-limit::'' @ fmt_d applicationId @ '':'' @
        fmt_d y @ ''-'' @ fmt_d m @ ''-'' @ fmt_d d)"

text \<open>The clock is read twice: for the key and for the request.\<close>

definition IncrementAndCheck ::
  "('s \<Rightarrow> time \<times> 's) \<Rightarrow> (time \<Rightarrow> go_int \<times> go_int \<times> go_int) \<Rightarrow>
   (string \<Rightarrow> time \<Rightarrow> 's \<Rightarrow> go_int64 res \<times> 's) \<Rightarrow>
   (go_int \<rightharpoonup> go_int64) \<Rightarrow> go_int \<Rightarrow> 's \<Rightarrow> bool res \<times> 's" where
  "IncrementAndCheck Now Date repo_Increment limits applicationId s =
     (case limits applicationId of
        None \<Rightarrow> (Ok True, s)
      | Some limit \<Rightarrow>
          (case Now s of (t1, s1) \<Rightarrow>
           case Now s1 of (t2, s2) \<Rightarrow>
             (case repo_Increment (DailyLimit_key applicationId (Date t1)) t2 s2 of
                (Panic, s3) \<Rightarrow> (Panic, s3)
              | (Err e, s3) \<Rightarrow> (Err (WithMessage e ''increment''), s3)
              | (Ok newValue, s3) \<Rightarrow> (Ok (newValue <=s limit), s3))))"

section \<open>Limits and keys\<close>

lemma NewThrottling_find:
  "NewThrottling configs a =
     map_option ct_RequestsPerSeconds (find (\<lambda>c. ct_ApplicationId c = a) (rev configs))"
  by (simp add: NewThrottling_def fold_map_upd split: option.splits)

lemma NewDailyLimit_find:
  "NewDailyLimit configs a =
     map_option cd_RequestsPerDay (find (\<lambda>c. cd_ApplicationId c = a) (rev configs))"
  by (simp add: NewDailyLimit_def fold_map_upd split: option.splits)

lemma fmt_d_nonneg: "0 \<le> sint w \<Longrightarrow> CHR ''-'' \<notin> set (fmt_d w)"
  by (auto simp: fmt_d_def int_text_def dest: nat_text_digits)

text \<open>A date as \<open>time.Date\<close> returns it: the month and the day are positive.\<close>

definition is_date :: "go_int \<times> go_int \<times> go_int \<Rightarrow> bool" where
  "is_date = (\<lambda>(y, m, d). 0 < sint m \<and> 0 < sint d)"

lemma date_text_inject:
  assumes "is_date (y, m, d)" "is_date (y', m', d')"
  shows "fmt_d y @ ''-'' @ fmt_d m @ ''-'' @ fmt_d d = fmt_d y' @ ''-'' @ fmt_d m' @ ''-'' @ fmt_d d'
    \<longleftrightarrow> (y, m, d) = (y', m', d')"
proof
  assume "fmt_d y @ ''-'' @ fmt_d m @ ''-'' @ fmt_d d = fmt_d y' @ ''-'' @ fmt_d m' @ ''-'' @ fmt_d d'"
  then have "rev (fmt_d y @ ''-'' @ fmt_d m @ ''-'' @ fmt_d d) =
      rev (fmt_d y' @ ''-'' @ fmt_d m' @ ''-'' @ fmt_d d')" by (simp only:)
  then have "rev (fmt_d d) @ CHR ''-'' # rev (fmt_d m) @ CHR ''-'' # rev (fmt_d y) =
      rev (fmt_d d') @ CHR ''-'' # rev (fmt_d m') @ CHR ''-'' # rev (fmt_d y')" by simp
  moreover have "CHR ''-'' \<notin> set (rev (fmt_d d))" "CHR ''-'' \<notin> set (rev (fmt_d m))"
    "CHR ''-'' \<notin> set (rev (fmt_d d'))" "CHR ''-'' \<notin> set (rev (fmt_d m'))"
    using assms by (auto simp: is_date_def fmt_d_nonneg)
  ultimately show "(y, m, d) = (y', m', d')"
    by (auto simp: separated_inject)
qed simp

lemma DailyLimit_key_inject:
  assumes "is_date t" "is_date t'"
  shows "DailyLimit_key a t = DailyLimit_key a' t' \<longleftrightarrow> a = a' \<and> t = t'"
proof -
  obtain y m d y' m' d' where t: "t = (y, m, d)" "t' = (y', m', d')" by (metis prod.exhaust)
  have "DailyLimit_key a t = DailyLimit_key a' t' \<longleftrightarrow>
      fmt_d a @ CHR '':'' # (fmt_d y @ ''-'' @ fmt_d m @ ''-'' @ fmt_d d) =
      fmt_d a' @ CHR '':'' # (fmt_d y' @ ''-'' @ fmt_d m' @ ''-'' @ fmt_d d')"
    by (simp add: DailyLimit_key_def t)
  also have "\<dots> \<longleftrightarrow> a = a' \<and> t = t'"
    using assms by (simp only: separated_inject fmt_d_no_colon not_False_eq_True fmt_d_inject date_text_inject t)
  finally show ?thesis .
qed

section \<open>A day of requests\<close>

text \<open>
  The requests of applications \<open>apps\<close>, one after the other: for each the application, the key that
  was counted and the decision.
\<close>

abbreviation daily_check :: "'w ext \<Rightarrow> (go_int \<rightharpoonup> go_int64) \<Rightarrow> go_int \<Rightarrow> 'w gate \<Rightarrow> bool res \<times> 'w gate" where
  "daily_check x \<equiv> IncrementAndCheck (now x) (x_date x) (Locker_Increment x)"

definition counted_key :: "'w ext \<Rightarrow> go_int \<Rightarrow> 'w gate \<Rightarrow> string" where
  "counted_key x a s = DailyLimit_key a (x_date x (fst (x_Now x (g_world s))))"

fun daily_run ::
  "'w ext \<Rightarrow> (go_int \<rightharpoonup> go_int64) \<Rightarrow> go_int list \<Rightarrow> 'w gate \<Rightarrow> (go_int \<times> string \<times> bool res) list \<times> 'w gate" where
  "daily_run x limits [] s = ([], s)"
| "daily_run x limits (a # as) s =
     (case daily_check x limits a s of
        (r, s1) \<Rightarrow>
          (case daily_run x limits as s1 of (rs, s2) \<Rightarrow> ((a, counted_key x a s, r) # rs, s2)))"

text \<open>
  The lock module counts: an answered increment is the number of increments of that key so far, as
  an unsigned 64-bit number; a failed call may have been counted or not. Reading the clock counts
  nothing.
\<close>

definition counting_lock :: "'w ext \<Rightarrow> ('w \<Rightarrow> string \<Rightarrow> nat) \<Rightarrow> bool" where
  "counting_lock x cnt \<longleftrightarrow>
     (\<forall>w. cnt (snd (x_Now x w)) = cnt w) \<and>
     (\<forall>q w. case x_locker_increment x ''isp-lock-service/daily_limit/increment'' q w of
        (Inr r, w') \<Rightarrow>
          cnt w' = (cnt w)(ei_Key q := Suc (cnt w (ei_Key q))) \<and> ei_Value r = of_nat (cnt w' (ei_Key q))
      | (Inl e, w') \<Rightarrow> cnt w' = cnt w \<or> cnt w' = (cnt w)(ei_Key q := Suc (cnt w (ei_Key q))))"

lemma counting_lockD:
  assumes "counting_lock x cnt"
    and c: "x_locker_increment x ''isp-lock-service/daily_limit/increment'' q w = (out, w')"
  shows "case out of
      Inr v \<Rightarrow> cnt w' = (cnt w)(ei_Key q := Suc (cnt w (ei_Key q))) \<and> ei_Value v = of_nat (cnt w' (ei_Key q))
    | Inl e \<Rightarrow> cnt w' = cnt w \<or> cnt w' = (cnt w)(ei_Key q := Suc (cnt w (ei_Key q)))"
proof -
  have "\<forall>q w. case x_locker_increment x ''isp-lock-service/daily_limit/increment'' q w of
        (Inr r, w') \<Rightarrow>
          cnt w' = (cnt w)(ei_Key q := Suc (cnt w (ei_Key q))) \<and> ei_Value r = of_nat (cnt w' (ei_Key q))
      | (Inl e, w') \<Rightarrow> cnt w' = cnt w \<or> cnt w' = (cnt w)(ei_Key q := Suc (cnt w (ei_Key q)))"
    using assms(1) unfolding counting_lock_def by (rule conjunct2)
  then have "case x_locker_increment x ''isp-lock-service/daily_limit/increment'' q w of
        (Inr r, w') \<Rightarrow>
          cnt w' = (cnt w)(ei_Key q := Suc (cnt w (ei_Key q))) \<and> ei_Value r = of_nat (cnt w' (ei_Key q))
      | (Inl e, w') \<Rightarrow> cnt w' = cnt w \<or> cnt w' = (cnt w)(ei_Key q := Suc (cnt w (ei_Key q)))"
    by - (drule spec [where x = q], drule spec [where x = w])
  then show ?thesis by (simp only: c prod.case)
qed

definition passed :: "go_int \<Rightarrow> string \<Rightarrow> (go_int \<times> string \<times> bool res) list \<Rightarrow> nat" where
  "passed a k rs = length (filter (\<lambda>r. r = (a, k, Ok True)) rs)"

lemma sint_of_nat_small: "n < 2 ^ 63 \<Longrightarrow> sint (of_nat n :: 64 word) = int n"
proof -
  assume "n < 2 ^ 63"
  then have "signed_take_bit 63 (int n) = int n" by (intro signed_take_bit_int_eq_self) auto
  then show ?thesis by (simp add: signed_of_nat)
qed

text \<open>One check: what it leaves of the counters, and what it decides.\<close>

lemma daily_check_step:
  assumes "counting_lock x cnt" "daily_check x limits a s = (r, s1)"
  shows "limits a = None \<Longrightarrow> r = Ok True \<and> cnt (g_world s1) = cnt (g_world s)"
    and "limits a = Some L \<Longrightarrow> r = Ok b \<Longrightarrow>
      cnt (g_world s1) = (cnt (g_world s))(counted_key x a s := Suc (cnt (g_world s) (counted_key x a s))) \<and>
      b = (of_nat (cnt (g_world s1) (counted_key x a s)) <=s L)"
    and "cnt (g_world s1) = cnt (g_world s) \<or>
      cnt (g_world s1) = (cnt (g_world s))(counted_key x a s := Suc (cnt (g_world s) (counted_key x a s)))"
    and "r \<noteq> Panic"
proof -
  let ?w = "snd (x_Now x (snd (x_Now x (g_world s))))"
  let ?q = "\<lparr>ei_Key = counted_key x a s, ei_Today = fst (x_Now x (snd (x_Now x (g_world s))))\<rparr>"
  have now: "cnt ?w = cnt (g_world s)" using assms(1) by (simp add: counting_lock_def)
  obtain o' w' where c: "x_locker_increment x ''isp-lock-service/daily_limit/increment'' ?q ?w = (o', w')"
    by fastforce
  then have inc: "case o' of
        Inr v \<Rightarrow> cnt w' = (cnt ?w)(counted_key x a s := Suc (cnt ?w (counted_key x a s))) \<and>
          ei_Value v = of_nat (cnt w' (counted_key x a s))
      | Inl e \<Rightarrow> cnt w' = cnt ?w \<or> cnt w' = (cnt ?w)(counted_key x a s := Suc (cnt ?w (counted_key x a s)))"
    using counting_lockD [OF assms(1) c] by (simp split: sum.splits)
  note run = IncrementAndCheck_def Locker_Increment_def split_beta c [unfolded counted_key_def] counted_key_def
  show "limits a = None \<Longrightarrow> r = Ok True \<and> cnt (g_world s1) = cnt (g_world s)"
    using assms(2) by (simp add: IncrementAndCheck_def)
  show "limits a = Some L \<Longrightarrow> r = Ok b \<Longrightarrow>
      cnt (g_world s1) = (cnt (g_world s))(counted_key x a s := Suc (cnt (g_world s) (counted_key x a s))) \<and>
      b = (of_nat (cnt (g_world s1) (counted_key x a s)) <=s L)"
    using assms(2) inc now by (cases o') (auto simp: run)
  show "cnt (g_world s1) = cnt (g_world s) \<or>
      cnt (g_world s1) = (cnt (g_world s))(counted_key x a s := Suc (cnt (g_world s) (counted_key x a s)))"
    using assms(2) inc now by (cases "limits a"; cases o') (auto simp: run)
  show "r \<noteq> Panic"
    using assms(2) by (cases "limits a"; cases o') (auto simp: run)
qed

definition asked :: "go_int \<Rightarrow> string \<Rightarrow> (go_int \<times> string \<times> bool res) list \<Rightarrow> nat" where
  "asked a k rs = length (filter (\<lambda>(b, k', r). b = a \<and> k' = k) rs)"

definition all_answered :: "(go_int \<times> string \<times> bool res) list \<Rightarrow> bool" where
  "all_answered rs = list_all (\<lambda>(b, k', r). \<exists>v. r = Ok v) rs"

lemma passed_simps [simp]:
  "passed a k [] = 0"
  "passed a k ((b, k', r) # rs) = (if b = a \<and> k' = k \<and> r = Ok True then Suc (passed a k rs) else passed a k rs)"
  by (auto simp: passed_def)

lemma asked_simps [simp]:
  "asked a k [] = 0"
  "asked a k ((b, k', r) # rs) = (if b = a \<and> k' = k then Suc (asked a k rs) else asked a k rs)"
  by (auto simp: asked_def)

lemma all_answered_simps [simp]:
  "all_answered []"
  "all_answered ((b, k', r) # rs) \<longleftrightarrow> (\<exists>v. r = Ok v) \<and> all_answered rs"
  by (auto simp: all_answered_def)

lemma counter_within_limit:
  "Suc c < 2 ^ 63 \<Longrightarrow> (of_nat (Suc c) <=s (L :: go_int64)) = (Suc c \<le> nat (sint L))"
  by (simp only: word_sle_eq sint_of_nat_small) linarith

lemma daily_run_upper:
  assumes "counting_lock x cnt" "limits a = Some L"
  shows "daily_run x limits apps s = (rs, s') \<Longrightarrow> cnt (g_world s) k + length apps < 2 ^ 63 \<Longrightarrow>
    passed a k rs \<le> nat (sint L) - cnt (g_world s) k"
proof (induction apps arbitrary: s rs)
  case (Cons b apps)
  obtain r s1 where r: "daily_check x limits b s = (r, s1)" by fastforce
  obtain rs1 where run: "daily_run x limits apps s1 = (rs1, s')" and rs: "rs = (b, counted_key x b s, r) # rs1"
    using Cons.prems(1) r by (auto split: prod.splits)
  note step = daily_check_step [OF assms(1) r]
  have c1: "cnt (g_world s1) k = cnt (g_world s) k \<or> cnt (g_world s1) k = Suc (cnt (g_world s) k)"
    using step(3) by auto
  have IH: "passed a k rs1 \<le> nat (sint L) - cnt (g_world s1) k"
    using Cons.IH [OF run] c1 Cons.prems(2) by auto
  show ?case
  proof (cases "b = a \<and> counted_key x b s = k \<and> r = Ok True")
    case True
    then have "cnt (g_world s1) k = Suc (cnt (g_world s) k)" "Suc (cnt (g_world s) k) \<le> nat (sint L)"
      using step(2) [of L True] assms(2) Cons.prems(2) counter_within_limit [of "cnt (g_world s) k" L] by auto
    with IH True rs show ?thesis by auto
  qed (use IH rs c1 in auto)
qed simp

lemma daily_run_exact:
  assumes "counting_lock x cnt" "limits a = Some L"
    and dates: "\<And>t. is_date (x_date x t)" "is_date day" and k: "k = DailyLimit_key a day"
  shows "daily_run x limits apps s = (rs, s') \<Longrightarrow> cnt (g_world s) k + length apps < 2 ^ 63 \<Longrightarrow>
    all_answered rs \<Longrightarrow> passed a k rs = min (asked a k rs) (nat (sint L) - cnt (g_world s) k)"
proof (induction apps arbitrary: s rs)
  case (Cons b apps)
  obtain r s1 where r: "daily_check x limits b s = (r, s1)" by fastforce
  obtain rs1 where run: "daily_run x limits apps s1 = (rs1, s')" and rs: "rs = (b, counted_key x b s, r) # rs1"
    using Cons.prems(1) r by (auto split: prod.splits)
  note step = daily_check_step [OF assms(1) r]
  obtain v where v: "r = Ok v" and ans: "all_answered rs1" using Cons.prems(3) rs by auto
  have "cnt (g_world s1) k \<le> Suc (cnt (g_world s) k)" using step(3) by auto
  then have IH: "passed a k rs1 = min (asked a k rs1) (nat (sint L) - cnt (g_world s1) k)"
    using Cons.IH [OF run _ ans] Cons.prems(2) by simp
  show ?case
  proof (cases "b = a \<and> counted_key x b s = k")
    case True
    then have "cnt (g_world s1) k = Suc (cnt (g_world s) k)" "v = (Suc (cnt (g_world s) k) \<le> nat (sint L))"
      using step(2) [of L v] assms(2) v Cons.prems(2) counter_within_limit [of "cnt (g_world s) k" L] by auto
    then have "min (Suc n) (nat (sint L) - cnt (g_world s) k) =
        (if v then Suc (min n (nat (sint L) - cnt (g_world s1) k)) else min n (nat (sint L) - cnt (g_world s1) k))" for n
      by (simp add: min_def) linarith
    with IH True rs v show ?thesis by auto
  next
    case False
    have "cnt (g_world s1) k = cnt (g_world s) k"
    proof (cases "limits b")
      case (Some M)
      have "counted_key x b s \<noteq> k"
        using False by (auto simp: k counted_key_def DailyLimit_key_inject dates)
      then show ?thesis using step(2) [OF Some v] by simp
    qed (use step(1) in simp)
    with IH False rs show ?thesis by auto
  qed
qed simp

section \<open>Properties\<close>

text \<open>
  C13. The daily limit holds: with a lock module that counts, whatever requests of whatever
  applications arrive, at most \<open>L - c\<close> requests of an application with limit \<open>L\<close> pass on a day whose
  counter stood at \<open>c\<close>, and when no call of the lock module fails exactly that many pass (all of
  them, if fewer were asked): no request of another application or of another day counts against
  them.
\<close>

theorem daily_limit_enforced:
  assumes "counting_lock x cnt" "limits a = Some L"
    and "\<And>t. is_date (x_date x t)" "is_date day"
    and "daily_run x limits apps s = (rs, s')"
    and "cnt (g_world s) (DailyLimit_key a day) + length apps < 2 ^ 63"
  shows "passed a (DailyLimit_key a day) rs \<le> nat (sint L) - cnt (g_world s) (DailyLimit_key a day)
    \<and> (all_answered rs \<longrightarrow> passed a (DailyLimit_key a day) rs =
          min (asked a (DailyLimit_key a day) rs) (nat (sint L) - cnt (g_world s) (DailyLimit_key a day)))"
  using daily_run_upper [OF assms(1,2,5,6)] daily_run_exact [OF assms(1-4) refl assms(5,6)] by blast

text \<open>
  The decision reads the unsigned counter as a signed number: a counter of \<open>2 ^ 63\<close> or more
  is below every limit that is not negative, so the request passes; below \<open>2 ^ 63\<close> it passes
  exactly when the counter does not exceed the limit.
\<close>

lemma IncrementAndCheck_wrap:
  assumes "limits a = Some L" "0 \<le> sint L"
    and "x_locker_increment x ''isp-lock-service/daily_limit/increment''
           \<lparr>ei_Key = DailyLimit_key a (x_date x (fst (x_Now x (g_world s)))),
            ei_Today = fst (x_Now x (snd (x_Now x (g_world s))))\<rparr>
           (snd (x_Now x (snd (x_Now x (g_world s))))) = (Inr \<lparr>ei_Value = v\<rparr>, w')"
  shows "fst (daily_check x limits a s) = Ok (2 ^ 63 \<le> unat v \<or> unat v \<le> nat (sint L))"
proof -
  have "fst (daily_check x limits a s) = Ok (v <=s L)"
    by (simp add: IncrementAndCheck_def Locker_Increment_def split_beta assms(1,3))
  moreover have "v <=s L \<longleftrightarrow> 2 ^ 63 \<le> unat v \<or> unat v \<le> nat (sint L)"
  proof (cases "unat v < 2 ^ 63")
    case True
    then have "sint v = int (unat v)" using sint_of_nat_small [of "unat v"] by simp
    with True assms(2) show ?thesis unfolding word_sle_eq by linarith
  next
    case False
    have "sint v < 0"
    proof (rule ccontr)
      assume "\<not> sint v < 0"
      then have "uint v = sint v"
        using sint_lt [of v] by (simp add: uint_sint take_bit_int_eq_self)
      moreover have "sint v < 2 ^ 63" using sint_lt [of v] by simp
      ultimately show False using False by (simp add: unat_eq_nat_uint)
    qed
    with False assms(2) show ?thesis unfolding word_sle_eq by linarith
  qed
  ultimately show ?thesis by simp
qed

section \<open>Witnesses\<close>

text \<open>A lock module that counts in the world.\<close>

definition counting_ext :: "(string \<Rightarrow> nat) ext" where
  "counting_ext =
     idle\<lparr>x_locker_increment := \<lambda>e q w.
       (Inr \<lparr>ei_Value = of_nat (Suc (w (ei_Key q)))\<rparr>, w(ei_Key q := Suc (w (ei_Key q))))\<rparr>"

lemma counting_ext_counts: "counting_lock counting_ext (\<lambda>w. w)"
  by (simp add: counting_lock_def counting_ext_def idle_def)

theorem daily_limit_enforced_witness:
  "passed 7 (DailyLimit_key 7 (2025, 1, 1))
     (fst (daily_run counting_ext [7 \<mapsto> 2] [7, 8, 7, 7]
        (fresh_gate zero_EndpointMeta sample_request (\<lambda>k. 0)))) \<le> 2"
proof -
  let ?s = "fresh_gate zero_EndpointMeta sample_request (\<lambda>k. 0) :: (string \<Rightarrow> nat) gate"
  have "is_date (x_date counting_ext t)" "is_date (2025, 1, 1)" for t
    by (simp_all add: is_date_def counting_ext_def idle_def)
  then show ?thesis
    using daily_limit_enforced [OF counting_ext_counts, of "[7 \<mapsto> 2]" 7 2 "(2025, 1, 1)" "[7, 8, 7, 7]" ?s
        "fst (daily_run counting_ext [7 \<mapsto> 2] [7, 8, 7, 7] ?s)" "snd (daily_run counting_ext [7 \<mapsto> 2] [7, 8, 7, 7] ?s)"]
    by (simp del: daily_run.simps add: fresh_gate_def)
qed

lemma IncrementAndCheck_wrap_witness:
  "fst (daily_check (idle\<lparr>x_locker_increment := \<lambda>e q w. (Inr \<lparr>ei_Value = 9223372036854775808\<rparr>, w)\<rparr>)
     [7 \<mapsto> 2] 7 (fresh_gate zero_EndpointMeta sample_request ())) = Ok True"
  using IncrementAndCheck_wrap [of "[7 \<mapsto> 2]" 7 2
      "idle\<lparr>x_locker_increment := \<lambda>e q w. (Inr \<lparr>ei_Value = 9223372036854775808\<rparr>, w)\<rparr>"
      "fresh_gate zero_EndpointMeta sample_request ()" 9223372036854775808 "()"]
  by (simp add: idle_def fresh_gate_def)

end
