(* ===== verification/Gate_Middleware.thy ===== *)
theory Gate_Middleware
  imports User_Authentication Rate_Limits
begin

text \<open>
  \<open>middleware/*.go\<close> without the logger: a middleware turns the handler that comes next into the
  handler of the whole request. As in the code, each is written against the interface of the
  service it calls, an argument here. The second half is the contract the access middlewares share:
  each either hands the request on exactly once or answers by itself.
\<close>

type_synonym 'w middleware = "'w handler \<Rightarrow> 'w handler"

section \<open>Composition\<close>

text \<open>\<open>Chain\<close>: the loop wraps the root in the middlewares from the last to the first.\<close>

definition Chain :: "'w handler \<Rightarrow> 'w middleware list \<Rightarrow> 'w handler" where
  "Chain root middlewares = fold (\<lambda>m root. m root) (rev middlewares) root"

lemma Chain_simps [simp]:
  "Chain root [] = root"
  "Chain root (m # ms) = m (Chain root ms)"
  by (simp_all add: Chain_def)

section \<open>Request identifiers\<close>

definition RequestId :: "'w ext \<Rightarrow> 'w middleware" where
  "RequestId x nxt s =
     (case in_world (x_requestid_Next x) s of
        (requestId, s1) \<Rightarrow>
          (let ctx1 = x_requestid_ToContext x (Context_Context (g_ctx s1)) requestId;
               ctx2 = x_log_ToContext x ctx1 [LogString RequestIdLogKey requestId]
           in nxt (on_ctx (SetContext ctx2) s1)))"

definition ClientRequestId :: "'w ext \<Rightarrow> bool \<Rightarrow> (go_int \<Rightarrow> bool) \<Rightarrow> 'w middleware" where
  "ClientRequestId x forwardClientRequestId forwardReqIdByApp nxt s =
     (let ctx = Context_Context (g_ctx s);
          requestId = x_requestid_FromContext x ctx;
          clientRequestId = trim_space (Header_Get (rq_Header (rc_request (g_ctx s))) RequestIdHeader);
          handle = (\<lambda>requestId clientLogFields.
            (let ctx1 = x_requestid_ToContext x ctx requestId;
                 ctx2 = x_log_RewriteContextField x ctx1 (LogString RequestIdLogKey requestId);
                 ctx3 = x_log_ToContext x ctx2 clientLogFields
             in nxt (on_ctx (SetContext ctx3) s)))
      in if clientRequestId \<noteq> [] then
           (case (case GetAuthData (g_ctx s) of Err e \<Rightarrow> Ok zero_AppAuthData | r \<Rightarrow> r) of
              Ok authData \<Rightarrow>
                handle (if forwardClientRequestId \<or> forwardReqIdByApp (ad_ApplicationId authData)
                        then clientRequestId else requestId)
                  [LogString ''clientRequestId'' clientRequestId]
            | _ \<Rightarrow> (Panic, s))
         else handle requestId [])"

section \<open>Errors\<close>

text \<open>The type assertion looks at the error itself, not at what it wraps.\<close>

definition ErrorHandler :: "'w ext \<Rightarrow> 'w middleware" where
  "ErrorHandler x nxt s =
     (case nxt s of
        (Ok u, s1) \<Rightarrow> (Ok (), s1)
      | (Panic, s1) \<Rightarrow> (Panic, s1)
      | (Err err, s1) \<Rightarrow>
          (let s2 = log_call ErrorLevel (Error err) [] s1 in
           case err of
             HttpError c m d e \<Rightarrow> WriteError x err s2
           | _ \<Rightarrow> WriteError x (New_HttpError StatusInternalServerError ''internal service error'' err) s2))"

section \<open>Authentication\<close>

definition UserAuthenticate ::
  "(Context \<Rightarrow> 'w gate \<Rightarrow> AuthenticateUserResponse res \<times> 'w gate) \<Rightarrow> 'w middleware" where
  "UserAuthenticate authenticator nxt s =
     (case authenticator (g_ctx s) s of
        (Panic, s1) \<Rightarrow> (Panic, s1)
      | (Err err, s1) \<Rightarrow>
          (if errors_Is err ErrEmptyUserToken then
             (Err (New_HttpError StatusUnauthorized ''user token required''
                     (NewError ''customAuth: authenticate user: user token required'')), s1)
           else if errors_Is err ErrInvalidUserToken then
             (Err (New_HttpError StatusUnauthorized ''invalid user token''
                     (WithMessage err ''customAuth: authenticate user: invalid user token'')), s1)
           else (Err (WithMessage err ''customAuth: authenticate user: authenticator error''), s1))
      | (Ok resp, s1) \<Rightarrow>
          (if ur_SkipUserAuth resp then nxt s1
           else if \<not> ur_Authenticated resp then
             (Err (New_HttpError StatusUnauthorized ''invalid user token''
                     (NewError (''customAuth: authenticate user: authenticate: '' @ ur_ErrorReason resp))), s1)
           else
             (case ur_AuthData resp of
                None \<Rightarrow> (Panic, s1)
              | Some authData \<Rightarrow>
                  (let s2 = on_ctx (AuthenticateUser authData) s1 in
                   if SkipAppAuth (g_ctx s2) then
                     nxt (log_call DebugLevel
                       ''skip app auth is set. All steps that require app auth data are skipped'' [] s2)
                   else nxt s2))))"

definition applicationTokenHeader :: string where
  "applicationTokenHeader = ''x-application-token''"

text \<open>\<open>extractToken\<close> of \<open>authenticate.go\<close>: the token and the name of the application.\<close>

definition extractAppToken :: "'w ext \<Rightarrow> 'w gate \<Rightarrow> (string \<times> string) res \<times> 'w gate" where
  "extractAppToken x s =
     (case Param (x_unicode_lower x) applicationTokenHeader (g_ctx s) of
        (token, c) \<Rightarrow>
          (let s1 = s\<lparr>g_ctx := c\<rparr> in
           if token \<noteq> [] then (Ok (token, []), s1)
           else (case BasicAuth (rc_request c) of
                   (appName, token, ok) \<Rightarrow>
                     (if ok \<and> appName = [] then
                        (Err (New_HttpError StatusUnauthorized ''application name required''
                                (NewError ''authenticate: application name required on basic auth'')), s1)
                      else (Ok (token, appName), s1)))))"

definition Authenticate ::
  "'w ext \<Rightarrow> (string \<Rightarrow> 'w gate \<Rightarrow> AuthenticateAppResponse res \<times> 'w gate) \<Rightarrow> 'w middleware" where
  "Authenticate x authenticator nxt s =
     (if SkipAppAuth (g_ctx s) then nxt s
      else
        (case extractAppToken x s of
           (Panic, s1) \<Rightarrow> (Panic, s1)
         | (Err err, s1) \<Rightarrow> (Err err, s1)
         | (Ok (token, appName), s1) \<Rightarrow>
             (if token = [] then
                (Err (New_HttpError StatusUnauthorized ''application token required''
                        (NewError ''authenticate: application token required'')), s1)
              else
                (case authenticator token s1 of
                   (Panic, s2) \<Rightarrow> (Panic, s2)
                 | (Err err, s2) \<Rightarrow> (Err (WithMessage err ''authenticate: authenticator error''), s2)
                 | (Ok resp, s2) \<Rightarrow>
                     (if \<not> ar_Authenticated resp then
                        (Err (New_HttpError StatusUnauthorized ''invalid application token''
                                (NewError (''authenticate: '' @ ar_ErrorReason resp))), s2)
                      else
                        (case ar_AuthData resp of
                           None \<Rightarrow> (Panic, s2)
                         | Some authData \<Rightarrow>
                             (if appName \<noteq> [] \<and> ad_AppName authData \<noteq> appName then
                                (Err (New_HttpError StatusUnauthorized ''invalid application token''
                                        (NewError ''authenticate: application name mismatch'')), s2)
                              else nxt (on_ctx (Context_Authenticate authData) s2))))))))"

definition adminAuthHeader :: string where
  "adminAuthHeader = ''x-auth-admin''"

definition AdminAuthenticate_mw ::
  "'w ext \<Rightarrow> (string \<Rightarrow> 'w gate \<Rightarrow> AdminAuthenticateResponse res \<times> 'w gate) \<Rightarrow> 'w middleware" where
  "AdminAuthenticate_mw x auth nxt s =
     (case Param (x_unicode_lower x) adminAuthHeader (g_ctx s) of
        (adminToken, c) \<Rightarrow>
          (let s1 = s\<lparr>g_ctx := c\<rparr> in
           if adminToken = [] then nxt s1
           else
             (case auth adminToken s1 of
                (Panic, s2) \<Rightarrow> (Panic, s2)
              | (Err err, s2) \<Rightarrow>
                  (Err (New_HttpError StatusUnauthorized ''invalid admin token''
                          (WithMessage err ''admin authenticate: authenticate'')), s2)
              | (Ok resp, s2) \<Rightarrow>
                  (if \<not> mr_Authenticated resp then
                     (Err (New_HttpError StatusUnauthorized ''invalid admin token''
                             (WithMessage (NewError (mr_ErrorReason resp)) ''admin authenticate: authenticate'')), s2)
                   else nxt (on_ctx (AuthenticateAdmin (mr_AdminId resp) adminToken) s2)))))"

section \<open>Authorization\<close>

definition Authorize ::
  "(go_int \<Rightarrow> string \<Rightarrow> string \<Rightarrow> 'w gate \<Rightarrow> bool res \<times> 'w gate) \<Rightarrow> 'w middleware" where
  "Authorize authorizer nxt s =
     (if SkipAppAuth (g_ctx s) then nxt s
      else
        (case GetAuthData (g_ctx s) of
           Panic \<Rightarrow> (Panic, s)
         | Err err \<Rightarrow> (Err (WithMessage err ''authorize: get auth data''), s)
         | Ok authData \<Rightarrow>
             (let endpointMeta = rc_endpointMeta (g_ctx s); method = rq_Method (rc_request (g_ctx s)) in
              case authorizer (ad_ApplicationId authData) method (me_PathSchema endpointMeta) s of
                (Panic, s1) \<Rightarrow> (Panic, s1)
              | (Err err, s1) \<Rightarrow> (Err (WithMessage err ''authorize: authorize''), s1)
              | (Ok ok, s1) \<Rightarrow>
                  (if \<not> ok \<and> rc_adminAuthenticated (g_ctx s1) then
                     nxt (log_call InfoLevel ''bypassing unauthorized request because it has admin privilege''
                            [LogInt ''applicationId'' (ad_ApplicationId authData),
                             LogString ''applicationName'' (ad_AppName authData),
                             LogInt ''adminId'' (rc_adminId (g_ctx s1))] s1)
                   else if \<not> ok then
                     (Err (New_HttpError StatusForbidden ''endpoint is not allowed''
                             (NewError (''authorize: endpoint '' @ quoted (me_PathSchema endpointMeta) @
                                '' with http method '' @ quoted method @ '' is not allowed for application '' @
                                quoted (fmt_d (ad_ApplicationId authData))))), s1)
                   else nxt s1))))"

definition AdminAuthorize_mw ::
  "(go_int \<Rightarrow> string \<Rightarrow> 'w gate \<Rightarrow> bool res \<times> 'w gate) \<Rightarrow> 'w middleware" where
  "AdminAuthorize_mw authorizer nxt s =
     (let endpointMeta = rc_endpointMeta (g_ctx s) in
      if \<not> me_Inner endpointMeta then nxt s
      else if \<not> rc_adminAuthenticated (g_ctx s) then
        (Err (New_HttpError StatusForbidden ''admin authentication required''
                (NewError (''admin authorization: admin authentication required for '' @
                   quoted (me_Endpoint endpointMeta)))), s)
      else
        (let requiredPerm = me_RequiredAdminPermission endpointMeta in
         if requiredPerm = [] then nxt s
         else
           (case authorizer (rc_adminId (g_ctx s)) requiredPerm s of
              (Panic, s1) \<Rightarrow> (Panic, s1)
            | (Err err, s1) \<Rightarrow> (Err (WithMessage err ''admin authorization: authorize''), s1)
            | (Ok ok, s1) \<Rightarrow>
                (if \<not> ok then
                   (Err (New_HttpError StatusForbidden ''endpoint is not allowed''
                           (NewError (''admin authorization: endpoint '' @ quoted (me_Endpoint endpointMeta) @
                              '' requires '' @ quoted requiredPerm @ '' permission, but admin '' @
                              quoted (fmt_d (rc_adminId (g_ctx s1))) @ '' doesn'' @ [CHR 0x27] @ ''t have it''))), s1)
                 else nxt s1))))"

section \<open>Limits\<close>

text \<open>\<open>Duration.Milliseconds\<close> divides towards zero.\<close>

definition Milliseconds :: "duration \<Rightarrow> int" where
  "Milliseconds d = (if sint d < 0 then - (- sint d div 1000000) else sint d div 1000000)"

definition Throttling :: "(go_int \<Rightarrow> 'w gate \<Rightarrow> RateLimitResult res \<times> 'w gate) \<Rightarrow> 'w middleware" where
  "Throttling throttler nxt s =
     (if SkipAppAuth (g_ctx s) then nxt s
      else
        (case GetAuthData (g_ctx s) of
           Panic \<Rightarrow> (Panic, s)
         | Err err \<Rightarrow> (Err (WithMessage err ''throttling: get auth data''), s)
         | Ok authData \<Rightarrow>
             (case throttler (ad_ApplicationId authData) s of
                (Panic, s1) \<Rightarrow> (Panic, s1)
              | (Err err, s1) \<Rightarrow> (Err (WithMessage err ''throttling: allow rate limit''), s1)
              | (Ok result, s1) \<Rightarrow>
                  (if \<not> rl_Allow result then
                     (Err (New_HttpError StatusTooManyRequests
                             (''rate limit has been reached, try after '' @
                                int_text (Milliseconds (rl_RetryAfter result)) @ ''ms'')
                             (NewError (''throttling: rate limit has been reached for application '' @
                                quoted (fmt_d (ad_ApplicationId authData))))), s1)
                   else nxt s1))))"

definition DailyLimit :: "(go_int \<Rightarrow> 'w gate \<Rightarrow> bool res \<times> 'w gate) \<Rightarrow> 'w middleware" where
  "DailyLimit checker nxt s =
     (if SkipAppAuth (g_ctx s) then nxt s
      else
        (case GetAuthData (g_ctx s) of
           Panic \<Rightarrow> (Panic, s)
         | Err err \<Rightarrow> (Err (WithMessage err ''daily limit: get auth data''), s)
         | Ok authData \<Rightarrow>
             (case checker (ad_ApplicationId authData) s of
                (Panic, s1) \<Rightarrow> (Panic, s1)
              | (Err err, s1) \<Rightarrow> (Err (WithMessage err ''daily limit: increment and check''), s1)
              | (Ok ok, s1) \<Rightarrow>
                  (if \<not> ok then
                     (Err (New_HttpError StatusTooManyRequests ''daily requests limit has been reached''
                             (NewError (''daily limit: daily requests limit has been reached for application '' @
                                quoted (fmt_d (ad_ApplicationId authData))))), s1)
                   else nxt s1))))"

section \<open>Metrics\<close>

text \<open>\<open>t.Sub(u)\<close> saturates.\<close>

definition Sub :: "time \<Rightarrow> time \<Rightarrow> duration" where
  "Sub t u = word_of_int (max (- (2 ^ 63)) (min (2 ^ 63 - 1) (t - u)))"

definition Metrics :: "'w ext \<Rightarrow> 'w middleware" where
  "Metrics x nxt s =
     (let pathSchema = me_PathSchema (rc_endpointMeta (g_ctx s)) in
      if pathSchema = [] then nxt s
      else
        (case now x s of
           (start, s1) \<Rightarrow>
             (case nxt s1 of
                (Panic, s2) \<Rightarrow> (Panic, s2)
              | (Err err, s2) \<Rightarrow> (Err err, s2)
              | (Ok u, s2) \<Rightarrow>
                  (case now x s2 of
                     (t, s3) \<Rightarrow>
                       (Ok (), s3\<lparr>g_metrics := g_metrics s3 @
                          [(rq_Method (rc_request (g_ctx s)), pathSchema, Sub t start)]\<rparr>)))))"

section \<open>What each middleware asks before it lets a request pass\<close>

definition request_id_admits :: "'w ext \<Rightarrow> 'w gate \<Rightarrow> 'w gate \<Rightarrow> bool" where
  "request_id_admits x s s' \<longleftrightarrow> (\<exists>ctx w. s' = on_ctx (SetContext ctx) (s\<lparr>g_world := w\<rparr>))"

definition client_id_admits :: "'w ext \<Rightarrow> 'w gate \<Rightarrow> 'w gate \<Rightarrow> bool" where
  "client_id_admits x s s' \<longleftrightarrow> (\<exists>ctx. s' = on_ctx (SetContext ctx) s)"

definition user_admits ::
  "(Context \<Rightarrow> 'w gate \<Rightarrow> AuthenticateUserResponse res \<times> 'w gate) \<Rightarrow> 'w gate \<Rightarrow> 'w gate \<Rightarrow> bool" where
  "user_admits authenticator s s' \<longleftrightarrow>
     (\<exists>resp s1. authenticator (g_ctx s) s = (Ok resp, s1) \<and>
        (if ur_SkipUserAuth resp then s' = s1
         else ur_Authenticated resp \<and>
           (\<exists>d. ur_AuthData resp = Some d \<and>
              s' = (let s2 = on_ctx (AuthenticateUser d) s1 in
                    if ud_SkipAppAuth d
                    then log_call DebugLevel
                           ''skip app auth is set. All steps that require app auth data are skipped'' [] s2
                    else s2))))"

definition app_admits ::
  "'w ext \<Rightarrow> (string \<Rightarrow> 'w gate \<Rightarrow> AuthenticateAppResponse res \<times> 'w gate) \<Rightarrow> 'w gate \<Rightarrow> 'w gate \<Rightarrow> bool" where
  "app_admits x authenticator s s' \<longleftrightarrow>
     (if SkipAppAuth (g_ctx s) then s' = s
      else \<exists>token appName s1 resp s2 d.
        extractAppToken x s = (Ok (token, appName), s1) \<and> token \<noteq> [] \<and>
        authenticator token s1 = (Ok resp, s2) \<and> ar_Authenticated resp \<and> ar_AuthData resp = Some d \<and>
        (appName = [] \<or> ad_AppName d = appName) \<and> s' = on_ctx (Context_Authenticate d) s2)"

definition admin_admits ::
  "'w ext \<Rightarrow> (string \<Rightarrow> 'w gate \<Rightarrow> AdminAuthenticateResponse res \<times> 'w gate) \<Rightarrow> 'w gate \<Rightarrow> 'w gate \<Rightarrow> bool" where
  "admin_admits x auth s s' \<longleftrightarrow>
     (\<exists>token c. Param (x_unicode_lower x) adminAuthHeader (g_ctx s) = (token, c) \<and>
        (if token = [] then s' = s\<lparr>g_ctx := c\<rparr>
         else \<exists>resp s1. auth token (s\<lparr>g_ctx := c\<rparr>) = (Ok resp, s1) \<and> mr_Authenticated resp \<and>
           s' = on_ctx (AuthenticateAdmin (mr_AdminId resp) token) s1))"

definition authorize_admits ::
  "(go_int \<Rightarrow> string \<Rightarrow> string \<Rightarrow> 'w gate \<Rightarrow> bool res \<times> 'w gate) \<Rightarrow> 'w gate \<Rightarrow> 'w gate \<Rightarrow> bool" where
  "authorize_admits authorizer s s' \<longleftrightarrow>
     (if SkipAppAuth (g_ctx s) then s' = s
      else \<exists>d ok s1. GetAuthData (g_ctx s) = Ok d \<and>
        authorizer (ad_ApplicationId d) (rq_Method (rc_request (g_ctx s)))
          (me_PathSchema (rc_endpointMeta (g_ctx s))) s = (Ok ok, s1) \<and>
        (if ok then s' = s1
         else rc_adminAuthenticated (g_ctx s1) \<and>
           s' = log_call InfoLevel ''bypassing unauthorized request because it has admin privilege''
                  [LogInt ''applicationId'' (ad_ApplicationId d), LogString ''applicationName'' (ad_AppName d),
                   LogInt ''adminId'' (rc_adminId (g_ctx s1))] s1))"

definition admin_authorize_admits ::
  "(go_int \<Rightarrow> string \<Rightarrow> 'w gate \<Rightarrow> bool res \<times> 'w gate) \<Rightarrow> 'w gate \<Rightarrow> 'w gate \<Rightarrow> bool" where
  "admin_authorize_admits authorizer s s' \<longleftrightarrow>
     (let meta = rc_endpointMeta (g_ctx s) in
      if \<not> me_Inner meta then s' = s
      else rc_adminAuthenticated (g_ctx s) \<and>
        (if me_RequiredAdminPermission meta = [] then s' = s
         else authorizer (rc_adminId (g_ctx s)) (me_RequiredAdminPermission meta) s = (Ok True, s')))"

definition throttling_admits ::
  "(go_int \<Rightarrow> 'w gate \<Rightarrow> RateLimitResult res \<times> 'w gate) \<Rightarrow> 'w gate \<Rightarrow> 'w gate \<Rightarrow> bool" where
  "throttling_admits throttler s s' \<longleftrightarrow>
     (if SkipAppAuth (g_ctx s) then s' = s
      else \<exists>d r. GetAuthData (g_ctx s) = Ok d \<and> throttler (ad_ApplicationId d) s = (Ok r, s') \<and> rl_Allow r)"

definition daily_admits ::
  "(go_int \<Rightarrow> 'w gate \<Rightarrow> bool res \<times> 'w gate) \<Rightarrow> 'w gate \<Rightarrow> 'w gate \<Rightarrow> bool" where
  "daily_admits checker s s' \<longleftrightarrow>
     (if SkipAppAuth (g_ctx s) then s' = s
      else \<exists>d. GetAuthData (g_ctx s) = Ok d \<and> checker (ad_ApplicationId d) s = (Ok True, s'))"

lemmas admits_defs =
  request_id_admits_def client_id_admits_def user_admits_def app_admits_def admin_admits_def
  authorize_admits_def admin_authorize_admits_def throttling_admits_def daily_admits_def

section \<open>The access middlewares meet the contract\<close>

lemmas refusal_simps = refusal_def New_HttpError_def status_defs

lemma extractAppToken_Err: "extractAppToken x s = (Err e, s1) \<Longrightarrow> error_status e = 401"
  by (auto simp: extractAppToken_def Let_def New_HttpError_def status_defs split: prod.splits if_splits)

lemma extractAppToken_not_Panic: "fst (extractAppToken x s) \<noteq> Panic"
  by (auto simp: extractAppToken_def Let_def split: prod.splits)

interpretation request_id: access_middleware "RequestId x" "request_id_admits x" for x :: "'w ext"
  by unfold_locales (auto simp: RequestId_def request_id_admits_def passes_def split_beta Let_def)

interpretation client_id: access_middleware "ClientRequestId x f g" "client_id_admits x" for x :: "'w ext" and f g
proof (unfold_locales, goal_cases)
  case (1 s)
  show ?case
    by (cases "trim_space (Header_Get (rq_Header (rc_request (g_ctx s))) RequestIdHeader) = []";
        cases "GetAuthData (g_ctx s)")
       (force simp: ClientRequestId_def client_id_admits_def passes_def stops_def Let_def)+
next
  case (2 s r s')
  then show ?case by (auto simp: ClientRequestId_def Let_def refusal_simps split: prod.splits res.splits option.splits if_splits)
qed

interpretation user_mw: access_middleware "UserAuthenticate a" "user_admits a" for a :: "Context \<Rightarrow> 'w gate \<Rightarrow> _"
proof (unfold_locales, goal_cases)
  case (1 s)
  obtain r s1 where a: "a (g_ctx s) s = (r, s1)" by fastforce
  show ?case
  proof (cases r)
    case (Ok resp)
    show ?thesis
      by (cases "ur_AuthData resp")
         (auto simp: UserAuthenticate_def user_admits_def passes_def stops_def Let_def a Ok)
  qed (auto simp: UserAuthenticate_def stops_def a)
next
  case (2 s r s')
  then show ?case by (auto simp: UserAuthenticate_def Let_def refusal_simps split: prod.splits res.splits option.splits if_splits)
qed

interpretation app_mw: access_middleware "Authenticate x a" "app_admits x a" for x :: "'w ext" and a
proof (unfold_locales, goal_cases)
  case (1 s)
  show ?case
  proof (cases "SkipAppAuth (g_ctx s)")
    case False
    obtain e s1 where e: "extractAppToken x s = (e, s1)" by fastforce
    show ?thesis
    proof (cases e)
      case (Ok p)
      obtain token appName where p: "p = (token, appName)" by fastforce
      obtain r s2 where a: "a token s1 = (r, s2)" by fastforce
      show ?thesis
      proof (cases r)
        case r: (Ok resp)
        show ?thesis
          by (cases "ar_AuthData resp")
             (auto simp: Authenticate_def app_admits_def passes_def stops_def False e Ok p a r)
      qed (cases "token = []"; simp add: Authenticate_def stops_def False e Ok p a)+
    qed (auto simp: Authenticate_def stops_def False e)
  qed (auto simp: Authenticate_def app_admits_def passes_def)
next
  case (2 s r s')
  then show ?case by (auto simp: Authenticate_def Let_def refusal_simps dest: extractAppToken_Err split: prod.splits res.splits option.splits if_splits)
qed

interpretation admin_mw: access_middleware "AdminAuthenticate_mw x a" "admin_admits x a" for x :: "'w ext" and a
proof (unfold_locales, goal_cases)
  case (1 s)
  obtain token c where p: "Param (x_unicode_lower x) adminAuthHeader (g_ctx s) = (token, c)" by fastforce
  obtain r s1 where a: "a token (s\<lparr>g_ctx := c\<rparr>) = (r, s1)" by fastforce
  show ?case
    by (cases r)
       (auto simp: AdminAuthenticate_mw_def admin_admits_def passes_def stops_def Let_def p a)
next
  case (2 s r s')
  then show ?case by (auto simp: AdminAuthenticate_mw_def Let_def refusal_simps split: prod.splits res.splits option.splits if_splits)
qed

interpretation authorize_mw: access_middleware "Authorize a" "authorize_admits a" for a :: "go_int \<Rightarrow> string \<Rightarrow> string \<Rightarrow> 'w gate \<Rightarrow> _"
proof (unfold_locales, goal_cases)
  case (1 s)
  show ?case
  proof (cases "GetAuthData (g_ctx s)")
    case (Ok d)
    obtain r s1 where a: "a (ad_ApplicationId d) (rq_Method (rc_request (g_ctx s)))
        (me_PathSchema (rc_endpointMeta (g_ctx s))) s = (r, s1)" by fastforce
    show ?thesis
      by (cases r)
         (auto simp: Authorize_def authorize_admits_def passes_def stops_def Let_def Ok a)
  qed (auto simp: Authorize_def authorize_admits_def passes_def stops_def)
next
  case (2 s r s')
  then show ?case by (auto simp: Authorize_def Let_def refusal_simps split: prod.splits res.splits option.splits if_splits)
qed

interpretation admin_authorize_mw: access_middleware "AdminAuthorize_mw a" "admin_authorize_admits a"
  for a :: "go_int \<Rightarrow> string \<Rightarrow> 'w gate \<Rightarrow> _"
proof (unfold_locales, goal_cases)
  case (1 s)
  obtain r s1 where a: "a (rc_adminId (g_ctx s)) (me_RequiredAdminPermission (rc_endpointMeta (g_ctx s))) s = (r, s1)"
    by fastforce
  show ?case
    by (cases "me_Inner (rc_endpointMeta (g_ctx s))"; cases "rc_adminAuthenticated (g_ctx s)";
        cases "me_RequiredAdminPermission (rc_endpointMeta (g_ctx s)) = []"; cases "r = Ok True"; cases r)
       (simp_all add: AdminAuthorize_mw_def admin_authorize_admits_def passes_def stops_def Let_def a)
next
  case (2 s r s')
  then show ?case by (auto simp: AdminAuthorize_mw_def Let_def refusal_simps split: prod.splits res.splits option.splits if_splits)
qed

interpretation throttling_mw: access_middleware "Throttling a" "throttling_admits a" for a :: "go_int \<Rightarrow> 'w gate \<Rightarrow> _"
proof (unfold_locales, goal_cases)
  case (1 s)
  show ?case
  proof (cases "GetAuthData (g_ctx s)")
    case (Ok d)
    obtain r s1 where a: "a (ad_ApplicationId d) s = (r, s1)" by fastforce
    show ?thesis
      by (cases r) (auto simp: Throttling_def throttling_admits_def passes_def stops_def Ok a)
  qed (auto simp: Throttling_def throttling_admits_def passes_def stops_def)
next
  case (2 s r s')
  then show ?case by (auto simp: Throttling_def Let_def refusal_simps split: prod.splits res.splits option.splits if_splits)
qed

interpretation daily_mw: access_middleware "DailyLimit a" "daily_admits a" for a :: "go_int \<Rightarrow> 'w gate \<Rightarrow> _"
proof (unfold_locales, goal_cases)
  case (1 s)
  show ?case
  proof (cases "GetAuthData (g_ctx s)")
    case (Ok d)
    obtain r s1 where a: "a (ad_ApplicationId d) s = (r, s1)" by fastforce
    show ?thesis
      by (cases r) (auto simp: DailyLimit_def daily_admits_def passes_def stops_def Ok a)
  qed (auto simp: DailyLimit_def daily_admits_def passes_def stops_def)
next
  case (2 s r s')
  then show ?case by (auto simp: DailyLimit_def Let_def refusal_simps split: prod.splits res.splits option.splits if_splits)
qed

section \<open>Properties\<close>

lemma direct_log_call [simp]: "direct (log_call l m fs s) = direct s"
  by (simp add: direct_def log_call_def)

lemma answered_log_call [simp]: "answered (log_call l m fs s) = answered s"
  by (simp add: answered_def log_call_def fun_eq_iff)

text \<open>The body a client sees for an error: of an error that is no \<open>HttpError\<close>, nothing but a constant.\<close>

primrec visible_error :: "go_error \<Rightarrow> json" where
  "visible_error ErrNotAuthenticated = error_body 500 ''internal service error'' []"
| "visible_error ErrAuthenticationCacheMiss = error_body 500 ''internal service error'' []"
| "visible_error ErrUserAuthSettingNotFound = error_body 500 ''internal service error'' []"
| "visible_error ErrEmptyUserToken = error_body 500 ''internal service error'' []"
| "visible_error ErrInvalidUserToken = error_body 500 ''internal service error'' []"
| "visible_error ErrNoCookie = error_body 500 ''internal service error'' []"
| "visible_error (NewError s) = error_body 500 ''internal service error'' []"
| "visible_error (ExternalError s) = error_body 500 ''internal service error'' []"
| "visible_error (WithMessage e m) = error_body 500 ''internal service error'' []"
| "visible_error (HttpError c m d e) = error_body c m d"

lemma ErrorHandler_direct:
  assumes "nxt s = (Err e, s1)" "direct s1" "200 \<le> error_status e"
    and "x_marshal_json x (visible_error e) = Inr data"
  shows "\<exists>s'. ErrorHandler x nxt s = (Ok (), s') \<and> answered s1 (error_status e) (data @ [0x0A]) s' \<and>
    Header_Get (final_header (g_rw s')) ''Content-Type'' = ''application/json''"
  using WriteError_direct [of "log_call ErrorLevel (Error e) [] s1" "error_status e" x] assms
  by (cases e) (auto simp: ErrorHandler_def New_HttpError_def StatusInternalServerError_def)

text \<open>
  C19. The error handler answers every error: when the handler behind it fails before anything was
  sent, the client gets the status of the error (500 for one that is no \<open>HttpError\<close>, also when it
  wraps an \<open>HttpError\<close>) with the JSON body, whose text for such an error is a constant, so no
  internal message leaves the gateway; and the error counts as handled.
\<close>

theorem ErrorHandler_response:
  assumes "nxt s = (Err e, s1)" "direct s1" "200 \<le> error_status e"
    and "x_marshal_json x (visible_error e) = Inr data"
  shows "\<exists>s'. ErrorHandler x nxt s = (Ok (), s') \<and> answered s1 (error_status e) (data @ [0x0A]) s' \<and>
    Header_Get (final_header (g_rw s')) ''Content-Type'' = ''application/json''"
  using assms by (rule ErrorHandler_direct)

theorem ErrorHandler_response_witness:
  "\<exists>s'. ErrorHandler idle (\<lambda>s. (Err (WithMessage (New_HttpError 403 ''secret'' ErrNoCookie) ''db password''), s))
      (fresh_gate zero_EndpointMeta sample_request ()) = (Ok (), s') \<and>
    answered (fresh_gate zero_EndpointMeta sample_request ()) 500 [0x0A] s'"
  using ErrorHandler_response [of "\<lambda>s. (Err (WithMessage (New_HttpError 403 ''secret'' ErrNoCookie) ''db password''), s)"
      "fresh_gate zero_EndpointMeta sample_request ()" "WithMessage (New_HttpError 403 ''secret'' ErrNoCookie) ''db password''"
      "fresh_gate zero_EndpointMeta sample_request ()" idle "[]"]
  by (auto simp: fresh_gate_def direct_def NewContext_def sample_writer_def idle_def)

text \<open>
  Basic authentication: without an application token in the request, a well-formed basic
  authorization header gives exactly the application name and the token it was made from, whatever
  bytes they are (the name without a colon), and an empty name is refused with 401.
\<close>

lemma basic_auth_credentials:
  assumes "fst (Param (x_unicode_lower x) applicationTokenHeader (g_ctx s)) = []"
    and "Header_Get (rq_Header (rc_request (g_ctx s))) ''Authorization'' =
      ''Basic '' @ base64_encode (name @ CHR '':'' # token)"
    and "CHR '':'' \<notin> set name"
  shows "fst (extractAppToken x s) =
    (if name = []
     then Err (HttpError 401 ''application name required'' []
                 (NewError ''authenticate: application name required on basic auth''))
     else Ok (token, name))"
proof -
  have "BasicAuth (rc_request (snd (Param (x_unicode_lower x) applicationTokenHeader (g_ctx s)))) = (name, token, True)"
    using assms(2) parseBasicAuth_encode [OF assms(3), of token] by (simp add: BasicAuth_def Let_def gate_keep)
  then show ?thesis
    using assms(1) by (simp add: extractAppToken_def Let_def split_beta New_HttpError_def StatusUnauthorized_def)
qed

lemma basic_auth_credentials_witness:
  "fst (extractAppToken idle (fresh_gate zero_EndpointMeta
     (sample_request\<lparr>rq_Query := [], rq_Header := [''Authorization'' \<mapsto> [''Basic '' @ base64_encode ''crm:t'']]\<rparr>) ())) =
   Ok (''t'', ''crm'')"
proof -
  let ?r = "sample_request\<lparr>rq_Query := [], rq_Header := [''Authorization'' \<mapsto> [''Basic '' @ base64_encode ''crm:t'']]\<rparr>"
  let ?s = "fresh_gate zero_EndpointMeta ?r () :: unit gate"
  have "query_params (\<lambda>s. s) (rq_Query ?r) = Map.empty" by (simp add: query_params_def)
  moreover have "Header_Get (rq_Header ?r) applicationTokenHeader = []"
    "Header_Get (rq_Header ?r) ''Authorization'' = ''Basic '' @ base64_encode ''crm:t''"
    by code_simp+
  ultimately have "fst (Param (x_unicode_lower (idle :: unit ext)) applicationTokenHeader (g_ctx ?s)) = []"
    "Header_Get (rq_Header (rc_request (g_ctx ?s))) ''Authorization'' = ''Basic '' @ base64_encode (''crm'' @ CHR '':'' # ''t'')"
    by (simp_all add: Param_def Let_def fresh_gate_def NewContext_def idle_def)
  from basic_auth_credentials [OF this] show ?thesis by simp
qed

end
