(* ===== verification/Gate_Routes.thy ===== *)
theory Gate_Routes
  imports Gate_Middleware
begin

text \<open>
  \<open>routes/*.go\<close> and \<open>middleware/entrypoint.go\<close>: the table of the endpoints the modules of the cluster
  announce, the resolution of a request to the metadata of its endpoint, and the entry point that
  opens the context of a request with it. The routing tree is the library's: the model keeps the
  calls of its \<open>Handle\<close>, in order, and asks the environment what a lookup finds among them.
\<close>

section \<open>Paths\<close>

definition normalizeDescriptorPath :: "string \<Rightarrow> string" where
  "normalizeDescriptorPath path =
     (let pathParts = split_on (CHR '' '') path;
          path1 = (if length pathParts = 2 then pathParts ! 1 else path)
      in if has_prefix path1 ''/'' then path1 else ''/'' @ path1)"

definition normalizePath :: "string \<Rightarrow> string" where
  "normalizePath path = trim_prefix path ''/''"

record EntryPointConfig =
  ep_PathPrefix :: string
  ep_WithPrefix :: bool
  ep_ErrorOnUnknownEndpoint :: bool
  ep_WithLendingSlash :: bool

definition GetPaths :: "string \<Rightarrow> EntryPointConfig \<Rightarrow> string \<times> string" where
  "GetPaths path cfg =
     (let lookupPath = (if \<not> ep_WithPrefix cfg then trim_prefix path (ep_PathPrefix cfg) else path);
          metaEndpoint = (if \<not> ep_WithLendingSlash cfg then trim_left_slashes lookupPath else lookupPath)
      in (lookupPath, metaEndpoint))"

section \<open>The routing table\<close>

text \<open>A call of \<open>router.Handle\<close>: method, path and the metadata its handler carries.\<close>

type_synonym routing_table = "(string \<times> string \<times> EndpointMeta) list"

record Routes =
  ro_allHttpMethods :: "string list"
  ro_router :: routing_table

definition NewRoutes :: Routes where
  "NewRoutes =
     \<lparr>ro_allHttpMethods =
        [''GET'', ''HEAD'', ''POST'', ''PUT'', ''PATCH'', ''DELETE'', ''CONNECT'', ''OPTIONS'', ''TRACE''],
      ro_router = []\<rparr>"

text \<open>A backend of the routing configuration: its module and its endpoints.\<close>

record BackendDeclaration =
  be_ModuleName :: string
  be_Endpoints :: "EndpointDescriptor list"

text \<open>
  \<open>registerEndpoint\<close> recovers when \<open>Handle\<close> panics (a conflict with an earlier path), so the loop
  goes on whatever the tree made of the call.
\<close>

definition registerEndpoint ::
  "'w ext \<Rightarrow> routing_table \<Rightarrow> string \<Rightarrow> string \<Rightarrow> string \<Rightarrow> EndpointDescriptor \<Rightarrow> routing_table" where
  "registerEndpoint x router moduleName httpMethod path descriptor =
     (let requiredAdminPerm = fst (x_required_admin_permission x descriptor);
          meta = \<lparr>me_Inner = ed_Inner descriptor, me_UserAuthRequired = ed_UserAuthRequired descriptor,
                  me_ModuleName = moduleName, me_RequiredAdminPermission = requiredAdminPerm,
                  me_PathSchema = ed_Path descriptor, me_Endpoint = [], me_NormalizedEndpoint = []\<rparr>
      in router @ [(httpMethod, path, meta)])"

definition register_descriptor ::
  "'w ext \<Rightarrow> string list \<Rightarrow> string \<Rightarrow> EndpointDescriptor \<Rightarrow> routing_table \<Rightarrow> routing_table" where
  "register_descriptor x allHttpMethods moduleName descriptor router =
     (let path = normalizeDescriptorPath (ed_Path descriptor) in
      if ed_HttpMethod descriptor \<noteq> [] then
        registerEndpoint x router moduleName (ed_HttpMethod descriptor) path descriptor
      else
        fold (\<lambda>httpMethod router. registerEndpoint x router moduleName httpMethod path descriptor)
          allHttpMethods router)"

definition ReceiveRoutes :: "'w ext \<Rightarrow> BackendDeclaration list \<Rightarrow> Routes \<Rightarrow> unit res \<times> Routes" where
  "ReceiveRoutes x routes s =
     (let router = fold (\<lambda>backend router.
            fold (\<lambda>descriptor router.
                register_descriptor x (ro_allHttpMethods s) (be_ModuleName backend) descriptor router)
              (be_Endpoints backend) router) routes []
      in (Ok (), s\<lparr>ro_router := router\<rparr>))"

section \<open>Resolution\<close>

text \<open>
  The code passes the metadata back through the context of a request it makes from the method and
  the path. \<open>http.NewRequestWithContext\<close> gives no request when the method is no token or the path
  is no URL, its error is dropped, and the handler then dereferences \<open>nil\<close>.
\<close>

definition ResolveEndpoint :: "'w ext \<Rightarrow> Routes \<Rightarrow> string \<Rightarrow> string \<Rightarrow> EntryPointConfig \<Rightarrow> EndpointMeta res" where
  "ResolveEndpoint x s method path cfg =
     (case GetPaths path cfg of
        (lookupPath, metaEndpoint) \<Rightarrow>
          (case x_router_lookup x (ro_router s) method lookupPath of
             None \<Rightarrow>
               (if ep_ErrorOnUnknownEndpoint cfg then
                  Err (NewError (''unknown endpoint '' @ quoted lookupPath))
                else Ok (zero_EndpointMeta\<lparr>me_Endpoint := metaEndpoint,
                                           me_NormalizedEndpoint := normalizePath metaEndpoint\<rparr>))
           | Some registered \<Rightarrow>
               (if (method \<noteq> [] \<and> \<not> is_token method) \<or> x_url_parse x lookupPath \<noteq> None then Panic
                else
                  (let ctx = EndpointMeta_ToContext registered [];
                       meta = EndpointMetaFromContext ctx
                   in Ok (meta\<lparr>me_Endpoint := metaEndpoint,
                               me_NormalizedEndpoint := normalizePath (me_PathSchema meta)\<rparr>)))))"

section \<open>The entry point\<close>

text \<open>
  An HTTP handler of the server: it answers the request on a writer of its own and returns, or
  panics.
\<close>

type_synonym 'w http_handler = "http_request \<Rightarrow> 'w handler"

definition log_in :: "go_context \<Rightarrow> log_level \<Rightarrow> string \<Rightarrow> log_field list \<Rightarrow> 'w gate \<Rightarrow> 'w gate" where
  "log_in ctx level msg fs s = s\<lparr>g_log := g_log s @ [LogEntry level ctx msg fs]\<rparr>"

definition Entrypoint ::
  "go_int64 \<Rightarrow> 'w handler \<Rightarrow> EntryPointConfig \<Rightarrow>
   (string \<Rightarrow> string \<Rightarrow> EntryPointConfig \<Rightarrow> EndpointMeta res) \<Rightarrow> 'w http_handler" where
  "Entrypoint maxReqBodySize nxt cfg resolve req s =
     (let req1 = req\<lparr>rq_Body := MaxBytesReader (rq_Body req) maxReqBodySize\<rparr> in
      case resolve (rq_Method req1) (rq_Path req1) cfg of
        Panic \<Rightarrow> (Panic, s)
      | Err err \<Rightarrow>
          (case GetPaths (rq_Path req1) cfg of
             (lookupPath, endpoint) \<Rightarrow>
               (let s1 = log_in (rq_Context req1) WarnLevel ''call unknown method''
                     [LogString ''pathPrefix'' (ep_PathPrefix cfg),
                      LogString ''httpMethod'' (rq_Method req1),
                      LogString ''originalPath'' (rq_Path req1),
                      LogString ''lookupPath'' lookupPath,
                      LogString ''enpoint'' endpoint] s
                in (Ok (), s1\<lparr>g_rw := http_Error (Error err) StatusNotImplemented (g_rw s1)\<rparr>)))
      | Ok endpoint \<Rightarrow>
          (case nxt (s\<lparr>g_ctx := NewContext req1 ServerWriter endpoint\<rparr>) of
             (Panic, s1) \<Rightarrow> (Panic, s1)
           | (Ok u, s1) \<Rightarrow> (Ok (), s1)
           | (Err err, s1) \<Rightarrow>
               (Ok (), log_in (rq_Context req1) ErrorLevel (Error (WithMessage err ''uncaught error'')) [] s1)))"

section \<open>What the table holds\<close>

text \<open>The entries an announced descriptor makes, and those of a whole announcement.\<close>

definition meta_of :: "'w ext \<Rightarrow> string \<Rightarrow> EndpointDescriptor \<Rightarrow> EndpointMeta" where
  "meta_of x moduleName d =
     \<lparr>me_Inner = ed_Inner d, me_UserAuthRequired = ed_UserAuthRequired d, me_ModuleName = moduleName,
      me_RequiredAdminPermission = fst (x_required_admin_permission x d), me_PathSchema = ed_Path d,
      me_Endpoint = [], me_NormalizedEndpoint = []\<rparr>"

definition methods_of :: "string list \<Rightarrow> EndpointDescriptor \<Rightarrow> string list" where
  "methods_of allHttpMethods d = (if ed_HttpMethod d = [] then allHttpMethods else [ed_HttpMethod d])"

definition announced :: "'w ext \<Rightarrow> string list \<Rightarrow> BackendDeclaration list \<Rightarrow> routing_table" where
  "announced x methods backends =
     concat (map (\<lambda>b. concat (map (\<lambda>d.
       map (\<lambda>m. (m, normalizeDescriptorPath (ed_Path d), meta_of x (be_ModuleName b) d)) (methods_of methods d))
       (be_Endpoints b))) backends)"

lemma registerEndpoint_eq: "registerEndpoint x router mn m p d = router @ [(m, p, meta_of x mn d)]"
  by (simp add: registerEndpoint_def meta_of_def)

lemma fold_append: "(\<And>a acc. g a acc = acc @ f a) \<Longrightarrow> fold g as acc = acc @ concat (map f as)"
  by (induction as arbitrary: acc) simp_all

lemma register_descriptor_eq:
  "register_descriptor x methods mn d router =
     router @ map (\<lambda>m. (m, normalizeDescriptorPath (ed_Path d), meta_of x mn d)) (methods_of methods d)"
  by (simp add: register_descriptor_def methods_of_def registerEndpoint_eq concat_map_singleton
      fold_append [where f = "\<lambda>m. [(m, normalizeDescriptorPath (ed_Path d), meta_of x mn d)]"])

lemma ReceiveRoutes_eq:
  "ReceiveRoutes x backends s = (Ok (), s\<lparr>ro_router := announced x (ro_allHttpMethods s) backends\<rparr>)"
  unfolding ReceiveRoutes_def Let_def announced_def
  by (subst fold_append, rule fold_append, rule register_descriptor_eq) simp

text \<open>
  What the library promises of a lookup: it answers with the handler of a call that registered this
  method.
\<close>

definition lookup_sound :: "'w ext \<Rightarrow> bool" where
  "lookup_sound x \<longleftrightarrow>
     (\<forall>table method path meta. x_router_lookup x table method path = Some meta \<longrightarrow>
        (\<exists>p. (method, p, meta) \<in> set table))"

lemma ResolveEndpoint_Ok:
  "ResolveEndpoint x s method path cfg = Ok meta \<Longrightarrow>
     me_Endpoint meta = snd (GetPaths path cfg) \<and>
     (case x_router_lookup x (ro_router s) method (fst (GetPaths path cfg)) of
        None \<Rightarrow> \<not> ep_ErrorOnUnknownEndpoint cfg \<and> \<not> me_Inner meta \<and> \<not> me_UserAuthRequired meta \<and> me_PathSchema meta = []
      | Some reg \<Rightarrow> meta = reg\<lparr>me_Endpoint := snd (GetPaths path cfg),
                             me_NormalizedEndpoint := normalizePath (me_PathSchema reg)\<rparr>)"
  by (auto simp: ResolveEndpoint_def Let_def zero_EndpointMeta_def split: prod.splits option.splits if_splits)

section \<open>Properties\<close>


text \<open>
  C30. At a location that authenticates, a request is resolved only to an endpoint some module has
  announced for its method, and with the access rules of that announcement: whether it is inner,
  whether it needs a user, the permission an administrator needs and the path schema.
\<close>

theorem ResolveEndpoint_announced:
  assumes "lookup_sound x"
    and "ResolveEndpoint x (snd (ReceiveRoutes x backends s)) method path cfg = Ok meta"
    and "ep_ErrorOnUnknownEndpoint cfg"
  shows "\<exists>b d. b \<in> set backends \<and> d \<in> set (be_Endpoints b) \<and>
    method \<in> set (methods_of (ro_allHttpMethods s) d) \<and>
    meta = (meta_of x (be_ModuleName b) d)
      \<lparr>me_Endpoint := snd (GetPaths path cfg), me_NormalizedEndpoint := normalizePath (ed_Path d)\<rparr>"
proof -
  obtain reg where reg: "x_router_lookup x (announced x (ro_allHttpMethods s) backends) method (fst (GetPaths path cfg)) = Some reg"
    and meta: "meta = reg\<lparr>me_Endpoint := snd (GetPaths path cfg), me_NormalizedEndpoint := normalizePath (me_PathSchema reg)\<rparr>"
    using ResolveEndpoint_Ok [OF assms(2)] assms(3) by (auto simp: ReceiveRoutes_eq split: option.splits)
  from assms(1) reg obtain p where "(method, p, reg) \<in> set (announced x (ro_allHttpMethods s) backends)"
    unfolding lookup_sound_def by blast
  then obtain b d where "b \<in> set backends" "d \<in> set (be_Endpoints b)"
    "method \<in> set (methods_of (ro_allHttpMethods s) d)" "reg = meta_of x (be_ModuleName b) d"
    by (auto simp: announced_def)
  then show ?thesis using meta by (auto simp: meta_of_def)
qed

text \<open>
  A path with a byte no URL may hold: when the table has an endpoint for it and \<open>url.Parse\<close>
  refuses it (as it does for every control character), resolving the request panics, at any
  location.
\<close>

lemma ResolveEndpoint_panics:
  assumes "\<And>u. list_ex (\<lambda>c. (of_char c :: nat) < 0x20 \<or> of_char c = (0x7F :: nat)) u \<Longrightarrow> x_url_parse x u \<noteq> None"
    and "x_router_lookup x (ro_router s) method (fst (GetPaths path cfg)) = Some reg"
    and "list_ex (\<lambda>c. (of_char c :: nat) < 0x20) (fst (GetPaths path cfg))"
  shows "fst (Entrypoint limit nxt cfg (ResolveEndpoint x s)
    (req\<lparr>rq_Method := method, rq_Path := path\<rparr>) st) = Panic"
proof -
  have "x_url_parse x (fst (GetPaths path cfg)) \<noteq> None"
    using assms(1,3) by (auto simp: list_ex_iff)
  with assms(2) have "ResolveEndpoint x s method path cfg = Panic"
    by (auto simp: ResolveEndpoint_def split_beta)
  then show ?thesis by (simp add: Entrypoint_def Let_def)
qed


text \<open>
  Without \<open>WithPrefix\<close> the location's prefix is cut off for the lookup and for the module, else it
  stays; a gRPC module gets the path without its leading slashes.
\<close>

lemma GetPaths_prefix:
  "GetPaths (p @ rest) \<lparr>ep_PathPrefix = p, ep_WithPrefix = w, ep_ErrorOnUnknownEndpoint = e, ep_WithLendingSlash = l\<rparr> =
     (let lookup = (if w then p @ rest else rest)
      in (lookup, if l then lookup else dropWhile (\<lambda>c. c = CHR ''/'') lookup))"
  by (simp add: GetPaths_def Let_def trim_left_slashes_def)

text \<open>
  The path of a descriptor always ends up with a leading slash; normalising it again changes
  nothing; and \<open>METHOD /path\<close> stands for \<open>/path\<close>.
\<close>

lemma normalizeDescriptorPath_shape:
  assumes "CHR '' '' \<notin> set m" "CHR '' '' \<notin> set p"
  shows "has_prefix (normalizeDescriptorPath path) ''/'' \<and>
    normalizeDescriptorPath (normalizeDescriptorPath p) = normalizeDescriptorPath p \<and>
    normalizeDescriptorPath (m @ CHR '' '' # CHR ''/'' # p) = CHR ''/'' # p"
proof (intro conjI)
  show "has_prefix (normalizeDescriptorPath path) ''/''"
    by (simp add: normalizeDescriptorPath_def Let_def has_prefix_def)
  have "normalizeDescriptorPath p = (if has_prefix p ''/'' then p else CHR ''/'' # p)"
    "normalizeDescriptorPath (CHR ''/'' # p) = CHR ''/'' # p"
    using assms(2) by (simp_all add: normalizeDescriptorPath_def split_on_no_sep has_prefix_def)
  then show "normalizeDescriptorPath (normalizeDescriptorPath p) = normalizeDescriptorPath p" by simp
  have "split_on (CHR '' '') (m @ CHR '' '' # CHR ''/'' # p) = [m, CHR ''/'' # p]"
    using assms by (simp add: split_on_append split_on_no_sep)
  then show "normalizeDescriptorPath (m @ CHR '' '' # CHR ''/'' # p) = CHR ''/'' # p"
    by (simp add: normalizeDescriptorPath_def has_prefix_def)
qed

section \<open>Witnesses\<close>

text \<open>A routing tree that compares paths literally, and \<open>url.Parse\<close> on control characters.\<close>

definition routes_ext :: "unit ext" where
  "routes_ext =
     idle\<lparr>x_router_lookup := \<lambda>table method path.
            map_option (\<lambda>e. snd (snd e)) (find (\<lambda>e. fst e = method \<and> fst (snd e) = path) table),
          x_url_parse := \<lambda>u. if list_ex (\<lambda>c. (of_char c :: nat) < 0x20 \<or> of_char c = (0x7F :: nat)) u
            then Some ''net/url: invalid control character in URL'' else None\<rparr>"

definition sample_descriptor :: EndpointDescriptor where
  "sample_descriptor =
     \<lparr>ed_HttpMethod = ''GET'', ed_Path = ''crm/x'', ed_Inner = True, ed_UserAuthRequired = False, ed_Extra = []\<rparr>"

definition sample_backend :: BackendDeclaration where
  "sample_backend = \<lparr>be_ModuleName = ''crm'', be_Endpoints = [sample_descriptor]\<rparr>"

definition sample_entry :: EntryPointConfig where
  "sample_entry =
     \<lparr>ep_PathPrefix = ''/api'', ep_WithPrefix = False, ep_ErrorOnUnknownEndpoint = True, ep_WithLendingSlash = False\<rparr>"

lemma routes_ext_sound: "lookup_sound routes_ext"
  unfolding lookup_sound_def
proof (intro allI impI)
  fix table and verb route :: string and meta
  assume "x_router_lookup routes_ext table verb route = Some meta"
  then obtain e where "find (\<lambda>e. fst e = verb \<and> fst (snd e) = route) table = Some e" "snd (snd e) = meta"
    by (auto simp: routes_ext_def)
  then have "e \<in> set table" "e = (verb, route, meta)" by (auto simp: find_Some_iff)
  then show "\<exists>p. (verb, p, meta) \<in> set table" by blast
qed

theorem ResolveEndpoint_announced_witness:
  "\<exists>meta. ResolveEndpoint routes_ext (snd (ReceiveRoutes routes_ext [sample_backend] NewRoutes)) ''GET'' ''/api/crm/x''
      sample_entry = Ok meta \<and> me_Inner meta \<and> me_Endpoint meta = ''crm/x''"
proof -
  have p: "GetPaths ''/api/crm/x'' sample_entry = (''/crm/x'', ''crm/x'')" by code_simp
  have t: "announced routes_ext (ro_allHttpMethods NewRoutes) [sample_backend] =
      [(''GET'', ''/crm/x'', meta_of routes_ext ''crm'' sample_descriptor)]"
    by (simp add: announced_def sample_backend_def sample_descriptor_def methods_of_def normalizeDescriptorPath_def
        has_prefix_def)
  have "is_token ''GET''" by code_simp
  then obtain meta where meta: "ResolveEndpoint routes_ext (snd (ReceiveRoutes routes_ext [sample_backend] NewRoutes))
      ''GET'' ''/api/crm/x'' sample_entry = Ok meta"
    by (simp add: ResolveEndpoint_def p ReceiveRoutes_eq t) (simp add: routes_ext_def Let_def)
  have "ep_ErrorOnUnknownEndpoint sample_entry" by (simp add: sample_entry_def)
  from ResolveEndpoint_announced [OF routes_ext_sound meta this]
  have "me_Inner meta \<and> me_Endpoint meta = ''crm/x''"
    by (auto simp: p meta_of_def sample_backend_def sample_descriptor_def)
  with meta show ?thesis by blast
qed

lemma ResolveEndpoint_panics_witness:
  "fst (Entrypoint 1 (\<lambda>s. (Ok (), s)) sample_entry (ResolveEndpoint routes_ext
       \<lparr>ro_allHttpMethods = [], ro_router = [(''GET'', [CHR 0x0A], zero_EndpointMeta)]\<rparr>)
     (sample_request\<lparr>rq_Method := ''GET'', rq_Path := [CHR 0x0A]\<rparr>)
     (fresh_gate zero_EndpointMeta sample_request ())) = Panic"
proof (rule ResolveEndpoint_panics)
  have p: "GetPaths [CHR 0x0A] sample_entry = ([CHR 0x0A], [CHR 0x0A])" by code_simp
  show "x_url_parse routes_ext u \<noteq> None"
    if "list_ex (\<lambda>c. (of_char c :: nat) < 0x20 \<or> of_char c = (0x7F :: nat)) u" for u
    using that by (simp add: routes_ext_def)
  show "x_router_lookup routes_ext
      (ro_router \<lparr>ro_allHttpMethods = [], ro_router = [(''GET'', [CHR 0x0A], zero_EndpointMeta)]\<rparr>) ''GET''
      (fst (GetPaths [CHR 0x0A] sample_entry)) = Some zero_EndpointMeta"
    by (simp add: p routes_ext_def)
  show "list_ex (\<lambda>c. (of_char c :: nat) < 0x20) (fst (GetPaths [CHR 0x0A] sample_entry))"
    by (simp add: p)
qed


lemma normalizeDescriptorPath_shape_witness:
  "normalizeDescriptorPath (''GET'' @ CHR '' '' # CHR ''/'' # ''a'') = CHR ''/'' # ''a''"
  using normalizeDescriptorPath_shape [of "''GET''" "''a''"] by simp

end
