(* ===== verification/Gate_Proxy.thy ===== *)
theory Gate_Proxy
  imports Sample_World "HOL-Library.Multiset"
begin

text \<open>
  \<open>proxy/*.go\<close>: the handlers at the end of the chain, which pass the request to another module over
  gRPC, HTTP or WebSocket and its answer back. The transports are in the environment: the gRPC
  client, \<open>httputil.ReverseProxy\<close> and \<open>websocketproxy\<close>; what the gateway tells them (metadata,
  headers, path, timeout) and what it does with their outcome is modelled.
\<close>

section \<open>gRPC codes and HTTP statuses\<close>

type_synonym grpc_code = nat

definition codes_OK :: grpc_code where "codes_OK = 0"
definition codes_Canceled :: grpc_code where "codes_Canceled = 1"
definition codes_InvalidArgument :: grpc_code where "codes_InvalidArgument = 3"
definition codes_DeadlineExceeded :: grpc_code where "codes_DeadlineExceeded = 4"
definition codes_NotFound :: grpc_code where "codes_NotFound = 5"
definition codes_AlreadyExists :: grpc_code where "codes_AlreadyExists = 6"
definition codes_PermissionDenied :: grpc_code where "codes_PermissionDenied = 7"
definition codes_ResourceExhausted :: grpc_code where "codes_ResourceExhausted = 8"
definition codes_FailedPrecondition :: grpc_code where "codes_FailedPrecondition = 9"
definition codes_Unimplemented :: grpc_code where "codes_Unimplemented = 12"
definition codes_Internal :: grpc_code where "codes_Internal = 13"
definition codes_Unavailable :: grpc_code where "codes_Unavailable = 14"
definition codes_Unauthenticated :: grpc_code where "codes_Unauthenticated = 16"

lemmas codes_defs =
  codes_OK_def codes_Canceled_def codes_InvalidArgument_def codes_DeadlineExceeded_def codes_NotFound_def
  codes_AlreadyExists_def codes_PermissionDenied_def codes_ResourceExhausted_def
  codes_FailedPrecondition_def codes_Unimplemented_def codes_Internal_def codes_Unavailable_def
  codes_Unauthenticated_def

definition codeMap :: "(nat \<times> grpc_code) list" where
  "codeMap =
     [(StatusOK, codes_OK),
      (StatusRequestTimeout, codes_Canceled),
      (StatusBadRequest, codes_InvalidArgument),
      (StatusGatewayTimeout, codes_DeadlineExceeded),
      (StatusNotFound, codes_NotFound),
      (StatusConflict, codes_AlreadyExists),
      (StatusForbidden, codes_PermissionDenied),
      (StatusUnauthorized, codes_Unauthenticated),
      (StatusTooManyRequests, codes_ResourceExhausted),
      (StatusPreconditionFailed, codes_FailedPrecondition),
      (StatusNotImplemented, codes_Unimplemented),
      (StatusInternalServerError, codes_Internal),
      (StatusServiceUnavailable, codes_Unavailable)]"

text \<open>\<open>init\<close> ranges over the map, in the order \<open>entries\<close>.\<close>

definition init :: "(nat \<times> grpc_code) list \<Rightarrow> (grpc_code \<rightharpoonup> nat)" where
  "init entries = fold (\<lambda>(httpCode, grpcCode) inverse. inverse(grpcCode \<mapsto> httpCode)) entries Map.empty"

definition inverseCodeMap :: "grpc_code \<rightharpoonup> nat" where
  "inverseCodeMap = init codeMap"

definition codeToHttpStatus :: "grpc_code \<Rightarrow> nat" where
  "codeToHttpStatus code = (case inverseCodeMap code of None \<Rightarrow> StatusInternalServerError | Some s \<Rightarrow> s)"

section \<open>Headers of the proxied request\<close>

definition xAdminIdHeader :: string where "xAdminIdHeader = ''x-admin-id''"

definition Itoa :: "go_int \<Rightarrow> string" where
  "Itoa i = fmt_d i"

definition add_extra_headers :: "extra_headers \<Rightarrow> header \<Rightarrow> header" where
  "add_extra_headers entries h =
     fold (\<lambda>(key, vals) h. fold (\<lambda>value h. Header_Add h key value) vals h) entries h"

definition set_user_headers :: "'w ext \<Rightarrow> 'w \<Rightarrow> UserAuthData \<Rightarrow> header \<Rightarrow> header" where
  "set_user_headers x w u h =
     (let entries = (case ud_ExtraHeaders u of None \<Rightarrow> [] | Some m \<Rightarrow> x_map_order x w m)
      in Header_Set (add_extra_headers entries h) (ud_IdentityHeader u) (ud_Identity u))"

definition set_app_headers :: "AppAuthData \<Rightarrow> header \<Rightarrow> header" where
  "set_app_headers a h =
     (let h1 = Header_Set h SystemIdHeader (Itoa (ad_SystemId a));
          h2 = Header_Set h1 DomainIdHeader (Itoa (ad_DomainId a));
          h3 = Header_Set h2 ServiceIdHeader (Itoa (ad_ServiceId a));
          h4 = Header_Set h3 ApplicationIdHeader (Itoa (ad_ApplicationId a))
      in Header_Set h4 ApplicationNameHeader (base64_encode (ad_AppName a)))"

definition setHttpHeaders :: "'w ext \<Rightarrow> 'w \<Rightarrow> Context \<Rightarrow> header \<Rightarrow> bool \<Rightarrow> header res" where
  "setHttpHeaders x w c header skipAuth =
     (let h1 = Header_Set header RequestIdHeader (x_requestid_FromContext x (Context_Context c)) in
      if skipAuth then Ok h1
      else
        (case (case GetUserAuthData c of
                 Ok u \<Rightarrow> Ok (set_user_headers x w u h1) | Err e \<Rightarrow> Ok h1 | Panic \<Rightarrow> Panic) of
           Ok h2 \<Rightarrow>
             (case (case GetAuthData c of
                      Ok a \<Rightarrow> Ok (set_app_headers a h2) | Err e \<Rightarrow> Ok h2 | Panic \<Rightarrow> Panic) of
                Ok h3 \<Rightarrow>
                  (if rc_adminAuthenticated c then Ok (Header_Set h3 xAdminIdHeader (Itoa (rc_adminId c)))
                   else Ok (Header_Del h3 xAdminIdHeader))
              | r \<Rightarrow> r)
         | r \<Rightarrow> r))"

section \<open>gRPC metadata\<close>

text \<open>Assigning a key of the cloned map of extra headers.\<close>

definition assign_entry :: "string \<Rightarrow> string list \<Rightarrow> extra_headers \<Rightarrow> extra_headers" where
  "assign_entry key vals m =
     (if key \<in> set (map fst m) then map (\<lambda>(k, vs). if k = key then (k, vals) else (k, vs)) m
      else m @ [(key, vals)])"

definition md_app :: "AppAuthData \<Rightarrow> metadata \<Rightarrow> metadata" where
  "md_app a md =
     md(SystemIdHeader \<mapsto> [Itoa (ad_SystemId a)],
        DomainIdHeader \<mapsto> [Itoa (ad_DomainId a)],
        ServiceIdHeader \<mapsto> [Itoa (ad_ServiceId a)],
        ApplicationIdHeader \<mapsto> [Itoa (ad_ApplicationId a)],
        ApplicationNameHeader \<mapsto> [base64_encode (ad_AppName a)])"

text \<open>A clone of a \<open>nil\<close> map is \<open>nil\<close>, and assigning to it panics.\<close>

definition md_user :: "'w ext \<Rightarrow> 'w \<Rightarrow> UserAuthData \<Rightarrow> metadata \<Rightarrow> metadata res" where
  "md_user x w u md =
     (case ud_ExtraHeaders u of
        None \<Rightarrow> Panic
      | Some m \<Rightarrow>
          Ok (fold (\<lambda>(header, vals) md.
                 (let header = to_lower (x_unicode_lower x) header in
                  if has_prefix header ''x-'' then x_md_Set x md header vals else md))
               (x_map_order x w (assign_entry (ud_IdentityHeader u) [ud_Identity u] m)) md))"

definition writeMetadata :: "'w ext \<Rightarrow> 'w \<Rightarrow> Context \<Rightarrow> bool \<Rightarrow> metadata res" where
  "writeMetadata x w c skipAuth =
     (let requestId = x_requestid_FromContext x (Context_Context c);
          md = [x_ProxyMethodNameHeader x \<mapsto> [me_Endpoint (rc_endpointMeta c)], RequestIdHeader \<mapsto> [requestId]] in
      if skipAuth then Ok md
      else
        (case (case GetAuthData c of Ok a \<Rightarrow> Ok (md_app a md) | Err e \<Rightarrow> Ok md | Panic \<Rightarrow> Panic) of
           Ok md1 \<Rightarrow>
             (case (case GetUserAuthData c of Ok u \<Rightarrow> md_user x w u md1 | Err e \<Rightarrow> Ok md1 | Panic \<Rightarrow> Panic) of
                Ok md2 \<Rightarrow>
                  (if rc_adminAuthenticated c then Ok (md2(xAdminIdHeader \<mapsto> [Itoa (rc_adminId c)])) else Ok md2)
              | r \<Rightarrow> r)
         | r \<Rightarrow> r))"

section \<open>The gRPC proxy\<close>

definition writeResponse :: "'w ext \<Rightarrow> nat \<Rightarrow> bytes \<Rightarrow> string \<Rightarrow> 'w handler" where
  "writeResponse x statusCode data requestId s =
     (let s1 = ctx_SetHeader ''Content-Type'' ''application/json; charset=utf-8'' s;
          s2 = (if requestId \<noteq> [] then ctx_SetHeader RequestIdHeader requestId s1 else s1);
          s3 = ctx_WriteHeader x statusCode s2
      in case ctx_Write x data s3 of
           (Some e, s4) \<Rightarrow> (Err (WithMessage (ExternalError e) ''response write''), s4)
         | (None, s4) \<Rightarrow> (Ok (), s4))"

definition writeProto :: "'w ext \<Rightarrow> nat \<Rightarrow> json \<Rightarrow> 'w handler" where
  "writeProto x statusCode proto s =
     (case x_marshal_json x proto of
        Inl e \<Rightarrow> (Err (WithMessage (ExternalError e) ''marshal grpc details to json''), s)
      | Inr data \<Rightarrow> writeResponse x statusCode data [] s)"

text \<open>The loop over the details; \<open>last\<close> is what follows it.\<close>

fun write_details :: "'w ext \<Rightarrow> nat \<Rightarrow> grpc_detail list \<Rightarrow> 'w handler \<Rightarrow> 'w handler" where
  "write_details x statusCode [] lst s = lst s"
| "write_details x statusCode (OtherDetail j # ds) lst s = writeProto x statusCode j s"
| "write_details x statusCode (IspMessage b l st # ds) lst s =
     (case b of
        Some data \<Rightarrow> writeResponse x statusCode data [] s
      | None \<Rightarrow>
          (case l of
             Some j \<Rightarrow> writeProto x statusCode j s
           | None \<Rightarrow>
               (case st of
                  Some j \<Rightarrow> writeProto x statusCode j s
                | None \<Rightarrow> write_details x statusCode ds lst s)))"

definition handleError :: "'w ext \<Rightarrow> grpc_error \<Rightarrow> string \<Rightarrow> 'w handler" where
  "handleError x err endpoint s =
     (case ge_status err of
        None \<Rightarrow>
          (Err (New_HttpError StatusServiceUnavailable ''upstream is not available''
                  (WithMessage (ExternalError (ge_text err)) ''grpc proxy'')), s)
      | Some (code, message, details) \<Rightarrow>
          (let statusCode = codeToHttpStatus code in
           write_details x statusCode details
             (\<lambda>s. (Err (New_HttpError statusCode message
                      (WithMessage (ExternalError (ge_text err))
                         (''isp-routing-service: proxy '' @ quoted endpoint))), s)) s))"

definition consume_body :: "Context \<Rightarrow> Context" where
  "consume_body c = c\<lparr>rc_request := (rc_request c)\<lparr>rq_Body := consumed (rq_Body (rc_request c))\<rparr>\<rparr>"

text \<open>\<open>cli = None\<close> is the client a map lookup that missed has returned, a \<open>nil\<close> pointer.\<close>

definition Grpc_Handle :: "'w ext \<Rightarrow> string option \<Rightarrow> bool \<Rightarrow> duration \<Rightarrow> 'w handler" where
  "Grpc_Handle x cli skipAuth timeout s =
     (let s1 = on_ctx consume_body s in
      case ReadAll (rq_Body (rc_request (g_ctx s))) of
        Inl e \<Rightarrow> (Err (WithMessage (ExternalError e) ''grpc: read body''), s1)
      | Inr body \<Rightarrow>
          (let requestId = x_requestid_FromContext x (Context_Context (g_ctx s1)) in
           case writeMetadata x (g_world s1) (g_ctx s1) skipAuth of
             Panic \<Rightarrow> (Panic, s1)
           | Err e \<Rightarrow> (Err e, s1)
           | Ok md \<Rightarrow>
               (case cli of
                  None \<Rightarrow> (Panic, s1)
                | Some client \<Rightarrow>
                    (case in_world (x_backend_request x client md timeout body) s1 of
                       (Inl err, s2) \<Rightarrow> handleError x err (me_Endpoint (rc_endpointMeta (g_ctx s2))) s2
                     | (Inr result, s2) \<Rightarrow> writeResponse x StatusOK result requestId s2))))"

section \<open>The HTTP proxy\<close>

text \<open>
  What \<open>ReverseProxy\<close> does with an answer: the interim answers first (after each the header is
  empty again), then the header, the status and the body.
\<close>

definition write_interim :: "'w ext \<Rightarrow> nat list \<Rightarrow> 'w gate \<Rightarrow> 'w gate" where
  "write_interim x interim s =
     fold (\<lambda>code s. (let s1 = ctx_WriteHeader x code s in s1\<lparr>g_rw := (g_rw s1)\<lparr>rw_Header := Map.empty\<rparr>\<rparr>)) interim s"

definition copy_headers :: "extra_headers \<Rightarrow> 'w gate \<Rightarrow> 'w gate" where
  "copy_headers entries s = s\<lparr>g_rw := (g_rw s)\<lparr>rw_Header := add_extra_headers entries (rw_Header (g_rw s))\<rparr>\<rparr>"

definition write_answer :: "'w ext \<Rightarrow> nat list \<Rightarrow> nat \<Rightarrow> extra_headers \<Rightarrow> bytes \<Rightarrow> 'w gate \<Rightarrow> 'w gate" where
  "write_answer x interim status header body s =
     snd (ctx_Write x body (ctx_WriteHeader x status (copy_headers header (write_interim x interim s))))"

definition set_path :: "Context \<Rightarrow> Context" where
  "set_path c = c\<lparr>rc_request := (rc_request c)\<lparr>rq_Path := me_Endpoint (rc_endpointMeta c)\<rparr>\<rparr>"

definition set_header :: "header \<Rightarrow> Context \<Rightarrow> Context" where
  "set_header h c = c\<lparr>rc_request := (rc_request c)\<lparr>rq_Header := h\<rparr>\<rparr>"

text \<open>\<open>hostManager.Next()\<close>; \<open>None\<close> is a \<open>nil\<close> host manager.\<close>

definition next_host :: "('w \<Rightarrow> (string + string) \<times> 'w) option \<Rightarrow> 'w gate \<Rightarrow> string res \<times> 'w gate" where
  "next_host hostManager s =
     (case hostManager of
        None \<Rightarrow> (Panic, s)
      | Some Next \<Rightarrow> (case in_world Next s of (r, s1) \<Rightarrow> (of_external r, s1)))"

definition Http_Handle ::
  "'w ext \<Rightarrow> ('w \<Rightarrow> (string + string) \<times> 'w) option \<Rightarrow> bool \<Rightarrow> duration \<Rightarrow> 'w handler" where
  "Http_Handle x hostManager skipAuth timeout s =
     (case next_host hostManager s of
        (Panic, s1) \<Rightarrow> (Panic, s1)
      | (Err e, s1) \<Rightarrow> (Err (WithMessage e ''http: next host''), s1)
      | (Ok host, s1) \<Rightarrow>
          (case x_url_parse x (''http://'' @ host) of
             Some e \<Rightarrow> (Err (WithMessage (ExternalError e) ''http: parse url''), s1)
           | None \<Rightarrow>
               (let s2 = on_ctx set_path s1 in
                case setHttpHeaders x (g_world s2) (g_ctx s2) (rq_Header (rc_request (g_ctx s2))) skipAuth of
                  Panic \<Rightarrow> (Panic, s2)
                | Err e \<Rightarrow> (Err e, s2)
                | Ok h \<Rightarrow>
                    (let s3 = on_ctx (set_header h) s2 in
                     case in_world (x_forward_http x host (rc_request (g_ctx s3)) timeout) s3 of
                       (out, s4) \<Rightarrow>
                         (let s5 = on_ctx consume_body s4 in
                          case out of
                            ForwardError e \<Rightarrow>
                              (Err (New_HttpError StatusServiceUnavailable ''upstream is not available''
                                      (WithMessage (ExternalError e) (''http proxy to '' @ host))), s5)
                          | ForwardResponse interim status header body \<Rightarrow>
                              (Ok (), write_answer x interim status header body s5)
                          | ForwardAbort interim status header body \<Rightarrow>
                              (Panic, write_answer x interim status header body s5)
                          | ForwardTunnelled \<Rightarrow> (Ok (), s5))))))"

section \<open>The WebSocket proxy\<close>

text \<open>
  The director sets the headers of the outgoing handshake, which the library builds; it panics
  when \<open>setHttpHeaders\<close> does, whatever these headers are.
\<close>

definition Ws_Handle :: "'w ext \<Rightarrow> ('w \<Rightarrow> (string + string) \<times> 'w) option \<Rightarrow> bool \<Rightarrow> 'w handler" where
  "Ws_Handle x hostManager skipAuth s =
     (case next_host hostManager s of
        (Panic, s1) \<Rightarrow> (Panic, s1)
      | (Err e, s1) \<Rightarrow> (Err (WithMessage e ''ws: next host''), s1)
      | (Ok host, s1) \<Rightarrow>
          (case x_url_parse x (''ws://'' @ host) of
             Some e \<Rightarrow> (Err (WithMessage (ExternalError e) ''ws: parse url''), s1)
           | None \<Rightarrow>
               (let s2 = on_ctx set_path s1;
                    director = (\<lambda>out. setHttpHeaders x (g_world s2) (g_ctx s2) out skipAuth) in
                if director Map.empty = Panic then (Panic, s2)
                else
                  (case in_world (x_forward_ws x host (rc_request (g_ctx s2))
                                    (\<lambda>out. case director out of Ok h \<Rightarrow> h | _ \<Rightarrow> out)
                                    (Hijack (g_rw s2))) s2 of
                     (WsUpgradeError e, s3) \<Rightarrow>
                       (Err (New_HttpError StatusServiceUnavailable ''upstream is not available''
                               (WithMessage (ExternalError e) (''ws proxy to '' @ host))), s3)
                   | (WsAnswered status header body, s3) \<Rightarrow> (Ok (), write_answer x [] status header body s3)
                   | (WsTunnelled, s3) \<Rightarrow> (Ok (), s3)))))"

section \<open>The table of statuses\<close>

lemma init_find:
  "init entries c = map_option fst (find (\<lambda>p. snd p = c) (rev entries))"
  unfolding init_def using fold_map_upd [of snd fst entries Map.empty c]
  by (simp add: case_prod_unfold split: option.splits)

lemma find_unique:
  assumes "distinct (map snd xs)" "p \<in> set xs"
  shows "find (\<lambda>q. snd q = snd p) xs = Some p"
  using assms by (induction xs) (auto simp: image_iff)

lemma init_mset:
  assumes "mset entries = mset codeMap"
  shows "init entries c = inverseCodeMap c"
proof -
  have d: "distinct (map snd codeMap)" by (simp add: codeMap_def codes_defs)
  have s: "set (rev entries) = set (rev codeMap)" using mset_eq_setD [OF assms] by simp
  have "mset (map snd entries) = mset (map snd codeMap)" using assms by simp
  then have d': "distinct (map snd (rev entries))"
    using d by (metis distinct_rev mset_eq_imp_distinct_iff rev_map)
  have d'': "distinct (map snd (rev codeMap))" using d by (simp add: rev_map [symmetric])
  show ?thesis
  proof (cases "\<exists>p \<in> set (rev codeMap). snd p = c")
    case True
    then obtain p where p: "p \<in> set (rev codeMap)" "snd p = c" by blast
    then have "p \<in> set (rev entries)" using s by simp
    from find_unique [OF d' this] find_unique [OF d'' p(1)] p(2) show ?thesis
      by (simp add: inverseCodeMap_def init_find)
  next
    case False
    then have "find (\<lambda>p. snd p = c) (rev codeMap) = None" "find (\<lambda>p. snd p = c) (rev entries) = None"
      using s by (auto simp: find_None_iff)
    then show ?thesis by (simp add: inverseCodeMap_def init_find)
  qed
qed

text \<open>The statuses clients see, by the number of the gRPC code.\<close>

definition grpc_status_table :: "nat \<Rightarrow> nat" where
  "grpc_status_table code =
     (if code = 0 then 200 else if code = 1 then 408 else if code = 3 then 400 else if code = 4 then 504
      else if code = 5 then 404 else if code = 6 then 409 else if code = 7 then 403 else if code = 8 then 429
      else if code = 9 then 412 else if code = 12 then 501 else if code = 14 then 503
      else if code = 16 then 401 else 500)"

lemma codeToHttpStatus_table: "codeToHttpStatus code = grpc_status_table code"
  by (simp add: codeToHttpStatus_def inverseCodeMap_def init_def codeMap_def codes_defs status_defs
      grpc_status_table_def)

section \<open>Identity headers\<close>

text \<open>The names of the headers the gateway identifies the caller with.\<close>

definition identity_headers :: "string list" where
  "identity_headers =
     [SystemIdHeader, DomainIdHeader, ServiceIdHeader, ApplicationIdHeader, ApplicationNameHeader]"

definition identity_value :: "AppAuthData \<Rightarrow> string \<Rightarrow> string" where
  "identity_value a k =
     (if k = SystemIdHeader then Itoa (ad_SystemId a)
      else if k = DomainIdHeader then Itoa (ad_DomainId a)
      else if k = ServiceIdHeader then Itoa (ad_ServiceId a)
      else if k = ApplicationIdHeader then Itoa (ad_ApplicationId a)
      else base64_encode (ad_AppName a))"

lemmas header_names =
  RequestIdHeader_def SystemIdHeader_def DomainIdHeader_def ServiceIdHeader_def ApplicationIdHeader_def
  ApplicationNameHeader_def xAdminIdHeader_def

text \<open>The canonical forms of the names.\<close>

lemma canonical_names [simp]:
  "CanonicalMIMEHeaderKey RequestIdHeader = ''X-Request-Id''"
  "CanonicalMIMEHeaderKey SystemIdHeader = ''X-System-Identity''"
  "CanonicalMIMEHeaderKey DomainIdHeader = ''X-Domain-Identity''"
  "CanonicalMIMEHeaderKey ServiceIdHeader = ''X-Service-Identity''"
  "CanonicalMIMEHeaderKey ApplicationIdHeader = ''X-Application-Identity''"
  "CanonicalMIMEHeaderKey ApplicationNameHeader = ''X-Application-Name''"
  "CanonicalMIMEHeaderKey xAdminIdHeader = ''X-Admin-Id''"
  by code_simp+

lemma set_header_keeps [simp]:
  "GetAuthData (set_header h c) = GetAuthData c"
  "GetUserAuthData (set_header h c) = GetUserAuthData c"
  "Context_Context (set_header h c) = Context_Context c"
  "rc_endpointMeta (set_header h c) = rc_endpointMeta c"
  "rc_adminAuthenticated (set_header h c) = rc_adminAuthenticated c"
  "rc_adminId (set_header h c) = rc_adminId c"
  by (simp_all add: set_header_def GetAuthData_def GetUserAuthData_def Context_Context_def)

lemma consume_body_keeps [simp]:
  "GetAuthData (consume_body c) = GetAuthData c"
  "GetUserAuthData (consume_body c) = GetUserAuthData c"
  "Context_Context (consume_body c) = Context_Context c"
  "rc_endpointMeta (consume_body c) = rc_endpointMeta c"
  "rc_adminAuthenticated (consume_body c) = rc_adminAuthenticated c"
  "rc_adminId (consume_body c) = rc_adminId c"
  "rc_responseWriter (consume_body c) = rc_responseWriter c"
  by (simp_all add: consume_body_def GetAuthData_def GetUserAuthData_def Context_Context_def)

lemma Values_app_headers:
  "k \<in> set identity_headers \<Longrightarrow> Header_Values (set_app_headers a h) k = [identity_value a k]"
  by (auto simp: identity_headers_def set_app_headers_def identity_value_def Let_def)

lemma setHttpHeaders_not_Err: "setHttpHeaders x w c h skipAuth \<noteq> Err e"
  by (auto simp: setHttpHeaders_def Let_def split: res.splits)

lemma setHttpHeaders_wf:
  "wf_context ul c \<Longrightarrow> \<exists>h'. setHttpHeaders x w c h skipAuth = Ok h'"
  using wf_context_getters [of ul c]
  by (auto simp: setHttpHeaders_def Let_def split: res.splits)

lemma Values_add_value:
  "Header_Values (fold (\<lambda>value h. Header_Add h key value) vals h) k =
     (if same_header k key then Header_Values h k @ vals else Header_Values h k)"
  by (induction vals arbitrary: h) (auto simp: Header_Values_def Header_Add_def)

lemma Values_add_extra_headers:
  "Header_Values (add_extra_headers entries h) k =
     Header_Values h k @ concat (map snd (filter (\<lambda>e. same_header k (fst e)) entries))"
  by (induction entries arbitrary: h) (auto simp: add_extra_headers_def Values_add_value)

lemma Values_app_headers_other:
  "\<forall>n \<in> set identity_headers. \<not> same_header k n \<Longrightarrow> Header_Values (set_app_headers a h) k = Header_Values h k"
  by (simp add: identity_headers_def set_app_headers_def Let_def)

lemma writeResponse_direct:
  assumes "direct s" "200 \<le> status"
  shows "fst (writeResponse x status data i s) = Ok () \<and> answered s status data (snd (writeResponse x status data i s)) \<and>
    Header_Get (final_header (g_rw (snd (writeResponse x status data i s)))) ''Content-Type'' =
      ''application/json; charset=utf-8''"
proof -
  let ?s2 = "if i \<noteq> [] then ctx_SetHeader RequestIdHeader i (ctx_SetHeader ''Content-Type'' ''application/json; charset=utf-8'' s)
    else ctx_SetHeader ''Content-Type'' ''application/json; charset=utf-8'' s"
  have d: "direct ?s2" using assms(1) by simp
  have "CanonicalMIMEHeaderKey ''Content-Type'' = ''Content-Type''" by code_simp
  then have h: "Header_Get (rw_Header (g_rw ?s2)) ''Content-Type'' = ''application/json; charset=utf-8''"
    by (simp add: Header_Get_Values)
  have w: "rw_WriteError (g_rw ?s2) = None" using d by (simp add: direct_def)
  note wh = ctx_WriteHeader_direct [OF d assms(2), of x]
  have "ctx_Write x data (ctx_WriteHeader x status ?s2) =
      (None, (ctx_WriteHeader x status ?s2)\<lparr>g_rw := (g_rw (ctx_WriteHeader x status ?s2))
         \<lparr>rw_Body := rw_Body (g_rw (ctx_WriteHeader x status ?s2)) @ data\<rparr>\<rparr>)"
    using wh w by (intro ctx_Write_direct) simp_all
  then have "writeResponse x status data i s =
      (Ok (), (ctx_WriteHeader x status ?s2)\<lparr>g_rw := (g_rw (ctx_WriteHeader x status ?s2))
         \<lparr>rw_Body := rw_Body (g_rw (ctx_WriteHeader x status ?s2)) @ data\<rparr>\<rparr>)"
    by (simp add: writeResponse_def Let_def)
  with wh(1) h show ?thesis by (simp add: answered_def final_status_def final_header_def)
qed

lemma writeResponse_directD:
  assumes "writeResponse x status data i s = (r, s')" "direct s" "200 \<le> status"
  shows "r = Ok () \<and> answered s status data s'"
  using writeResponse_direct [OF assms(2,3), of x data i] assms(1) by simp

text \<open>The first detail of a status that has something to show.\<close>

fun detail_answer :: "'w ext \<Rightarrow> grpc_detail list \<Rightarrow> (string + bytes) option" where
  "detail_answer x [] = None"
| "detail_answer x (OtherDetail j # ds) = Some (x_marshal_json x j)"
| "detail_answer x (IspMessage (Some b) l st # ds) = Some (Inr b)"
| "detail_answer x (IspMessage None (Some j) st # ds) = Some (x_marshal_json x j)"
| "detail_answer x (IspMessage None None (Some j) # ds) = Some (x_marshal_json x j)"
| "detail_answer x (IspMessage None None None # ds) = detail_answer x ds"

lemma write_details_eq:
  "write_details x status ds lst s =
     (case detail_answer x ds of
        None \<Rightarrow> lst s
      | Some (Inl e) \<Rightarrow> (Err (WithMessage (ExternalError e) ''marshal grpc details to json''), s)
      | Some (Inr data) \<Rightarrow> writeResponse x status data [] s)"
  by (induction x ds rule: detail_answer.induct) (simp_all add: writeProto_def)

lemma grpc_status_table_bounds: "200 \<le> grpc_status_table code"
  by (simp add: grpc_status_table_def)

section \<open>Properties\<close>

text \<open>
  C27. The status of a gRPC code: the inverse table that \<open>init\<close> builds does not depend on the order
  in which the map is ranged over, and it gives every code of the table its status and any other
  code 500.
\<close>

theorem codeMap_inverse:
  assumes "mset entries = mset codeMap"
  shows "(case init entries code of None \<Rightarrow> StatusInternalServerError | Some status \<Rightarrow> status) = grpc_status_table code"
  using init_mset [OF assms] codeToHttpStatus_table [of code] by (simp add: codeToHttpStatus_def)

theorem codeMap_inverse_witness:
  "(case init (rev codeMap) 16 of None \<Rightarrow> StatusInternalServerError | Some status \<Rightarrow> status) = 401"
  using codeMap_inverse [of "rev codeMap" 16] by (simp add: grpc_status_table_def)

text \<open>
  C21. No client can speak for another application: once an application is authenticated, every
  identity header of the proxied HTTP or WebSocket request holds exactly the gateway's value,
  whatever headers the client sent and whatever extra headers the user data has; the administrator
  header is the authenticated administrator's or absent; and the name of the application can be
  read back from its header.
\<close>

theorem http_identity_headers:
  assumes "GetAuthData c = Ok a" "setHttpHeaders x w c h False = Ok h'"
  shows "list_all (\<lambda>k. Header_Values h' k = [identity_value a k]) identity_headers
    \<and> Header_Values h' xAdminIdHeader = (if rc_adminAuthenticated c then [Itoa (rc_adminId c)] else [])
    \<and> base64_decode (Header_Get h' ApplicationNameHeader) = Some (ad_AppName a)"
proof -
  obtain g where h': "h' = (if rc_adminAuthenticated c
      then Header_Set (set_app_headers a g) xAdminIdHeader (Itoa (rc_adminId c))
      else Header_Del (set_app_headers a g) xAdminIdHeader)"
    using assms by (auto simp: setHttpHeaders_def Let_def split: res.splits if_splits)
  have v: "k \<in> set identity_headers \<Longrightarrow> Header_Values h' k = [identity_value a k]" for k
    using Values_app_headers [of k a g] unfolding h' by (auto simp: identity_headers_def)
  moreover have "identity_value a ApplicationNameHeader = base64_encode (ad_AppName a)"
    by (simp add: identity_value_def header_names)
  ultimately have "Header_Values h' ApplicationNameHeader = [base64_encode (ad_AppName a)]"
    by (metis identity_headers_def list.set_intros)
  then have "base64_decode (Header_Get h' ApplicationNameHeader) = Some (ad_AppName a)"
    by (simp add: Header_Get_Values base64_roundtrip)
  moreover have "Header_Values h' xAdminIdHeader = (if rc_adminAuthenticated c then [Itoa (rc_adminId c)] else [])"
    unfolding h' by simp
  ultimately show ?thesis using v by (simp add: list_all_iff)
qed

text \<open>
  The extra headers of a user are added behind what the client sent: for a header that the
  gateway sets in no other way, the values of the proxied request start with the client's, so a
  reader of the first value sees the client's choice. This holds for the identity headers too when
  no application is authenticated (the user settings let it be skipped).
\<close>

lemma http_extra_headers_appended:
  assumes "GetUserAuthData c = Ok u" "ud_ExtraHeaders u = Some m" "setHttpHeaders x w c h False = Ok h'"
    and "list_all (\<lambda>n. \<not> same_header k n)
      (RequestIdHeader # xAdminIdHeader # ud_IdentityHeader u #
       (case GetAuthData c of Ok a \<Rightarrow> identity_headers | _ \<Rightarrow> []))"
  shows "Header_Values h' k =
    Header_Values h k @ concat (map snd (filter (\<lambda>e. same_header k (fst e)) (x_map_order x w m)))"
  using assms
  by (auto simp: setHttpHeaders_def Let_def set_user_headers_def Values_add_extra_headers list_all_iff
      Values_app_headers_other split: res.splits if_splits)


text \<open>
  C38. The gRPC proxy panics on user data without extra headers: the clone of the \<open>nil\<close> map is \<open>nil\<close>,
  and the identity header is assigned to it.
\<close>

theorem grpc_nil_extra_headers_panic:
  assumes "GetUserAuthData (g_ctx s) = Ok u" "ud_ExtraHeaders u = None"
    and "ReadAll (rq_Body (rc_request (g_ctx s))) = Inr body"
  shows "fst (Grpc_Handle x cli False timeout s) = Panic"
  using assms
  by (simp add: Grpc_Handle_def writeMetadata_def md_user_def Let_def split: res.splits)

text \<open>
  C23. What the client of the gRPC proxy gets. An answer of the module is a 200 with its body; a
  status of the module with a detail that says something is the status of the table with that
  detail as the body; a status without one is an error of that status with the module's message; and
  an error that is no status is a 503.
\<close>

theorem grpc_outcome:
  assumes "direct s" "ReadAll (rq_Body (rc_request (g_ctx s))) = Inr body"
    and "writeMetadata x (g_world s) (g_ctx (on_ctx consume_body s)) skipAuth = Ok md"
    and "Grpc_Handle x (Some client) skipAuth timeout s = (r, s')"
  shows "(case fst (x_backend_request x client md timeout body (g_world s)) of
      Inr result \<Rightarrow> r = Ok () \<and> answered s 200 result s'
    | Inl err \<Rightarrow>
        (case ge_status err of
           None \<Rightarrow> g_rw s' = g_rw s \<and> (\<exists>e. r = Err (HttpError 503 ''upstream is not available'' [] e))
         | Some (code, message, details) \<Rightarrow>
             (case detail_answer x details of
                None \<Rightarrow> g_rw s' = g_rw s \<and> (\<exists>e. r = Err (HttpError (grpc_status_table code) message [] e))
              | Some (Inr data) \<Rightarrow> r = Ok () \<and> answered s (grpc_status_table code) data s'
              | Some (Inl e) \<Rightarrow> g_rw s' = g_rw s \<and> (\<exists>m. r = Err (WithMessage m ''marshal grpc details to json'')))))"
proof -
  obtain out w where out: "x_backend_request x client md timeout body (g_world s) = (out, w)" by fastforce
  let ?s = "(on_ctx consume_body s)\<lparr>g_world := w\<rparr>"
  have d: "direct ?s" using assms(1) by (simp add: consume_body_def)
  have same: "answered ?s status data s' = answered s status data s'" for status data
    by (simp add: answered_def)
  note run = assms(4) [unfolded Grpc_Handle_def Let_def] assms(2,3) out
  show ?thesis
  proof (cases out)
    case (Inr result)
    then have "writeResponse x 200 result (x_requestid_FromContext x (Context_Context (g_ctx s))) ?s = (r, s')"
      using run by (simp add: in_world_def StatusOK_def)
    from writeResponse_directD [OF this d] same show ?thesis by (simp add: out Inr)
  next
    case (Inl err)
    have wrote: "r = Ok () \<and> answered s (grpc_status_table code) data s'"
      if "writeResponse x (grpc_status_table code) data [] ?s = (r, s')" for code data
      using writeResponse_directD [OF that d grpc_status_table_bounds] same by simp
    from Inl show ?thesis
      using run wrote
      by (auto simp: in_world_def handleError_def Let_def codeToHttpStatus_table write_details_eq
          New_HttpError_def StatusServiceUnavailable_def split: option.splits sum.splits)
  qed
qed

lemma direct_interim:
  assumes "direct s" "list_all (\<lambda>c. 100 \<le> c \<and> c < 200 \<and> c \<noteq> 101) interim"
  shows "direct (write_interim x interim s) \<and> rw_Body (g_rw (write_interim x interim s)) = rw_Body (g_rw s)"
  using assms unfolding write_interim_def
proof (induction interim arbitrary: s)
  case (Cons c cs)
  let ?s = "ctx_WriteHeader x c s"
  have "direct (?s\<lparr>g_rw := (g_rw ?s)\<lparr>rw_Header := Map.empty\<rparr>\<rparr>) \<and> rw_Body (g_rw ?s) = rw_Body (g_rw s)"
    using Cons.prems by (auto simp: direct_def ctx_WriteHeader_def WriteHeader_def split: writer_ref.splits)
  with Cons.IH [of "?s\<lparr>g_rw := (g_rw ?s)\<lparr>rw_Header := Map.empty\<rparr>\<rparr>"] Cons.prems show ?case
    by (simp add: Let_def)
qed simp

lemma write_answer_direct:
  assumes "direct s" "200 \<le> status" "list_all (\<lambda>c. 100 \<le> c \<and> c < 200 \<and> c \<noteq> 101) interim"
  shows "answered s status body (write_answer x interim status header body s)"
proof -
  let ?s = "copy_headers header (write_interim x interim s)"
  note i = direct_interim [OF assms(1,3), of x]
  have d: "direct ?s" using i by (simp add: direct_def copy_headers_def)
  note wh = ctx_WriteHeader_direct [OF d assms(2), of x]
  have "rw_WriteError (g_rw ?s) = None" using d by (simp add: direct_def)
  then have "ctx_Write x body (ctx_WriteHeader x status ?s) =
      (None, (ctx_WriteHeader x status ?s)\<lparr>g_rw := (g_rw (ctx_WriteHeader x status ?s))
         \<lparr>rw_Body := rw_Body (g_rw (ctx_WriteHeader x status ?s)) @ body\<rparr>\<rparr>)"
    using wh by (intro ctx_Write_direct) simp_all
  with wh(1) i show ?thesis
    by (simp add: write_answer_def answered_def final_status_def copy_headers_def)
qed

text \<open>
  C24. What the HTTP proxy sends and what its client gets: the request goes to the host the balancer
  names, with the endpoint as its path and the gateway's headers; an answer of the module is passed
  on with its status and body (an aborted one too, and then the handler panics as the reverse proxy
  does); a tunnelled connection is left alone; and when no answer came the error is a 503 and
  nothing has been sent.
\<close>

theorem http_outcome:
  assumes "direct s" "Next (g_world s) = (Inr host, w)" "x_url_parse x (''http://'' @ host) = None"
    and "setHttpHeaders x w (set_path (g_ctx s)) (rq_Header (rc_request (g_ctx s))) skipAuth = Ok h"
    and "Http_Handle x (Some Next) skipAuth timeout s = (r, s')"
  shows "case fst (x_forward_http x host
        ((rc_request (g_ctx s))\<lparr>rq_Path := me_Endpoint (rc_endpointMeta (g_ctx s)), rq_Header := h\<rparr>) timeout w) of
      ForwardError e \<Rightarrow> g_rw s' = g_rw s \<and> (\<exists>m. r = Err (HttpError 503 ''upstream is not available'' [] m))
    | ForwardResponse interim status header body \<Rightarrow>
        r = Ok () \<and> (200 \<le> status \<longrightarrow> list_all (\<lambda>c. 100 \<le> c \<and> c < 200 \<and> c \<noteq> 101) interim \<longrightarrow> answered s status body s')
    | ForwardAbort interim status header body \<Rightarrow>
        r = Panic \<and> (200 \<le> status \<longrightarrow> list_all (\<lambda>c. 100 \<le> c \<and> c < 200 \<and> c \<noteq> 101) interim \<longrightarrow> answered s status body s')
    | ForwardTunnelled \<Rightarrow> r = Ok () \<and> g_rw s' = g_rw s"
proof -
  let ?req = "(rc_request (g_ctx s))\<lparr>rq_Path := me_Endpoint (rc_endpointMeta (g_ctx s)), rq_Header := h\<rparr>"
  obtain out w2 where out: "x_forward_http x host ?req timeout w = (out, w2)" by fastforce
  let ?s = "on_ctx consume_body ((on_ctx (set_header h) (on_ctx set_path (s\<lparr>g_world := w\<rparr>)))\<lparr>g_world := w2\<rparr>)"
  have req: "rc_request (set_header h (set_path (g_ctx s))) = ?req"
    and hd: "rq_Header (rc_request (set_path c)) = rq_Header (rc_request c)" for c
    by (simp_all add: set_header_def set_path_def)
  have d: "direct ?s" using assms(1) by (simp add: direct_def set_header_def set_path_def)
  have wrote: "answered s status body (write_answer x interim status header body ?s)"
    if "200 \<le> status" "list_all (\<lambda>c. 100 \<le> c \<and> c < 200 \<and> c \<noteq> 101) interim" for interim status header body
    using write_answer_direct [OF d that] by (simp add: answered_def)
  show ?thesis
    using assms(2-5) wrote unfolding out
    by (cases out)
       (auto simp: Http_Handle_def next_host_def in_world_def Let_def req hd out New_HttpError_def StatusServiceUnavailable_def)
qed

section \<open>Witnesses\<close>

text \<open>An authenticated application, and a user with and without extra headers.\<close>

definition sample_auth :: AppAuthData where
  "sample_auth = \<lparr>ad_AppName = ''crm'', ad_SystemId = 1, ad_DomainId = 2, ad_ServiceId = 3, ad_ApplicationId = 7\<rparr>"

definition sample_user :: "extra_headers option \<Rightarrow> UserAuthData" where
  "sample_user hs = \<lparr>ud_SkipAppAuth = False, ud_Identity = ''u1'', ud_IdentityHeader = ''x-user'', ud_ExtraHeaders = hs\<rparr>"

definition sample_context :: Context where
  "sample_context = NewContext sample_request ServerWriter zero_EndpointMeta"

theorem http_identity_headers_witness:
  "\<exists>h'. setHttpHeaders (idle :: unit ext) () (Context_Authenticate sample_auth sample_context)
      [''X-Application-Identity'' \<mapsto> [''1'']] False = Ok h' \<and>
    list_all (\<lambda>k. Header_Values h' k = [identity_value sample_auth k]) identity_headers"
proof -
  have a: "GetAuthData (Context_Authenticate sample_auth sample_context) = Ok sample_auth" by simp
  obtain h' where h: "setHttpHeaders (idle :: unit ext) () (Context_Authenticate sample_auth sample_context)
      [''X-Application-Identity'' \<mapsto> [''1'']] False = Ok h'"
    using setHttpHeaders_wf [of "\<lambda>s. s"] by (metis wf_context_steps(1) wf_NewContext sample_context_def)
  from http_identity_headers [OF a h] h show ?thesis by blast
qed

lemma http_extra_headers_appended_witness:
  "\<exists>h'. setHttpHeaders (idle :: unit ext) () (AuthenticateUser (sample_user (Some [(''X-Role'', [''reader''])])) sample_context)
      [''X-Role'' \<mapsto> [''admin'']] False = Ok h' \<and> Header_Values h' ''X-Role'' = [''admin'', ''reader'']"
proof -
  let ?c = "AuthenticateUser (sample_user (Some [(''X-Role'', [''reader''])])) sample_context"
  have u: "GetUserAuthData ?c = Ok (sample_user (Some [(''X-Role'', [''reader''])]))" by simp
  have e: "ud_ExtraHeaders (sample_user (Some [(''X-Role'', [''reader''])])) = Some [(''X-Role'', [''reader''])]"
    by (simp add: sample_user_def)
  obtain h' where h: "setHttpHeaders (idle :: unit ext) () ?c [''X-Role'' \<mapsto> [''admin'']] False = Ok h'"
    using setHttpHeaders_wf [of "\<lambda>s. s"] by (metis wf_context_steps(2) wf_NewContext sample_context_def)
  have a: "GetAuthData ?c = Err ErrNotAuthenticated"
    by (simp add: GetAuthData_def AuthenticateUser_def sample_context_def NewContext_def)
  have i: "ud_IdentityHeader (sample_user (Some [(''X-Role'', [''reader''])])) = ''x-user''"
    by (simp add: sample_user_def)
  have "list_all (\<lambda>n. \<not> same_header ''X-Role'' n) [RequestIdHeader, xAdminIdHeader, ''x-user'']"
    by code_simp
  then have "list_all (\<lambda>n. \<not> same_header ''X-Role'' n)
      (RequestIdHeader # xAdminIdHeader # ud_IdentityHeader (sample_user (Some [(''X-Role'', [''reader''])])) #
       (case GetAuthData ?c of Ok a \<Rightarrow> identity_headers | _ \<Rightarrow> []))"
    unfolding a i by simp
  from http_extra_headers_appended [OF u e h this]
  have "Header_Values h' ''X-Role'' = Header_Values [''X-Role'' \<mapsto> [''admin'']] ''X-Role'' @
      concat (map snd (filter (\<lambda>e. same_header ''X-Role'' (fst e)) [(''X-Role'', [''reader''])]))"
    by (simp add: idle_def)
  moreover have "Header_Values [''X-Role'' \<mapsto> [''admin'']] ''X-Role'' = [''admin'']" by code_simp
  ultimately show ?thesis using h by auto
qed


theorem grpc_nil_extra_headers_panic_witness:
  "fst (Grpc_Handle idle (Some ''crm'') False 5
     (on_ctx (AuthenticateUser (sample_user None)) (fresh_gate zero_EndpointMeta sample_request ()))) = Panic"
  by (rule grpc_nil_extra_headers_panic [where u = "sample_user None" and body = "[]"])
     (simp_all add: sample_user_def fresh_gate_def NewContext_def AuthenticateUser_def sample_request_def ReadAll_def
       NewBuffer_def GetUserAuthData_def)

theorem grpc_outcome_witness:
  "\<exists>s' e. Grpc_Handle idle (Some ''crm'') True 5 (fresh_gate zero_EndpointMeta sample_request ()) =
     (Err (HttpError 503 ''upstream is not available'' [] e), s')"
proof -
  let ?s = "fresh_gate zero_EndpointMeta sample_request () :: unit gate"
  have d: "direct ?s" by (simp add: direct_def fresh_gate_def NewContext_def sample_writer_def)
  have b: "ReadAll (rq_Body (rc_request (g_ctx ?s))) = Inr []"
    by (simp add: fresh_gate_def NewContext_def sample_request_def ReadAll_def NewBuffer_def)
  obtain md where m: "writeMetadata idle (g_world ?s) (g_ctx (on_ctx consume_body ?s)) True = Ok md"
    by (simp add: writeMetadata_def Let_def)
  from grpc_outcome [OF d b m prod.collapse [symmetric], of "''crm''" 5] show ?thesis
    by (auto simp: idle_def) (metis prod.collapse)
qed

theorem http_outcome_witness:
  "\<exists>s' e. Http_Handle idle (Some (\<lambda>w. (Inr ''10.0.0.1:80'', w))) True 5 (fresh_gate zero_EndpointMeta sample_request ()) =
     (Err (HttpError 503 ''upstream is not available'' [] e), s')"
proof -
  let ?s = "fresh_gate zero_EndpointMeta sample_request () :: unit gate"
  have d: "direct ?s" by (simp add: direct_def fresh_gate_def NewContext_def sample_writer_def)
  obtain h where h: "setHttpHeaders idle () (set_path (g_ctx ?s)) (rq_Header (rc_request (g_ctx ?s))) True = Ok h"
    by (simp add: setHttpHeaders_def Let_def)
  have n: "(\<lambda>w. (Inr ''10.0.0.1:80'', w)) (g_world ?s) = (Inr ''10.0.0.1:80'', ())" by simp
  have p: "x_url_parse (idle :: unit ext) (''http://'' @ ''10.0.0.1:80'') = None" by (simp add: idle_def)
  from http_outcome [where Next = "\<lambda>w. (Inr ''10.0.0.1:80'', w)" and x = "idle :: unit ext" and timeout = 5,
      OF d n p h prod.collapse [symmetric]] show ?thesis
    by (auto simp: idle_def) (metis prod.collapse)
qed

text \<open>
  C25. What the WebSocket proxy does: the handshake goes to the host the balancer names, with the endpoint
  as its path and the library's headers as the gateway changes them; a handshake the module refuses
  is passed on with its status and body, a tunnel is left alone, and when the connection of the
  client cannot be upgraded the error is a 503 and nothing has been sent.
\<close>

theorem ws_outcome:
  assumes "direct s" "Next (g_world s) = (Inr host, w)" "x_url_parse x (''ws://'' @ host) = None"
    and "wf_context ul (g_ctx s)" "Ws_Handle x (Some Next) skipAuth s = (r, s')"
    and "director = (\<lambda>out. case setHttpHeaders x w (set_path (g_ctx s)) out skipAuth of Ok h \<Rightarrow> h | _ \<Rightarrow> out)"
  shows "(\<forall>out. setHttpHeaders x w (set_path (g_ctx s)) out skipAuth = Ok (director out)) \<and>
    (case fst (x_forward_ws x host ((rc_request (g_ctx s))\<lparr>rq_Path := me_Endpoint (rc_endpointMeta (g_ctx s))\<rparr>)
            director (Hijack (g_rw s)) w) of
       WsUpgradeError e \<Rightarrow> g_rw s' = g_rw s \<and> (\<exists>m. r = Err (HttpError 503 ''upstream is not available'' [] m))
     | WsAnswered status header body \<Rightarrow> r = Ok () \<and> (200 \<le> status \<longrightarrow> answered s status body s')
     | WsTunnelled \<Rightarrow> r = Ok () \<and> g_rw s' = g_rw s)"
proof -
  let ?c = "set_path (g_ctx s)"
  have "wf_context ul ?c" using assms(4) by (simp add: wf_context_def set_path_def)
  then have ok: "setHttpHeaders x w ?c out skipAuth = Ok (director out)" for out
    using setHttpHeaders_wf [of ul ?c x w out skipAuth] unfolding assms(6) by auto
  have req: "rc_request ?c = (rc_request (g_ctx s))\<lparr>rq_Path := me_Endpoint (rc_endpointMeta (g_ctx s))\<rparr>"
    by (simp add: set_path_def)
  obtain out w2 where out: "x_forward_ws x host (rc_request ?c) director (Hijack (g_rw s)) w = (out, w2)" by fastforce
  have d: "direct ((on_ctx set_path (s\<lparr>g_world := w\<rparr>))\<lparr>g_world := w2\<rparr>)"
    using assms(1) by (simp add: direct_def set_path_def)
  have wrote: "answered s status body (write_answer x [] status header body ((on_ctx set_path (s\<lparr>g_world := w\<rparr>))\<lparr>g_world := w2\<rparr>))"
    if "200 \<le> status" for status header body
    using write_answer_direct [OF d that, of "[]"] by (simp add: answered_def)
  show ?thesis
    using assms(2,3,5) wrote ok out unfolding req [symmetric]
    by (cases out)
       (auto simp: Ws_Handle_def next_host_def in_world_def Let_def New_HttpError_def StatusServiceUnavailable_def)
qed

theorem ws_outcome_witness:
  "\<exists>s' e. Ws_Handle idle (Some (\<lambda>w. (Inr ''10.0.0.1:80'', w))) True (fresh_gate zero_EndpointMeta sample_request ()) =
     (Err (HttpError 503 ''upstream is not available'' [] e), s')"
proof -
  let ?s = "fresh_gate zero_EndpointMeta sample_request () :: unit gate"
  have d: "direct ?s" by (simp add: direct_def fresh_gate_def NewContext_def sample_writer_def)
  have n: "(\<lambda>w. (Inr ''10.0.0.1:80'', w)) (g_world ?s) = (Inr ''10.0.0.1:80'', ())" by simp
  have p: "x_url_parse (idle :: unit ext) (''ws://'' @ ''10.0.0.1:80'') = None" by (simp add: idle_def)
  have c: "wf_context (\<lambda>s. s) (g_ctx ?s)" by (simp add: fresh_gate_def wf_NewContext)
  from ws_outcome [where Next = "\<lambda>w. (Inr ''10.0.0.1:80'', w)" and x = "idle :: unit ext",
      OF d n p c prod.collapse [symmetric] refl] show ?thesis
    by (auto simp: idle_def) (metis prod.collapse)
qed

end
