(* ===== verification/Unicode_Unescape.thy ===== *)
theory Unicode_Unescape
  imports Gate_Prelude
begin

text \<open>
  \<open>helpers/unicode.go\<close>: \<open>UnescapeUnicode\<close> rewrites the \<open>\uXXXX\<close> escapes of a logged request body
  to UTF-8 with one pass over the input and one preallocated output buffer, which it writes
  through an \<open>unsafe\<close> pointer. The model keeps the two indexes, the buffer and the bounds: an
  access that Go checks and that is out of range is \<open>IndexOutOfRange\<close> (a panic), a write through
  the unchecked pointer beyond the buffer is \<open>WriteBeyondBuffer\<close> (memory corruption). The
  properties show that neither can happen and that the loop computes a reference decoder.
\<close>

datatype fault = IndexOutOfRange | WriteBeyondBuffer

type_synonym rune = "32 word"

section \<open>The code\<close>

definition hexValue :: "byte \<Rightarrow> 16 word option" where
  "hexValue b =
     (if 0x30 \<le> b \<and> b \<le> 0x39 then Some (ucast (b - 0x30))
      else if 0x61 \<le> b \<and> b \<le> 0x66 then Some (ucast (b - 0x61 + 10))
      else if 0x41 \<le> b \<and> b \<le> 0x46 then Some (ucast (b - 0x41 + 10))
      else None)"

fun parseHex_loop :: "16 word \<Rightarrow> bytes \<Rightarrow> 16 word option" where
  "parseHex_loop v [] = Some v"
| "parseHex_loop v (c # cs) =
     (case hexValue c of None \<Rightarrow> None | Some h \<Rightarrow> parseHex_loop (push_bit 4 v OR h) cs)"

definition parseHex4 :: "bytes \<Rightarrow> 16 word option" where
  "parseHex4 b = parseHex_loop 0 b"

definition isUnicodeEscape :: "bytes \<Rightarrow> nat \<Rightarrow> bool" where
  "isUnicodeEscape data i \<longleftrightarrow>
     i + 5 < length data \<and> data ! i = 0x5C \<and> data ! (i + 1) = 0x75"

text \<open>The slice expression \<open>data[lo:hi]\<close>.\<close>

definition slice :: "nat \<Rightarrow> nat \<Rightarrow> 'a list \<Rightarrow> fault + 'a list" where
  "slice lo hi xs =
     (if lo \<le> hi \<and> hi \<le> length xs then Inr (take (hi - lo) (drop lo xs)) else Inl IndexOutOfRange)"

definition decodeUnicodeEscape :: "bytes \<Rightarrow> fault + (rune \<times> nat)" where
  "decodeUnicodeEscape data =
     (case slice 2 6 data of
        Inl f \<Rightarrow> Inl f
      | Inr b1 \<Rightarrow>
          (case parseHex4 b1 of
             None \<Rightarrow> Inr (- 1, 1)
           | Some v1 \<Rightarrow>
               (if 0xD800 \<le> v1 \<and> v1 \<le> 0xDBFF \<and> isUnicodeEscape data 6
                then (case slice 8 12 data of
                        Inl f \<Rightarrow> Inl f
                      | Inr b2 \<Rightarrow>
                          (case parseHex4 b2 of
                             Some v2 \<Rightarrow>
                               (if 0xDC00 \<le> v2 \<and> v2 \<le> 0xDFFF
                                then Inr (0x10000 + (push_bit 10 (ucast v1 - 0xD800) OR (ucast v2 - 0xDC00)), 12)
                                else Inr (ucast v1, 6))
                           | None \<Rightarrow> Inr (ucast v1, 6)))
                else Inr (ucast v1, 6))))"

text \<open>
  Writes through the pointer taken at \<open>&buf[j]\<close>: the address is checked, the writes behind it are
  not.
\<close>

fun poke :: "bytes \<Rightarrow> nat \<Rightarrow> bytes \<Rightarrow> fault + bytes" where
  "poke buf j [] = Inr buf"
| "poke buf j (b # bs) =
     (if j < length buf then poke (buf[j := b]) (j + 1) bs else Inl WriteBeyondBuffer)"

definition rune_bytes :: "rune \<Rightarrow> bytes" where
  "rune_bytes r =
     (if r < 0x80 then [ucast r]
      else if r < 0x800 then [0xC0 OR ucast (drop_bit 6 r), 0x80 OR ucast (r AND 0x3F)]
      else if r < 0x10000 then
        [0xE0 OR ucast (drop_bit 12 r), 0x80 OR ucast (drop_bit 6 r AND 0x3F), 0x80 OR ucast (r AND 0x3F)]
      else
        [0xF0 OR ucast (drop_bit 18 r), 0x80 OR ucast (drop_bit 12 r AND 0x3F),
         0x80 OR ucast (drop_bit 6 r AND 0x3F), 0x80 OR ucast (r AND 0x3F)])"

definition appendRuneAt :: "bytes \<Rightarrow> nat \<Rightarrow> rune \<Rightarrow> fault + (bytes \<times> nat)" where
  "appendRuneAt buf j r =
     (if j < length buf
      then (case poke buf j (rune_bytes r) of
              Inl f \<Rightarrow> Inl f
            | Inr buf' \<Rightarrow> Inr (buf', j + length (rune_bytes r)))
      else Inl IndexOutOfRange)"

text \<open>The inner loop: the index of the next backslash, or the end.\<close>

function scan :: "bytes \<Rightarrow> nat \<Rightarrow> nat" where
  "scan data i = (if i < length data \<and> data ! i \<noteq> 0x5C then scan data (i + 1) else i)"
  by pat_completeness auto
termination
  by (relation "measure (\<lambda>(data, i). length data - i)") auto

declare scan.simps [simp del]

text \<open>\<open>copy(out[j:], src)\<close>: the number of bytes copied is the shorter of the two lengths.\<close>

definition copy_at :: "bytes \<Rightarrow> nat \<Rightarrow> bytes \<Rightarrow> fault + (bytes \<times> nat)" where
  "copy_at out j src =
     (if j \<le> length out
      then (let k = min (length out - j) (length src)
            in Inr (take j out @ take k src @ drop (j + k) out, k))
      else Inl IndexOutOfRange)"

lemma scan_progress:
  assumes "i < length data" "data ! i \<noteq> 0x5C"
  shows "i < scan data i"
proof -
  have le: "k \<le> scan data k" for k
    by (induction data k rule: scan.induct) (subst scan.simps, auto)
  show ?thesis using assms le [of "i + 1"] by (subst scan.simps) simp
qed

lemma decode_consumes: "decodeUnicodeEscape data = Inr (r, n) \<Longrightarrow> 0 < n"
  by (auto simp: decodeUnicodeEscape_def split: sum.splits option.splits if_splits)

text \<open>
  The main loop, from the indexes \<open>i\<close> (read) and \<open>j\<close> (write). Where there is no escape at \<open>i\<close>
  the code falls through to the plain copy, as after a negative rune.
\<close>

function unescape_loop :: "bytes \<Rightarrow> nat \<Rightarrow> nat \<Rightarrow> bytes \<Rightarrow> fault + bytes" where
  "unescape_loop data i j out =
     (if i < length data then
        (if data ! i \<noteq> 0x5C then
           (case slice i (scan data i) data of
              Inl f \<Rightarrow> Inl f
            | Inr block \<Rightarrow>
                (case copy_at out j block of
                   Inl f \<Rightarrow> Inl f
                 | Inr (out', k) \<Rightarrow> unescape_loop data (scan data i) (j + k) out'))
         else
           (case (if isUnicodeEscape data i then decodeUnicodeEscape (drop i data) else Inr (- 1, 1)) of
              Inl f \<Rightarrow> Inl f
            | Inr (r, consumed) \<Rightarrow>
                (if 0 \<le> sint r then
                   (case appendRuneAt out j r of
                      Inl f \<Rightarrow> Inl f
                    | Inr (out', j') \<Rightarrow> unescape_loop data (i + consumed) j' out')
                 else if j < length out then
                   unescape_loop data (i + 1) (j + 1) (out[j := data ! i])
                 else Inl IndexOutOfRange)))
      else slice 0 j out)"
  by pat_completeness auto
termination
proof (relation "measure (\<lambda>(data, i, j, out). length data - i)", goal_cases)
  case (2 data i j out block p out' k)
  then show ?case using scan_progress [of i data] by (simp add: diff_less_mono2)
next
  case (3 data i j out p r consumed q out' j')
  then have "0 < consumed"
    by (auto split: if_splits dest: decode_consumes)
  with 3 show ?case by simp
qed auto

declare unescape_loop.simps [simp del]

definition UnescapeUnicode :: "bytes \<Rightarrow> fault + bytes" where
  "UnescapeUnicode data = unescape_loop data 0 0 (replicate (length data) 0)"

text \<open>
  \<open>UnescapeUnicodeJson\<close>, which only tests and benchmarks call, goes through the JSON codec of the kit
  library, its two functions being arguments here.
\<close>

definition UnescapeUnicodeJson :: "(bytes \<Rightarrow> string + 'v) \<Rightarrow> ('v \<Rightarrow> string + bytes) \<Rightarrow> bytes \<Rightarrow> bytes" where
  "UnescapeUnicodeJson unmarshal marshal data =
     (case unmarshal data of
        Inl e \<Rightarrow> data
      | Inr body \<Rightarrow> (case marshal body of Inl e \<Rightarrow> data | Inr newData \<Rightarrow> newData))"

lemma UnescapeUnicodeJson_same_value:
  assumes "\<And>v d. marshal v = Inr d \<Longrightarrow> unmarshal d = Inr v"
  shows "unmarshal (UnescapeUnicodeJson unmarshal marshal data) = unmarshal data"
  using assms by (auto simp: UnescapeUnicodeJson_def split: sum.splits)

section \<open>UTF-8 and hexadecimal digits\<close>

text \<open>The UTF-8 encoding of a code point, by arithmetic on natural numbers.\<close>

definition utf8_encode :: "nat \<Rightarrow> bytes" where
  "utf8_encode c =
     (if c < 0x80 then [of_nat c]
      else if c < 0x800 then [0xC0 + of_nat (c div 64), 0x80 + of_nat (c mod 64)]
      else if c < 0x10000 then
        [0xE0 + of_nat (c div 4096), 0x80 + of_nat (c div 64 mod 64), 0x80 + of_nat (c mod 64)]
      else
        [0xF0 + of_nat (c div 262144), 0x80 + of_nat (c div 4096 mod 64),
         0x80 + of_nat (c div 64 mod 64), 0x80 + of_nat (c mod 64)])"

lemma or_eq_plus:
  fixes c x :: "'a::len word"
  assumes "take_bit k c = 0" "unat x < 2 ^ k"
  shows "c OR x = c + x"
proof -
  have x: "take_bit k x = x"
    using assms(2) by (intro word_unat_eq_iff [THEN iffD2])
      (simp add: unsigned_take_bit_eq take_bit_nat_eq_self)
  have "c AND x = 0"
  proof (rule bit_word_eqI)
    fix n assume "n < LENGTH('a)"
    have "\<not> bit c n" if "n < k"
      using assms(1) that by (metis bit_0_eq bit_take_bit_iff bot_apply bot_bool_def)
    moreover have "\<not> bit x n" if "\<not> n < k"
      using x that by (metis bit_take_bit_iff)
    ultimately show "bit (c AND x) n = bit (0::'a word) n"
      by (auto simp: bit_and_iff)
  qed
  then show ?thesis by (simp add: disjunctive_add_eq_or)
qed

lemma byte_eqI: "unat (b :: byte) = n mod 256 \<Longrightarrow> b = of_nat n"
  by (simp add: word_unat_eq_iff unat_of_nat)

lemma unat_drop: "unat (drop_bit n (r :: 'a::len word)) = unat r div 2 ^ n"
  unfolding unat_drop_bit_eq by (rule drop_bit_eq_div)

lemma unat_take: "unat (take_bit n (r :: 'a::len word)) = unat r mod 2 ^ n"
  unfolding unsigned_take_bit_eq by (rule take_bit_eq_mod)

lemma unat_to_byte: "unat (ucast (r :: 'a::len word) :: byte) = unat r mod 256"
  unfolding unsigned_ucast_eq by (simp add: take_bit_eq_mod)

lemma ucast_drop_bit: "(ucast (drop_bit n (r::rune)) :: byte) = of_nat (unat r div 2 ^ n)"
  by (rule byte_eqI) (simp only: unat_to_byte unat_drop)

lemma unat_and_63: "unat ((r::rune) AND 0x3F) = unat r mod 64"
proof -
  have "(0x3F :: rune) = mask 6" by (simp add: mask_eq_exp_minus_1)
  then have "r AND 0x3F = take_bit 6 r" by (simp add: take_bit_eq_mask)
  then have "unat (r AND 0x3F) = unat (take_bit 6 r)" by (rule arg_cong)
  then show ?thesis unfolding unat_take by simp
qed

lemma ucast_and_63: "(ucast ((r::rune) AND 0x3F) :: byte) = of_nat (unat r mod 64)"
  by (rule byte_eqI) (simp only: unat_to_byte unat_and_63)

lemma ucast_drop_and_63: "(ucast (drop_bit n (r::rune) AND 0x3F) :: byte) = of_nat (unat r div 2 ^ n mod 64)"
  by (rule byte_eqI) (simp only: unat_to_byte unat_and_63 unat_drop)

lemma unat_byte: "m < 256 \<Longrightarrow> unat (of_nat m :: byte) = m"
  by (simp add: unat_of_nat)

lemma lead_or:
  "m < 32 \<Longrightarrow> (0xC0 :: byte) OR of_nat m = 0xC0 + of_nat m"
  "m < 16 \<Longrightarrow> (0xE0 :: byte) OR of_nat m = 0xE0 + of_nat m"
  "m < 8 \<Longrightarrow> (0xF0 :: byte) OR of_nat m = 0xF0 + of_nat m"
  "m < 64 \<Longrightarrow> (0x80 :: byte) OR of_nat m = 0x80 + of_nat m"
  by (rule or_eq_plus [of 5], simp, simp add: unat_byte)
     (rule or_eq_plus [of 4], simp, simp add: unat_byte,
      rule or_eq_plus [of 3], simp, simp add: unat_byte,
      rule or_eq_plus [of 6], simp, simp add: unat_byte)

lemma rune_bytes_utf8:
  assumes "unat r < 0x110000"
  shows "rune_bytes r = utf8_encode (unat r)"
proof -
  have less: "r < 0x80 \<longleftrightarrow> unat r < 0x80" "r < 0x800 \<longleftrightarrow> unat r < 0x800"
    "r < 0x10000 \<longleftrightarrow> unat r < 0x10000"
    by (simp_all add: word_less_nat_alt)
  have div: "unat r div 64 < 32" if "unat r < 0x800" using that by linarith
  have div2: "unat r div 4096 < 16" if "unat r < 0x10000" using that by linarith
  have div3: "unat r div 262144 < 8" using assms by linarith
  show ?thesis
    unfolding rune_bytes_def utf8_encode_def less ucast_drop_bit ucast_and_63 unat_drop
    by (simp add: lead_or div div2 div3)
qed

lemma length_utf8: "length (utf8_encode c) = (if c < 0x80 then 1 else if c < 0x800 then 2 else if c < 0x10000 then 3 else 4)"
  by (simp add: utf8_encode_def)

lemma length_rune_bytes: "length (rune_bytes r) = (if r < 0x80 then 1 else if r < 0x800 then 2 else if r < 0x10000 then 3 else 4)"
  by (simp add: rune_bytes_def)

text \<open>The text of a 16-bit value as four hexadecimal digits.\<close>

definition hex_digit :: "nat \<Rightarrow> byte" where
  "hex_digit d = (if d < 10 then 0x30 + of_nat d else 0x57 + of_nat d)"

definition hex4 :: "nat \<Rightarrow> bytes" where
  "hex4 n = [hex_digit (n div 4096 mod 16), hex_digit (n div 256 mod 16),
             hex_digit (n div 16 mod 16), hex_digit (n mod 16)]"

lemma hexValue_hex_digit:
  assumes "d < 16"
  shows "hexValue (hex_digit d) = Some (of_nat d)"
proof -
  have "d \<in> {0, 1, 2, 3, 4, 5, 6, 7, 8, 9, 10, 11, 12, 13, 14, 15}"
    using assms by (simp only: insert_iff empty_iff) presburger
  then show ?thesis
    by (simp only: insert_iff empty_iff, elim disjE) (simp_all add: hexValue_def hex_digit_def)
qed

lemma parseHex_loop_hex_digit:
  assumes "d < 16"
  shows "parseHex_loop (of_nat m) (hex_digit d # cs) = parseHex_loop (of_nat (16 * m + d)) cs"
proof -
  have shift: "push_bit 4 (of_nat m :: 16 word) = of_nat (16 * m)"
    by (simp add: push_bit_eq_mult mult.commute)
  have "push_bit 4 (of_nat m :: 16 word) OR of_nat d = push_bit 4 (of_nat m) + of_nat d"
    using assms by (intro or_eq_plus [of 4]) (simp only: take_bit_push_bit, simp, simp add: unat_of_nat)
  then have "push_bit 4 (of_nat m :: 16 word) OR of_nat d = of_nat (16 * m + d)"
    by (simp only: shift of_nat_add)
  with assms show ?thesis by (simp only: parseHex_loop.simps hexValue_hex_digit option.case)
qed

lemma parseHex4_hex4:
  assumes "n < 65536"
  shows "parseHex4 (hex4 n) = Some (of_nat n)"
proof -
  have lt: "k mod 16 < 16" for k :: nat by simp
  have "16 * (n div 256 div 16) + n div 256 mod 16 = n div 256"
    "16 * (n div 16 div 16) + n div 16 mod 16 = n div 16" "16 * (n div 16) + n mod 16 = n"
    by (simp_all only: mult_div_mod_eq)
  moreover have "n div 256 div 16 = n div 4096 mod 16" "n div 16 div 16 = n div 256"
    using assms by (simp_all flip: div_mult2_eq)
  ultimately have
    "16 * (16 * (16 * (16 * 0 + n div 4096 mod 16) + n div 256 mod 16) + n div 16 mod 16) + n mod 16 = n"
    by simp
  moreover have "parseHex4 (hex4 n) = parseHex_loop (of_nat 0) (hex4 n)"
    by (simp add: parseHex4_def)
  ultimately show ?thesis
    by (simp only: hex4_def parseHex_loop_hex_digit [OF lt] parseHex_loop.simps(1))
qed

section \<open>The reference decoder\<close>

text \<open>
  One \<open>\uXXXX\<close> escape at the front of the text: its 16-bit value and what follows it. Two escapes
  that form a surrogate pair are one character; every other escape is the code point it names.
\<close>

fun unicode_escape :: "bytes \<Rightarrow> (16 word \<times> bytes) option" where
  "unicode_escape (x # y # a # b # c # d # rest) =
     (if x = 0x5C \<and> y = 0x75 then map_option (\<lambda>v. (v, rest)) (parseHex4 [a, b, c, d]) else None)"
| "unicode_escape _ = None"

definition escaped_char :: "bytes \<Rightarrow> (nat \<times> bytes) option" where
  "escaped_char data =
     (case unicode_escape data of
        None \<Rightarrow> None
      | Some (v1, rest) \<Rightarrow>
          (if 0xD800 \<le> unat v1 \<and> unat v1 \<le> 0xDBFF
           then (case unicode_escape rest of
                   Some (v2, rest') \<Rightarrow>
                     (if 0xDC00 \<le> unat v2 \<and> unat v2 \<le> 0xDFFF
                      then Some (0x10000 + (unat v1 - 0xD800) * 1024 + (unat v2 - 0xDC00), rest')
                      else Some (unat v1, rest))
                 | None \<Rightarrow> Some (unat v1, rest))
           else Some (unat v1, rest)))"

lemma unicode_escape_SomeD:
  "unicode_escape data = Some (v, rest) \<Longrightarrow>
     \<exists>a b c d. data = 0x5C # 0x75 # a # b # c # d # rest \<and> parseHex4 [a, b, c, d] = Some v"
  by (induction data rule: unicode_escape.induct) (auto split: if_splits)

lemma escaped_char_rest:
  assumes "escaped_char data = Some (c, rest)"
  shows "length rest < length data" "length (utf8_encode c) + length rest \<le> length data"
  using assms
  by (auto simp: escaped_char_def length_utf8 dest!: unicode_escape_SomeD
      split: option.splits prod.splits if_splits)

function unescape_spec :: "bytes \<Rightarrow> bytes" where
  "unescape_spec [] = []"
| "unescape_spec (b # bs) =
     (case escaped_char (b # bs) of
        None \<Rightarrow> b # unescape_spec bs
      | Some (c, rest) \<Rightarrow> utf8_encode c @ unescape_spec rest)"
  by pat_completeness auto
termination
  by (relation "measure length") (auto dest: escaped_char_rest)

declare unescape_spec.simps(2) [simp del]

lemma escaped_char_plain: "b \<noteq> 0x5C \<Longrightarrow> escaped_char (b # bs) = None"
  by (auto simp: escaped_char_def dest!: unicode_escape_SomeD split: option.splits)

lemma unescape_spec_plain: "b \<noteq> 0x5C \<Longrightarrow> unescape_spec (b # bs) = b # unescape_spec bs"
  by (simp add: unescape_spec.simps(2) escaped_char_plain)

section \<open>The loop computes the reference decoder\<close>

lemma isUnicodeEscape_drop: "isUnicodeEscape data i = isUnicodeEscape (drop i data) 0"
  by (auto simp: isUnicodeEscape_def)

lemma isUnicodeEscape_Cons:
  "isUnicodeEscape (0x5C # 0x75 # a # b # c # d # rest) 6 = isUnicodeEscape rest 0"
  by (simp add: isUnicodeEscape_def numeral_eq_Suc)

lemma isUnicodeEscape_split:
  assumes "isUnicodeEscape data 0"
  shows "\<exists>a b c d rest. data = 0x5C # 0x75 # a # b # c # d # rest"
  using assms by (cases data rule: unicode_escape.cases) (auto simp: isUnicodeEscape_def)

lemma unicode_escape_None: "\<not> isUnicodeEscape data 0 \<Longrightarrow> unicode_escape data = None"
  by (induction data rule: unicode_escape.induct) (auto simp: isUnicodeEscape_def)

lemma surrogates_value:
  fixes v1 v2 :: "16 word"
  assumes "0xD800 \<le> unat v1" "unat v1 \<le> 0xDBFF" "0xDC00 \<le> unat v2" "unat v2 \<le> 0xDFFF"
  shows "0x10000 + (push_bit 10 (ucast v1 - 0xD800) OR (ucast v2 - 0xDC00)) =
    (of_nat (0x10000 + (unat v1 - 0xD800) * 1024 + (unat v2 - 0xDC00)) :: rune)"
proof -
  have v1: "(ucast v1 - 0xD800 :: rune) = of_nat (unat v1 - 0xD800)"
    using assms(1) by (simp add: of_nat_diff)
  have v2: "(ucast v2 - 0xDC00 :: rune) = of_nat (unat v2 - 0xDC00)"
    using assms(3) by (simp add: of_nat_diff)
  have "push_bit 10 (of_nat (unat v1 - 0xD800) :: rune) OR of_nat (unat v2 - 0xDC00) =
      push_bit 10 (of_nat (unat v1 - 0xD800)) + of_nat (unat v2 - 0xDC00)"
    using assms(4) by (intro or_eq_plus [of 10]) (simp only: take_bit_push_bit, simp, simp only: unat_of_nat, simp)
  moreover have "push_bit 10 (of_nat (unat v1 - 0xD800) :: rune) = of_nat ((unat v1 - 0xD800) * 1024)"
    by (simp only: push_bit_eq_mult of_nat_mult) simp
  ultimately show ?thesis
    unfolding v1 v2 by (simp only: of_nat_add of_nat_numeral add.assoc)
qed

lemma sint_code_point: "n < 0x110000 \<Longrightarrow> sint (of_nat n :: rune) = int n"
  by (simp add: sint_uint uint_nat unat_of_nat) (simp add: signed_take_bit_int_eq_self)

lemma word16_le: "(c :: 16 word) \<le> v \<longleftrightarrow> unat c \<le> unat v"
  by (rule word_le_nat_alt)

text \<open>The code's decoder at an escape, against the reference.\<close>

lemma decodeUnicodeEscape_spec:
  assumes "isUnicodeEscape data 0"
  shows "decodeUnicodeEscape data =
    Inr (case escaped_char data of
           None \<Rightarrow> (- 1, 1)
         | Some (c, rest) \<Rightarrow> (of_nat c, length data - length rest))"
proof -
  obtain a b c d rest where data: "data = 0x5C # 0x75 # a # b # c # d # rest"
    using isUnicodeEscape_split [OF assms] by blast
  have sl: "slice 2 6 data = Inr [a, b, c, d]"
    by (simp add: slice_def data numeral_eq_Suc)
  show ?thesis
  proof (cases "isUnicodeEscape rest 0")
    case False
    then show ?thesis
      unfolding decodeUnicodeEscape_def sl
      by (auto simp: data isUnicodeEscape_Cons escaped_char_def unicode_escape_None split: option.splits)
  next
    case True
    obtain e f g h rest' where rest: "rest = 0x5C # 0x75 # e # f # g # h # rest'"
      using isUnicodeEscape_split [OF True] by blast
    have sl2: "slice 8 12 data = Inr [e, f, g, h]"
      by (simp add: slice_def data rest numeral_eq_Suc)
    have esc6: "isUnicodeEscape data 6"
      using True by (simp add: data isUnicodeEscape_Cons)
    show ?thesis
      unfolding decodeUnicodeEscape_def sl sl2 sum.case
      by (auto simp: data rest esc6 [unfolded data rest] escaped_char_def word16_le surrogates_value
          split: option.splits)
  qed
qed


lemma unat_word16: "unat (v :: 16 word) < 65536"
  using unsigned_less [of v, where 'a = nat] by simp

lemma escaped_char_bound: "escaped_char data = Some (c, rest) \<Longrightarrow> c < 0x110000"
  by (auto simp: escaped_char_def less_trans [OF unat_word16] split: option.splits if_splits)

lemma escaped_char_suffix:
  assumes "escaped_char data = Some (c, rest)"
  shows "rest = drop (length data - length rest) data"
proof -
  have "suffix rest data"
    using assms
    by (auto simp: escaped_char_def suffix_def dest!: unicode_escape_SomeD split: option.splits if_splits)
  then show ?thesis by (auto simp: suffix_def)
qed

lemma scan_spec:
  assumes "i \<le> length data"
  shows "i \<le> scan data i \<and> scan data i \<le> length data \<and>
    unescape_spec (drop i data) = take (scan data i - i) (drop i data) @ unescape_spec (drop (scan data i) data)"
  using assms
proof (induction data i rule: scan.induct)
  case (1 data i)
  show ?case
  proof (cases "i < length data \<and> data ! i \<noteq> 0x5C")
    case False
    then have "scan data i = i" by (subst scan.simps) auto
    then show ?thesis using "1.prems" by simp
  next
    case True
    then have i: "drop i data = data ! i # drop (i + 1) data" "data ! i \<noteq> 0x5C"
      by (simp_all add: Cons_nth_drop_Suc)
    from True "1.IH" have
      "i + 1 \<le> scan data (i + 1)" "scan data (i + 1) \<le> length data"
      "unescape_spec (drop (i + 1) data) =
         take (scan data (i + 1) - (i + 1)) (drop (i + 1) data) @ unescape_spec (drop (scan data (i + 1)) data)"
      by simp_all
    moreover have "scan data i = scan data (i + 1)"
      using True by (simp add: scan.simps [of data i])
    moreover have "scan data (i + 1) - i = Suc (scan data (i + 1) - (i + 1))"
      using \<open>i + 1 \<le> scan data (i + 1)\<close> by simp
    ultimately show ?thesis
      by (simp only: i(1) unescape_spec_plain [OF i(2)] take_Suc_Cons append_Cons) simp
  qed
qed

lemma poke_inr:
  "j + length bs \<le> length buf \<Longrightarrow>
     poke buf j bs = Inr (take j buf @ bs @ drop (j + length bs) buf)"
proof (induction bs arbitrary: buf j)
  case (Cons b bs)
  then have "poke (buf[j := b]) (j + 1) bs =
      Inr (take (j + 1) (buf[j := b]) @ bs @ drop (j + 1 + length bs) (buf[j := b]))"
    by (intro Cons.IH) simp
  moreover have "take (j + 1) (buf[j := b]) = take j buf @ [b]"
    using Cons.prems by (simp add: take_Suc_conv_app_nth)
  ultimately show ?case using Cons.prems by simp
qed simp

lemma appendRuneAt_inr:
  assumes "j + length (rune_bytes r) \<le> length buf"
  shows "appendRuneAt buf j r =
    Inr (take j buf @ rune_bytes r @ drop (j + length (rune_bytes r)) buf, j + length (rune_bytes r))"
  using assms by (auto simp: appendRuneAt_def poke_inr length_rune_bytes split: if_splits)

lemma copy_at_inr:
  assumes "j + length src \<le> length out"
  shows "copy_at out j src = Inr (take j out @ src @ drop (j + length src) out, length src)"
  using assms by (simp add: copy_at_def min_absorb2 Let_def)

lemma unescape_loop_spec:
  assumes "j \<le> i" "i \<le> length data" "length out = length data"
  shows "unescape_loop data i j out = Inr (take j out @ unescape_spec (drop i data))"
  using assms
proof (induction data i j out rule: unescape_loop.induct)
  case (1 data i j out)
  note prems = "1.prems"
  show ?case
  proof (cases "i < length data")
    case False
    then have "unescape_loop data i j out = slice 0 j out"
      by (subst unescape_loop.simps) simp
    with False prems show ?thesis by (simp add: slice_def)
  next
    case i: True
    then have cons: "drop i data = data ! i # drop (i + 1) data"
      by (simp add: Cons_nth_drop_Suc)
    show ?thesis
    proof (cases "data ! i = 0x5C")
      case False
      let ?k = "scan data i"
      obtain block where block: "block = take (?k - i) (drop i data)" by simp
      have k: "i \<le> ?k" "?k \<le> length data" "unescape_spec (drop i data) = block @ unescape_spec (drop ?k data)"
        using scan_spec [of i data] prems by (auto simp: block)
      have sl: "slice i ?k data = Inr block" and len: "length block = ?k - i"
        using k by (simp_all add: slice_def block)
      have cp: "copy_at out j block =
          Inr (take j out @ block @ drop (j + length block) out, length block)"
        using k prems len by (intro copy_at_inr) simp
      have "unescape_loop data ?k (j + length block) (take j out @ block @ drop (j + length block) out) =
          Inr (take (j + length block) (take j out @ block @ drop (j + length block) out) @ unescape_spec (drop ?k data))"
        using k prems len by (intro "1.IH"(1) [OF i False sl cp refl]) simp_all
      then show ?thesis
        using i False prems k(3) by (simp add: unescape_loop.simps [of data i] sl cp)
    next
      case bs: True
      let ?esc = "if isUnicodeEscape data i then decodeUnicodeEscape (drop i data) else Inr (- 1, 1)"
      have esc: "?esc = Inr (case escaped_char (drop i data) of None \<Rightarrow> (- 1, 1)
          | Some (c, rest) \<Rightarrow> (of_nat c, length (drop i data) - length rest))"
        by (simp add: isUnicodeEscape_drop [of data i] decodeUnicodeEscape_spec escaped_char_def
            unicode_escape_None del: length_drop)
      show ?thesis
      proof (cases "escaped_char (drop i data)")
        case None
        then have e: "?esc = Inr (- 1, 1)" by (simp add: esc)
        have spec: "unescape_spec (drop i data) = data ! i # unescape_spec (drop (i + 1) data)"
          using None unfolding cons by (simp add: unescape_spec.simps(2))
        have jo: "j < length out" using i prems by simp
        have "unescape_loop data (i + 1) (j + 1) (out[j := data ! i]) =
            Inr (take (j + 1) (out[j := data ! i]) @ unescape_spec (drop (i + 1) data))"
          using i prems by (intro "1.IH"(3) [OF i _ e refl _ jo]) (simp_all add: bs)
        moreover have "take (j + 1) (out[j := data ! i]) = take j out @ [data ! i]"
          using jo by (simp add: take_Suc_conv_app_nth)
        ultimately show ?thesis
          using i jo by (simp add: unescape_loop.simps [of data i] e bs spec)
      next
        case (Some cr)
        obtain c rest where cr: "escaped_char (drop i data) = Some (c, rest)"
          using Some by (cases cr) auto
        let ?n = "length (drop i data) - length rest"
        let ?r = "of_nat c :: rune"
        have e: "?esc = Inr (?r, ?n)" using esc cr by simp
        have c: "c < 0x110000" using cr by (rule escaped_char_bound)
        then have uc: "unat ?r = c" by (simp add: unat_of_nat)
        have rb: "rune_bytes ?r = utf8_encode c"
          using rune_bytes_utf8 [of ?r] c by (simp only: uc)
        have r0: "0 \<le> sint ?r" using sint_code_point [OF c] by simp
        have rest: "length rest < length (drop i data)"
          "length (utf8_encode c) + length rest \<le> length (drop i data)"
          using escaped_char_rest [OF cr] by simp_all
        have ap: "appendRuneAt out j ?r = Inr (take j out @ utf8_encode c @ drop (j + length (utf8_encode c)) out,
            j + length (utf8_encode c))"
          using appendRuneAt_inr [of j ?r out] rest prems by (simp add: rb)
        have "drop (i + ?n) data = rest"
          using escaped_char_suffix [OF cr] by (simp add: add.commute)
        have "unescape_loop data (i + ?n) (j + length (utf8_encode c))
            (take j out @ utf8_encode c @ drop (j + length (utf8_encode c)) out) =
            Inr (take (j + length (utf8_encode c))
              (take j out @ utf8_encode c @ drop (j + length (utf8_encode c)) out) @ unescape_spec (drop (i + ?n) data))"
          using rest prems by (intro "1.IH"(2) [OF i _ e refl r0 ap refl]) (simp_all add: bs)
        moreover have "unescape_spec (drop i data) = utf8_encode c @ unescape_spec rest"
          using cr unfolding cons by (simp add: unescape_spec.simps(2))
        ultimately show ?thesis
          using i r0 prems \<open>drop (i + ?n) data = rest\<close>
          by (simp add: unescape_loop.simps [of data i] e bs ap del: length_drop)
      qed
    qed
  qed
qed

section \<open>Escaping, the inverse\<close>

text \<open>
  A text of Unicode scalar values the way a JSON encoder with ASCII output writes it: printable
  ASCII as it is, everything else (and the backslash) as one or two \<open>\uXXXX\<close> escapes.
\<close>

definition scalar_value :: "nat \<Rightarrow> bool" where
  "scalar_value c \<longleftrightarrow> c < 0x110000 \<and> \<not> (0xD800 \<le> c \<and> c \<le> 0xDFFF)"

definition escape_char :: "nat \<Rightarrow> bytes" where
  "escape_char c =
     (if c < 0x80 \<and> c \<noteq> 0x5C then [of_nat c]
      else if c < 0x10000 then 0x5C # 0x75 # hex4 c
      else 0x5C # 0x75 # hex4 (0xD800 + (c - 0x10000) div 1024) @
           0x5C # 0x75 # hex4 (0xDC00 + (c - 0x10000) mod 1024))"

lemma unicode_escape_hex4:
  assumes "n < 65536"
  shows "unicode_escape (0x5C # 0x75 # hex4 n @ t) = Some (of_nat n, t)"
proof -
  have "unicode_escape (0x5C # 0x75 # hex4 n @ t) = map_option (\<lambda>v. (v, t)) (parseHex4 (hex4 n))"
    by (simp add: hex4_def)
  then show ?thesis by (simp add: parseHex4_hex4 [OF assms])
qed

lemma unat_of_nat16: "n < 65536 \<Longrightarrow> unat (of_nat n :: 16 word) = n"
  by (simp add: unat_of_nat)

lemma escaped_char_bmp:
  assumes "n < 65536" "\<not> (0xD800 \<le> n \<and> n \<le> 0xDBFF)"
  shows "escaped_char (0x5C # 0x75 # hex4 n @ t) = Some (n, t)"
  using assms(2) unfolding escaped_char_def unicode_escape_hex4 [OF assms(1)]
  by (auto simp: unat_of_nat16 [OF assms(1)])

lemma escaped_char_pair:
  assumes "c < 0x110000" "0x10000 \<le> c"
  shows "escaped_char (0x5C # 0x75 # hex4 (0xD800 + (c - 0x10000) div 1024) @
           0x5C # 0x75 # hex4 (0xDC00 + (c - 0x10000) mod 1024) @ t) = Some (c, t)"
proof -
  let ?h = "0xD800 + (c - 0x10000) div 1024" and ?l = "0xDC00 + (c - 0x10000) mod 1024"
  have q: "(c - 0x10000) div 1024 \<le> 0x3FF" and r: "(c - 0x10000) mod 1024 \<le> 0x3FF"
    using assms by linarith+
  then have h: "?h < 65536" and l: "?l < 65536" by simp_all
  have "0x10000 + (?h - 0xD800) * 1024 + (?l - 0xDC00) = c"
    using assms(2) by simp
  then show ?thesis
    unfolding escaped_char_def unicode_escape_hex4 [OF h] option.case prod.case
      unicode_escape_hex4 [OF l] unat_of_nat16 [OF h] unat_of_nat16 [OF l]
    using q r by simp
qed

lemma unescape_spec_escape_char:
  assumes "scalar_value c"
  shows "unescape_spec (escape_char c @ t) = utf8_encode c @ unescape_spec t"
proof -
  consider (ascii) "c < 0x80" "c \<noteq> 0x5C" | (bmp) "\<not> (c < 0x80 \<and> c \<noteq> 0x5C)" "c < 0x10000"
    | (astral) "0x10000 \<le> c" by linarith
  then show ?thesis
  proof cases
    case ascii
    then have "unat (of_nat c :: byte) \<noteq> unat (0x5C :: byte)"
      by (simp add: unat_of_nat)
    then have "(of_nat c :: byte) \<noteq> 0x5C" by metis
    with ascii show ?thesis
      by (simp add: escape_char_def utf8_encode_def unescape_spec_plain)
  next
    case bmp
    with assms have "escaped_char (0x5C # 0x75 # hex4 c @ t) = Some (c, t)"
      by (intro escaped_char_bmp) (auto simp: scalar_value_def)
    with bmp show ?thesis
      by (simp only: escape_char_def if_False if_True append_Cons unescape_spec.simps(2)) simp
  next
    case astral
    with assms have "escaped_char (0x5C # 0x75 # hex4 (0xD800 + (c - 0x10000) div 1024) @
           0x5C # 0x75 # hex4 (0xDC00 + (c - 0x10000) mod 1024) @ t) = Some (c, t)"
      by (intro escaped_char_pair) (auto simp: scalar_value_def)
    moreover have "escape_char c = 0x5C # 0x75 # hex4 (0xD800 + (c - 0x10000) div 1024) @
           0x5C # 0x75 # hex4 (0xDC00 + (c - 0x10000) mod 1024)"
      using astral by (simp add: escape_char_def)
    ultimately show ?thesis
      by (simp only: append_Cons append_assoc unescape_spec.simps(2) option.case prod.case)
  qed
qed

lemma unescape_spec_escape_text:
  assumes "\<forall>c \<in> set cs. scalar_value c"
  shows "unescape_spec (concat (map escape_char cs)) = concat (map utf8_encode cs)"
  using assms by (induction cs) (simp_all add: unescape_spec_escape_char)

lemma length_unescape_spec: "length (unescape_spec data) \<le> length data"
proof (induction data rule: unescape_spec.induct)
  case (2 b bs)
  show ?case
  proof (cases "escaped_char (b # bs)")
    case None
    with 2 show ?thesis by (simp add: unescape_spec.simps(2))
  next
    case (Some cr)
    then obtain c rest where cr: "escaped_char (b # bs) = Some (c, rest)" by (cases cr) auto
    with "2.IH"(2) [OF cr refl] escaped_char_rest(2) [OF cr] show ?thesis
      by (simp add: unescape_spec.simps(2))
  qed
qed simp

section \<open>Properties\<close>

text \<open>
  C8. \<open>UnescapeUnicode\<close> is memory safe and computes the reference decoder: for every input the
  loop ends, no index is out of range, no write through the \<open>unsafe\<close> pointer leaves the
  preallocated buffer, and the output is the text with every escape (surrogate pairs joined)
  replaced by its UTF-8 encoding.
\<close>

theorem UnescapeUnicode_correct: "UnescapeUnicode data = Inr (unescape_spec data)"
  by (simp add: UnescapeUnicode_def unescape_loop_spec)

text \<open>
  C36. Unescaping inverts escaping: for every sequence of Unicode scalar values, the escaped ASCII
  text is turned into exactly the UTF-8 encoding of the sequence, supplementary characters
  included.
\<close>

theorem UnescapeUnicode_roundtrip:
  assumes "\<forall>c \<in> set cs. scalar_value c"
  shows "UnescapeUnicode (concat (map escape_char cs)) = Inr (concat (map utf8_encode cs))"
  using assms by (simp add: UnescapeUnicode_def unescape_loop_spec unescape_spec_escape_text)

theorem UnescapeUnicode_roundtrip_witness:
  "UnescapeUnicode (concat (map escape_char [0x41C, 0x1F600, 0x41])) =
     Inr (concat (map utf8_encode [0x41C, 0x1F600, 0x41]))"
  using UnescapeUnicode_roundtrip [of "[0x41C, 0x1F600, 0x41]"] by (simp add: scalar_value_def)

text \<open>
  The output never outgrows the buffer allocated for it ("the largest possible size"): it is at
  most as long as the input.
\<close>

lemma UnescapeUnicode_length: "\<exists>out. UnescapeUnicode data = Inr out \<and> length out \<le> length data"
  by (simp add: UnescapeUnicode_def unescape_loop_spec length_unescape_spec)

text \<open>
  An escaped backslash is not recognised: in the JSON text \<open>\\uXXXX\<close>, which denotes a backslash
  followed by the letters, the function decodes the second backslash as an escape and leaves the
  first one in front of the decoded character, so the logged text is no longer the request's JSON.
\<close>

lemma UnescapeUnicode_escaped_backslash:
  assumes "n < 65536" "\<not> (0xD800 \<le> n \<and> n \<le> 0xDBFF)"
  shows "UnescapeUnicode (0x5C # 0x5C # 0x75 # hex4 n @ t) =
    Inr (0x5C # utf8_encode n @ unescape_spec t)"
proof -
  have "\<not> isUnicodeEscape (0x5C # 0x5C # 0x75 # hex4 n @ t) 0"
    by (simp add: isUnicodeEscape_def)
  then have "escaped_char (0x5C # 0x5C # 0x75 # hex4 n @ t) = None"
    by (simp add: escaped_char_def unicode_escape_None)
  then have "unescape_spec (0x5C # 0x5C # 0x75 # hex4 n @ t) =
      0x5C # unescape_spec (0x5C # 0x75 # hex4 n @ t)"
    by (simp add: unescape_spec.simps(2))
  also have "unescape_spec (0x5C # 0x75 # hex4 n @ t) = utf8_encode n @ unescape_spec t"
    using escaped_char_bmp [OF assms] by (simp add: unescape_spec.simps(2))
  finally show ?thesis by (simp add: UnescapeUnicode_def unescape_loop_spec)
qed

lemma UnescapeUnicode_escaped_backslash_witness:
  "UnescapeUnicode (0x5C # 0x5C # 0x75 # hex4 0x41 @ []) = Inr [0x5C, 0x41]"
  using UnescapeUnicode_escaped_backslash [of "0x41" "[]"] by (simp add: utf8_encode_def)

end
