(* ===== verification/Gate_Logger.thy ===== *)
theory Gate_Logger
  imports Gate_Middleware Gate_Proxy Unicode_Unescape
begin

text \<open>
  \<open>middleware/logger.go\<close>: the outermost middleware. It puts a writer of its own in front of the
  server's, the status-keeping \<open>writerWrapper\<close> or, when bodies are logged, the buffer of the
  logging library, runs what comes next and then logs the request with its outcome.
\<close>

definition unicodeEscapePrefix :: bytes where
  "unicodeEscapePrefix = [0x5C, 0x75]"

text \<open>The loop over the prefixes.\<close>

fun log_body :: "string \<Rightarrow> string list \<Rightarrow> bool" where
  "log_body endpoint [] = True"
| "log_body endpoint (p # ps) = (if has_prefix endpoint p then False else log_body endpoint ps)"

text \<open>The status the source \<open>scSrc\<close> reports: the buffer or the wrapper.\<close>

definition status_code :: "'w ext \<Rightarrow> bool \<Rightarrow> 'w gate \<Rightarrow> nat" where
  "status_code x buffered s =
     (if buffered then x_buffer_StatusCode x (g_world s) else StatusCode (g_wrapper_status s))"

definition log_fields :: "'w ext \<Rightarrow> bool \<Rightarrow> bool \<Rightarrow> http_request \<Rightarrow> string \<Rightarrow> AppAuthData \<Rightarrow> 'w gate \<Rightarrow> log_field list res" where
  "log_fields x buffered enableForceUnescapingUnicode r endpoint authData s =
     (let fs =
        [LogString ''httpMethod'' (rq_Method r),
         LogString ''remoteAddr'' (rq_RemoteAddr r),
         LogString ''xForwardedFor'' (Header_Get (rq_Header (rc_request (g_ctx s))) ''X-Forwarded-For''),
         LogInt ''statusCode'' (of_nat (status_code x buffered s)),
         LogString ''path'' (rq_Path r),
         LogString ''endpoint'' endpoint,
         LogInt ''applicationId'' (ad_ApplicationId authData),
         LogString ''applicationName'' (ad_AppName authData),
         LogInt ''adminId'' (rc_adminId (g_ctx s))];
        body = x_buffer_RequestBody x (g_world s);
        response = LogByteString ''response'' (x_buffer_ResponseBody x (g_world s))
      in if buffered then
           (if enableForceUnescapingUnicode \<and> contains body unicodeEscapePrefix then
              (case UnescapeUnicode body of
                 Inl f \<Rightarrow> Panic
               | Inr text \<Rightarrow> Ok (fs @ [LogByteString ''request'' text, response]))
            else Ok (fs @ [LogByteString ''request'' body, response]))
         else Ok fs)"

definition log_level_of :: "nat \<Rightarrow> log_level" where
  "log_level_of status =
     (if StatusInternalServerError \<le> status then ErrorLevel
      else if StatusBadRequest \<le> status then WarnLevel
      else DebugLevel)"

text \<open>What follows the call of the next handler; \<open>r\<close> is the request as it came in.\<close>

definition log_request :: "'w ext \<Rightarrow> bool \<Rightarrow> bool \<Rightarrow> http_request \<Rightarrow> string \<Rightarrow> unit res \<times> 'w gate \<Rightarrow> unit res \<times> 'w gate" where
  "log_request x buffered enableForceUnescapingUnicode r endpoint out =
     (case out of
        (Panic, s) \<Rightarrow> (Panic, s)
      | (result, s) \<Rightarrow>
          (case (case GetAuthData (g_ctx s) of Err e \<Rightarrow> Ok zero_AppAuthData | a \<Rightarrow> a) of
             Ok authData \<Rightarrow>
               (case log_fields x buffered enableForceUnescapingUnicode r endpoint authData s of
                  Ok fs \<Rightarrow> (result, log_call (log_level_of (status_code x buffered s)) ''log request'' fs s)
                | _ \<Rightarrow> (Panic, s))
           | _ \<Rightarrow> (Panic, s)))"

definition set_body :: "http_body \<Rightarrow> Context \<Rightarrow> Context" where
  "set_body b c = c\<lparr>rc_request := (rc_request c)\<lparr>rq_Body := b\<rparr>\<rparr>"

text \<open>The body is read, closed and replaced by what was read.\<close>

definition buffer_request :: "'w ext \<Rightarrow> 'w handler" where
  "buffer_request x s =
     (let body = rq_Body (rc_request (g_ctx s)); s1 = on_ctx consume_body s in
      case in_world (x_buffer_ReadRequestBody x (ReadAll body)) s1 of
        (Some e, s2) \<Rightarrow> (Err (WithMessage (ExternalError e) ''logger: read request body for logging''), s2)
      | (None, s2) \<Rightarrow>
          (case bo_close body of
             Some e \<Rightarrow> (Err (WithMessage (ExternalError e) ''logger: close request reader''), s2)
           | None \<Rightarrow>
               (Ok (), on_ctx (SetResponseWriter BufferWriter)
                         (on_ctx (set_body (NewBuffer (x_buffer_RequestBody x (g_world s2)))) s2))))"

definition Logger :: "'w ext \<Rightarrow> bool \<Rightarrow> bool \<Rightarrow> string list \<Rightarrow> bool \<Rightarrow> 'w middleware" where
  "Logger x enableRequestLogging enableBodyLogging skipBodyLoggingEndpointPrefixes
     enableForceUnescapingUnicode nxt s =
     (if \<not> enableRequestLogging then nxt s
      else
        (let r = rc_request (g_ctx s);
             endpoint = me_NormalizedEndpoint (rc_endpointMeta (g_ctx s));
             buffered = (enableBodyLogging \<and> log_body endpoint skipBodyLoggingEndpointPrefixes);
             finish = log_request x buffered enableForceUnescapingUnicode r endpoint
         in if buffered then
              (case (case buffer_request x (s\<lparr>g_world := x_buffer_Acquire x (g_world s)\<rparr>) of
                       (Ok u, s1) \<Rightarrow> finish (nxt s1)
                     | (Err e, s1) \<Rightarrow> (Err e, s1)
                     | (Panic, s1) \<Rightarrow> (Panic, s1)) of
                 (out, s2) \<Rightarrow> (out, s2\<lparr>g_world := x_buffer_Release x (g_world s2)\<rparr>))
            else
              finish (nxt (on_ctx (SetResponseWriter WrapperWriter) (s\<lparr>g_wrapper_status := 0\<rparr>)))))"

section \<open>The logger\<close>

lemma log_fields_Ok:
  "\<exists>fs. log_fields x buffered u r e a s = Ok fs \<and> LogInt ''statusCode'' (of_nat (status_code x buffered s)) \<in> set fs"
  by (auto simp: log_fields_def Let_def UnescapeUnicode_def unescape_loop_spec)

lemma log_request_Ok:
  assumes "r \<noteq> Panic" "GetAuthData (g_ctx s) \<noteq> Panic"
  shows "\<exists>fs. log_request x buffered u req e (r, s) =
      (r, log_call (log_level_of (status_code x buffered s)) ''log request'' fs s) \<and>
    LogInt ''statusCode'' (of_nat (status_code x buffered s)) \<in> set fs"
proof -
  obtain a where "(case GetAuthData (g_ctx s) of Err e \<Rightarrow> Ok zero_AppAuthData | a \<Rightarrow> a) = Ok a"
    using assms(2) by (cases "GetAuthData (g_ctx s)") auto
  with log_fields_Ok [of x buffered u req e a s] assms(1) show ?thesis
    by (cases r) (auto simp: log_request_def)
qed

text \<open>What the logger hands to the next handler: the state with its writer in place.\<close>

definition logger_opens :: "'w ext \<Rightarrow> bool \<Rightarrow> 'w gate \<Rightarrow> unit res \<times> 'w gate" where
  "logger_opens x buffered s =
     (if buffered then buffer_request x (s\<lparr>g_world := x_buffer_Acquire x (g_world s)\<rparr>)
      else (Ok (), on_ctx (SetResponseWriter WrapperWriter) (s\<lparr>g_wrapper_status := 0\<rparr>)))"

section \<open>Properties\<close>

text \<open>
  C28. The logger does not change the outcome: whatever the handler behind it returns, also an error,
  the logger returns, with the same response, and it adds exactly one entry to the log, at the
  level of the status its writer has seen (error from 500, warning from 400) and with that status
  among its fields; unescaping the body cannot make it fail.
\<close>

theorem Logger_transparent:
  assumes "buffered = (enableBody \<and> log_body (me_NormalizedEndpoint (rc_endpointMeta (g_ctx s))) skip)"
    and "logger_opens x buffered s = (Ok (), s0)" "nxt s0 = (r, s1)"
    and "r \<noteq> Panic" "GetAuthData (g_ctx s1) \<noteq> Panic"
  shows "\<exists>fs s'. Logger x True enableBody skip u nxt s = (r, s') \<and> g_rw s' = g_rw s1 \<and>
    g_log s' = g_log s1 @ [LogEntry (log_level_of (status_code x buffered s1)) (Context_Context (g_ctx s1)) ''log request'' fs] \<and>
    LogInt ''statusCode'' (of_nat (status_code x buffered s1)) \<in> set fs"
proof -
  let ?req = "rc_request (g_ctx s)" and ?e = "me_NormalizedEndpoint (rc_endpointMeta (g_ctx s))"
  obtain fs where fs: "log_request x buffered u ?req ?e (r, s1) =
      (r, log_call (log_level_of (status_code x buffered s1)) ''log request'' fs s1)"
    "LogInt ''statusCode'' (of_nat (status_code x buffered s1)) \<in> set fs"
    using log_request_Ok [OF assms(4,5)] by blast
  show ?thesis
    by (rule exI [of _ fs]; cases buffered)
       (use assms(1-3) fs in \<open>auto simp: Logger_def logger_opens_def log_call_def Let_def\<close>)
qed

theorem Logger_transparent_witness:
  "\<exists>fs s'. Logger idle True False [] True (\<lambda>s. (Ok (), ctx_WriteHeader idle 404 s))
      (fresh_gate zero_EndpointMeta sample_request ()) = (Ok (), s') \<and>
    g_log s' = [LogEntry WarnLevel [] ''log request'' fs]"
proof -
  let ?s = "fresh_gate zero_EndpointMeta sample_request () :: unit gate"
  let ?opened = "on_ctx (SetResponseWriter WrapperWriter) (?s\<lparr>g_wrapper_status := 0\<rparr>)"
  have b: "False = (False \<and> log_body (me_NormalizedEndpoint (rc_endpointMeta (g_ctx ?s))) [])" by simp
  have o: "logger_opens idle False ?s = (Ok (), ?opened)" by (simp add: logger_opens_def SetResponseWriter_def)
  let ?after = "ctx_WriteHeader idle 404 ?opened"
  have a: "GetAuthData (g_ctx ?after) \<noteq> Panic"
    by (simp add: ctx_WriteHeader_def SetResponseWriter_def fresh_gate_def NewContext_def GetAuthData_def)
  from Logger_transparent [where nxt = "\<lambda>s. (Ok (), ctx_WriteHeader idle 404 s)" and u = True, OF b o refl _ a]
  show ?thesis
    by (fastforce simp: ctx_WriteHeader_def SetResponseWriter_def fresh_gate_def NewContext_def status_code_def
        log_level_of_def StatusCode_def StatusBadRequest_def StatusInternalServerError_def Context_Context_def
        sample_request_def)
qed

end
