(* ===== verification/Gate_Locator.thy ===== *)
theory Gate_Locator
  imports Gate_Routes Gate_Logger
begin

text \<open>
  \<open>assembly/locator.go\<close> and the parts of \<open>assembly/assembly.go\<close> that decide something: which modules
  get a client, how a remote configuration becomes the handler of the server, and which location
  serves a request.
\<close>

section \<open>Clients of the modules\<close>

text \<open>The two maps of \<open>assembly.New\<close>, from module names to clients and host managers.\<close>

record Clients =
  cl_grpcClientByModuleName :: "string \<rightharpoonup> string"
  cl_httpHostManagerByModuleName :: "string \<rightharpoonup> string"

definition no_clients :: Clients where
  "no_clients = \<lparr>cl_grpcClientByModuleName = Map.empty, cl_httpHostManagerByModuleName = Map.empty\<rparr>"

text \<open>The loop over the locations in \<open>New\<close>; a client is named by its module here.\<close>

fun client_loop :: "'w ext \<Rightarrow> Location list \<Rightarrow> Clients \<Rightarrow> 'w gate \<Rightarrow> Clients res \<times> 'w gate" where
  "client_loop x [] cs s = (Ok cs, s)"
| "client_loop x (location # ls) cs s =
     (if lo_Protocol location = GrpcProtocol then
        (case in_world (x_client_Default x) s of
           (Some e, s1) \<Rightarrow> (Err (WithMessage (ExternalError e) ''new grpc client''), s1)
         | (None, s1) \<Rightarrow>
             client_loop x ls
               (cs\<lparr>cl_grpcClientByModuleName :=
                  (cl_grpcClientByModuleName cs)(lo_TargetModule location \<mapsto> lo_TargetModule location)\<rparr>) s1)
      else if lo_Protocol location = HttpProtocol \<or> lo_Protocol location = WsProtocol then
        client_loop x ls
          (cs\<lparr>cl_httpHostManagerByModuleName :=
             (cl_httpHostManagerByModuleName cs)(lo_TargetModule location \<mapsto> lo_TargetModule location)\<rparr>) s
      else (Err (NewError (''unexpected location protocol: '' @ lo_Protocol location)), s))"

text \<open>\<open>New\<close>: the clients of the locations, and one each for the system, admin and lock modules.\<close>

definition New_Assembly :: "'w ext \<Rightarrow> Location list \<Rightarrow> 'w gate \<Rightarrow> Clients res \<times> 'w gate" where
  "New_Assembly x locations s =
     (case client_loop x locations no_clients s of
        (Ok cs, s1) \<Rightarrow>
          (case in_world (x_client_Default x) s1 of
             (Some e, s2) \<Rightarrow> (Err (WithMessage (ExternalError e) ''create system cli''), s2)
           | (None, s2) \<Rightarrow>
               (case in_world (x_client_Default x) s2 of
                  (Some e, s3) \<Rightarrow> (Err (WithMessage (ExternalError e) ''create admin cli''), s3)
                | (None, s3) \<Rightarrow>
                    (case in_world (x_client_Default x) s3 of
                       (Some e, s4) \<Rightarrow> (Err (WithMessage (ExternalError e) ''create isp-lock-service client''), s4)
                     | (None, s4) \<Rightarrow> (Ok cs, s4\<lparr>g_user_cache := New\<rparr>))))
      | (r, s1) \<Rightarrow> (r, s1))"

definition routerModuleName :: string where
  "routerModuleName = ''isp-router-service''"

section \<open>The services of a configuration\<close>

text \<open>The services \<open>Locator.Handler\<close> makes, on the repositories and caches of the gateway.\<close>

definition app_authenticator :: "'w ext \<Rightarrow> conf_Remote \<Rightarrow> string \<Rightarrow> 'w gate \<Rightarrow> AuthenticateAppResponse res \<times> 'w gate" where
  "app_authenticator x config =
     Authentication_Authenticate (AuthenticationCache_Get x)
       (AuthenticationCache_Set x (seconds (cc_AuthenticationDataInSec (cr_Caching config))))
       (System_Authenticate x)"

definition user_authenticator ::
  "'w ext \<Rightarrow> (string \<rightharpoonup> userAuthSetting) \<Rightarrow> Context \<Rightarrow> 'w gate \<Rightarrow> AuthenticateUserResponse res \<times> 'w gate" where
  "user_authenticator x settings =
     UserAuthentication_Authenticate (UserAuthenticationCache_Get x) (UserAuthenticationCache_Set x)
       (UserAuth_Authenticate x) settings"

definition admin_authenticator :: "'w ext \<Rightarrow> string \<Rightarrow> 'w gate \<Rightarrow> AdminAuthenticateResponse res \<times> 'w gate" where
  "admin_authenticator x = AdminAuthenticate (Admin_Authenticate x)"

definition admin_authorizer :: "'w ext \<Rightarrow> conf_Remote \<Rightarrow> go_int \<Rightarrow> string \<Rightarrow> 'w gate \<Rightarrow> bool res \<times> 'w gate" where
  "admin_authorizer x config =
     AdminAuthorize (AuthorizationCache_Get x g_admin_cache)
       (AuthorizationCache_SetAuthorized x g_admin_cache_update
          (seconds (cc_AuthorizationDataInSec (cr_Caching config))))
       (Admin_Authorize x)"

definition app_authorizer :: "'w ext \<Rightarrow> conf_Remote \<Rightarrow> go_int \<Rightarrow> string \<Rightarrow> string \<Rightarrow> 'w gate \<Rightarrow> bool res \<times> 'w gate" where
  "app_authorizer x config =
     Authorization_Authorize (AuthorizationCache_Get x g_authz_cache)
       (AuthorizationCache_SetAuthorized x g_authz_cache_update
          (seconds (cc_AuthorizationDataInSec (cr_Caching config))))
       (System_Authorize x)"

definition throttler :: "'w ext \<Rightarrow> conf_Remote \<Rightarrow> go_int \<Rightarrow> 'w gate \<Rightarrow> RateLimitResult res \<times> 'w gate" where
  "throttler x config = AllowRateLimit (Locker_IsAllowRequestPerSecond x) (NewThrottling (cr_Throttling config))"

definition daily_checker :: "'w ext \<Rightarrow> conf_Remote \<Rightarrow> go_int \<Rightarrow> 'w gate \<Rightarrow> bool res \<times> 'w gate" where
  "daily_checker x config =
     IncrementAndCheck (now x) (x_date x) (Locker_Increment x) (NewDailyLimit (cr_DailyLimits config))"

section \<open>The handler of a location\<close>

definition forwardReqIdByAppId :: "conf_Remote \<Rightarrow> go_int \<Rightarrow> bool" where
  "forwardReqIdByAppId config =
     (let m = fold (\<lambda>setting m. m(cf_ApplicationId setting \<mapsto> cf_ForwardRequestId setting))
                (cr_ForwardReqIdClientSettings config) Map.empty
      in (\<lambda>i. case m i of None \<Rightarrow> False | Some b \<Rightarrow> b))"

text \<open>The proxy of a location, and whether it may log bodies.\<close>

definition location_proxy :: "'w ext \<Rightarrow> Clients \<Rightarrow> conf_Remote \<Rightarrow> Location \<Rightarrow> ('w handler \<times> bool) res" where
  "location_proxy x cs config location =
     (let timeout = seconds (ch_ProxyTimeoutInSec (cr_Http config));
          enableBodyLog = cl_BodyLogEnable (cr_Logging config);
          hosts = map_option (x_host_next x) (cl_httpHostManagerByModuleName cs (lo_TargetModule location)) in
      if lo_Protocol location = GrpcProtocol then
        Ok (Grpc_Handle x (cl_grpcClientByModuleName cs (lo_TargetModule location)) (lo_SkipAuth location) timeout,
            enableBodyLog)
      else if lo_Protocol location = HttpProtocol then
        Ok (Http_Handle x (if lo_TargetModule location = routerModuleName then Some (x_router_next x) else hosts)
              (lo_SkipAuth location) timeout,
            enableBodyLog)
      else if lo_Protocol location = WsProtocol then
        Ok (Ws_Handle x hosts (lo_SkipAuth location), False)
      else Err (NewError (''not supported protocol '' @ lo_Protocol location)))"

text \<open>The middlewares of a location that authenticates, after the logger.\<close>

definition access_chain ::
  "'w ext \<Rightarrow> conf_Remote \<Rightarrow> (string \<rightharpoonup> userAuthSetting) \<Rightarrow> 'w middleware list" where
  "access_chain x config settings =
     [UserAuthenticate (user_authenticator x settings),
      Authenticate x (app_authenticator x config),
      AdminAuthenticate_mw x (admin_authenticator x),
      ClientRequestId x (cr_EnableClientRequestIdForwarding config) (forwardReqIdByAppId config),
      Authorize (app_authorizer x config),
      AdminAuthorize_mw (admin_authorizer x config),
      Throttling (throttler x config),
      DailyLimit (daily_checker x config)]"

definition location_logger :: "'w ext \<Rightarrow> conf_Remote \<Rightarrow> bool \<Rightarrow> string list \<Rightarrow> 'w middleware" where
  "location_logger x config enableBodyLog skipPrefixes =
     Logger x (cl_RequestLogEnable (cr_Logging config)) enableBodyLog skipPrefixes
       (cl_EnableForceUnescapingUnicode (cr_Logging config))"

definition authenticated_handler ::
  "'w ext \<Rightarrow> conf_Remote \<Rightarrow> (string \<rightharpoonup> userAuthSetting) \<Rightarrow> bool \<Rightarrow> 'w handler \<Rightarrow> 'w handler" where
  "authenticated_handler x config settings enableBodyLog proxyFunc =
     Chain proxyFunc
       ([location_logger x config enableBodyLog (cl_SkipBodyLoggingEndpointPrefixes (cr_Logging config)),
         RequestId x, ErrorHandler x] @ access_chain x config settings @ [Metrics x])"

definition open_handler :: "'w ext \<Rightarrow> conf_Remote \<Rightarrow> bool \<Rightarrow> 'w handler \<Rightarrow> 'w handler" where
  "open_handler x config enableBodyLog proxyFunc =
     Chain proxyFunc
       [location_logger x config enableBodyLog
          (map (\<lambda>p. trim_prefix p ''/'') (cl_SkipBodyLoggingEndpointPrefixes (cr_Logging config))),
        RequestId x, ErrorHandler x,
        ClientRequestId x (cr_EnableClientRequestIdForwarding config) (forwardReqIdByAppId config),
        Metrics x]"

text \<open>The body limit in bytes; the product wraps.\<close>

definition max_body_size :: "conf_Remote \<Rightarrow> go_int64" where
  "max_body_size config = ch_MaxRequestBodySizeInMb (cr_Http config) * 1024 * 1024"

text \<open>
  The entry point holds a pointer to the routes, so it resolves a request in the table of the moment.
\<close>

type_synonym 'w routed_handler = "Routes \<Rightarrow> 'w http_handler"

definition location_entry ::
  "'w ext \<Rightarrow> Clients \<Rightarrow> conf_Remote \<Rightarrow> (string \<rightharpoonup> userAuthSetting) \<Rightarrow> Location \<Rightarrow> 'w routed_handler res" where
  "location_entry x cs config settings location =
     (case location_proxy x cs config location of
        Err e \<Rightarrow> Err e
      | Panic \<Rightarrow> Panic
      | Ok (proxyFunc, enableBodyLog) \<Rightarrow>
          (let handler =
             (if lo_SkipAuth location then open_handler x config enableBodyLog proxyFunc
              else authenticated_handler x config settings enableBodyLog proxyFunc)
           in Ok (\<lambda>routes. Entrypoint (max_body_size config) handler
                    \<lparr>ep_PathPrefix = lo_PathPrefix location, ep_WithPrefix = lo_WithPrefix location,
                     ep_ErrorOnUnknownEndpoint = (\<not> lo_SkipAuth location),
                     ep_WithLendingSlash = (lo_Protocol location \<noteq> GrpcProtocol)\<rparr>
                    (ResolveEndpoint x routes))))"

section \<open>The handler of a configuration\<close>

text \<open>The loop over the locations: the routes of the multiplexer, in order.\<close>

fun location_loop ::
  "'w ext \<Rightarrow> Clients \<Rightarrow> conf_Remote \<Rightarrow> (string \<rightharpoonup> userAuthSetting) \<Rightarrow> Location list \<Rightarrow>
   (string \<times> 'w routed_handler) list \<Rightarrow> (string \<times> 'w routed_handler) list res" where
  "location_loop x cs config settings [] mux = Ok mux"
| "location_loop x cs config settings (location # ls) mux =
     (case location_entry x cs config settings location of
        Err e \<Rightarrow> Err e
      | Panic \<Rightarrow> Panic
      | Ok entrypoint \<Rightarrow>
          location_loop x cs config settings ls (mux @ [(lo_PathPrefix location, entrypoint)]))"

definition Handler ::
  "'w ext \<Rightarrow> Clients \<Rightarrow> conf_Remote \<Rightarrow> Location list \<Rightarrow> (string \<times> 'w routed_handler) list res" where
  "Handler x cs config locations =
     (case NewUserAuthentication (cr_CustomAuth config) of
        Err e \<Rightarrow> Err (WithMessage e ''new user authentication'')
      | Panic \<Rightarrow> Panic
      | Ok settings \<Rightarrow> location_loop x cs config settings locations [])"

text \<open>
  \<open>mux.ServeHTTP\<close>: the multiplexer picks one of its routes or answers by itself (a redirect to the
  clean path, or 404).
\<close>

definition ServeHTTP :: "'w ext \<Rightarrow> (string \<times> 'w routed_handler) list \<Rightarrow> Routes \<Rightarrow> 'w http_handler" where
  "ServeHTTP x mux routes req s =
     (case x_mux_Match x (map fst mux) req of
        Some i \<Rightarrow> (if i < length mux then snd (mux ! i) routes req s else (Panic, s))
      | None \<Rightarrow> (Ok (), s\<lparr>g_rw := x_mux_Answer x req (g_rw s)\<rparr>))"

text \<open>
  \<open>ReceiveConfig\<close>: the log level is set first; the new handler comes with empty caches of
  applications and permissions, and the cache of users stays. An error keeps the handler that is
  there.
\<close>

definition ReceiveConfig ::
  "'w ext \<Rightarrow> Clients \<Rightarrow> Location list \<Rightarrow> conf_Remote \<Rightarrow>
   (string \<times> 'w routed_handler) list \<times> 'w gate \<Rightarrow> unit res \<times> (string \<times> 'w routed_handler) list \<times> 'w gate" where
  "ReceiveConfig x cs locations config server =
     (case server of
        (mux, s) \<Rightarrow>
          (let s1 = s\<lparr>g_log_level := cl_LogLevel (cr_Logging config)\<rparr> in
           case Handler x cs config locations of
             Err e \<Rightarrow> (Err (WithMessage e ''locator handler''), mux, s1)
           | Panic \<Rightarrow> (Panic, mux, s1)
           | Ok mux' \<Rightarrow>
               (Ok (), mux', s1\<lparr>g_app_cache := New, g_authz_cache := New, g_admin_cache := New\<rparr>)))"

section \<open>Properties\<close>

text \<open>
  C39. A body over the limit, or one that cannot be read, is answered with 200 when bodies are logged:
  the logger reads the body before the error handler is reached, so its error is only logged and
  the client gets an empty success.
\<close>

theorem unreadable_body_status_200:
  assumes "log_body (me_NormalizedEndpoint meta) skip" "resolve (rq_Method req) (rq_Path req) cfg = Ok meta"
    and "ReadAll (MaxBytesReader (rq_Body req) limit) = Inl e"
    and "\<And>m w. fst (x_buffer_ReadRequestBody x (Inl m) w) = Some m"
    and "rw_Sent (g_rw s) = None"
  shows "\<exists>s'. Entrypoint limit (Logger x True True skip u nxt) cfg resolve req s = (Ok (), s') \<and>
    final_status (g_rw s') = 200 \<and> rw_Body (g_rw s') = rw_Body (g_rw s)"
proof -
  obtain w where "x_buffer_ReadRequestBody x (Inl e) (x_buffer_Acquire x (g_world s)) = (Some e, w)"
    using assms(4) by (metis prod.collapse)
  then show ?thesis
    using assms(1,2,3,5)
    by (simp add: Entrypoint_def Logger_def Let_def NewContext_def buffer_request_def in_world_def consume_body_def
        log_in_def final_status_def StatusOK_def)
qed

theorem unreadable_body_status_200_witness:
  "\<exists>s'. Entrypoint 1 (Logger (idle\<lparr>x_buffer_ReadRequestBody := \<lambda>b w. (case b of Inl m \<Rightarrow> Some m | Inr d \<Rightarrow> None, w)\<rparr>)
      True True [] True (\<lambda>s. (Ok (), s)))
      \<lparr>ep_PathPrefix = [], ep_WithPrefix = True, ep_ErrorOnUnknownEndpoint = True, ep_WithLendingSlash = True\<rparr>
      (\<lambda>m p c. Ok zero_EndpointMeta) (sample_request\<lparr>rq_Body := NewBuffer [1, 2]\<rparr>)
      (fresh_gate zero_EndpointMeta sample_request ()) = (Ok (), s') \<and> final_status (g_rw s') = 200"
proof -
  have "ReadAll (MaxBytesReader (NewBuffer [1, 2]) 1) = Inl ''http: request body too large''"
    by (simp add: ReadAll_def MaxBytesReader_def NewBuffer_def)
  with unreadable_body_status_200 [of zero_EndpointMeta "[]" "\<lambda>m p c. Ok zero_EndpointMeta"
      "sample_request\<lparr>rq_Body := NewBuffer [1, 2]\<rparr>"
      "\<lparr>ep_PathPrefix = [], ep_WithPrefix = True, ep_ErrorOnUnknownEndpoint = True, ep_WithLendingSlash = True\<rparr>" 1
      "''http: request body too large''"
      "idle\<lparr>x_buffer_ReadRequestBody := \<lambda>b w. (case b of Inl m \<Rightarrow> Some m | Inr d \<Rightarrow> None, w)\<rparr>"
      "fresh_gate zero_EndpointMeta sample_request ()" True "\<lambda>s. (Ok (), s)"]
  show ?thesis by (auto simp: fresh_gate_def sample_writer_def)
qed

end
