(* ===== verification/Gate_Access.thy ===== *)
theory Gate_Access
  imports Gate_Locator
begin

text \<open>
  What the middlewares of a location amount to together: the access chain decides every request and
  lets only granted ones through, and whatever every step of a location respects holds of the
  whole handler. The two halves rest on the contract of the access middlewares and on the locales
  \<open>gate_relation\<close> and \<open>gate_invariant\<close> below.
\<close>

section \<open>The services leave the request alone\<close>

text \<open>Nothing but the caches and the world has changed.\<close>

definition quiet :: "'w gate \<Rightarrow> 'w gate \<Rightarrow> bool" where
  "quiet s s' \<longleftrightarrow>
     g_ctx s' = g_ctx s \<and> g_rw s' = g_rw s \<and> g_wrapper_status s' = g_wrapper_status s \<and>
     g_log_level s' = g_log_level s \<and> g_log s' = g_log s \<and> g_metrics s' = g_metrics s"

lemma quiet_refl [simp]: "quiet s s"
  by (simp add: quiet_def)

lemma quiet_trans: "quiet s s' \<Longrightarrow> quiet s' s'' \<Longrightarrow> quiet s s''"
  by (simp add: quiet_def)

lemma quiet_updates [simp]:
  "quiet s (s'\<lparr>g_world := w\<rparr>) = quiet s s'"
  "quiet s (g_app_cache_update f s') = quiet s s'"
  "quiet s (g_authz_cache_update f s') = quiet s s'"
  "quiet s (g_admin_cache_update f s') = quiet s s'"
  "quiet s (g_user_cache_update f s') = quiet s s'"
  by (simp_all add: quiet_def)

lemma quiet_cached [simp]: "quiet s (snd (cached x sel key s')) = quiet s s'"
  by (simp add: cached_snd)

named_theorems service_unfold

lemma quiet_remote [simp]:
  "quiet s (snd (System_Authenticate x t s')) = quiet s s'"
  "quiet s (snd (System_Authorize x q s')) = quiet s s'"
  "quiet s (snd (Admin_Authenticate x t s')) = quiet s s'"
  "quiet s (snd (Admin_Authorize x i p s')) = quiet s s'"
  "quiet s (snd (UserAuth_Authenticate x e t s')) = quiet s s'"
  "quiet s (snd (Locker_Increment x k d s')) = quiet s s'"
  "quiet s (snd (Locker_IsAllowRequestPerSecond x k r s')) = quiet s s'"
  by (simp_all add: Admin_Authenticate_def UserAuth_Authenticate_def Locker_Increment_def
      Locker_IsAllowRequestPerSecond_def split_beta Let_def split: sum.splits)

lemma quiet_caches [simp]:
  "quiet s (snd (AuthenticationCache_Set x d t v s')) = quiet s s'"
  "quiet s (snd (UserAuthenticationCache_Set x d k u s')) = quiet s s'"
  "quiet s (snd (AuthorizationCache_SetAuthorized x g_authz_cache_update d i e s')) = quiet s s'"
  "quiet s (snd (AuthorizationCache_SetAuthorized x g_admin_cache_update d i e s')) = quiet s s'"
  by (simp_all add: AuthenticationCache_Set_def UserAuthenticationCache_Set_def
      AuthorizationCache_SetAuthorized_def store_eq split: sum.splits)

lemma services_quiet:
  "quiet s (snd (user_authenticator x settings c s))"
  "quiet s (snd (app_authenticator x config t s))"
  "quiet s (snd (admin_authenticator x t s))"
  "quiet s (snd (app_authorizer x config i m e s))"
  "quiet s (snd (admin_authorizer x config i p s))"
  "quiet s (snd (throttler x config i s))"
  "quiet s (snd (daily_checker x config i s))"
  by (auto simp: user_authenticator_def UserAuthentication_Authenticate_def authenticate_user_def
      app_authenticator_def Authentication_Authenticate_def admin_authenticator_def AdminAuthenticate_def
      app_authorizer_def Authorization_Authorize_def admin_authorizer_def AdminAuthorize_def
      throttler_def AllowRateLimit_def daily_checker_def IncrementAndCheck_def Let_def split_beta
      split: res.splits option.splits)
section \<open>The access chain\<close>

lemma access_middleware_relcompp:
  assumes "access_middleware m A" "access_middleware m' B"
  shows "access_middleware (\<lambda>n. m (m' n)) (A OO B)"
  using access_middleware_comp [OF assms] by (simp add: relcompp.simps [abs_def] fun_eq_iff)

text \<open>The eight checks in their order, as a relation between the state before and after.\<close>

definition access_admits ::
  "'w ext \<Rightarrow> conf_Remote \<Rightarrow> (string \<rightharpoonup> userAuthSetting) \<Rightarrow> 'w gate \<Rightarrow> 'w gate \<Rightarrow> bool" where
  "access_admits x config settings =
     user_admits (user_authenticator x settings) OO
     app_admits x (app_authenticator x config) OO
     admin_admits x (admin_authenticator x) OO
     client_id_admits x OO
     authorize_admits (app_authorizer x config) OO
     admin_authorize_admits (admin_authorizer x config) OO
     throttling_admits (throttler x config) OO
     daily_admits (daily_checker x config)"

interpretation access: access_middleware "\<lambda>nxt. Chain nxt (access_chain x config settings)"
  "access_admits x config settings" for x :: "'w ext" and config settings
  unfolding access_chain_def access_admits_def Chain_simps
  by (intro access_middleware_relcompp user_mw.access_middleware_axioms app_mw.access_middleware_axioms
      admin_mw.access_middleware_axioms client_id.access_middleware_axioms authorize_mw.access_middleware_axioms
      admin_authorize_mw.access_middleware_axioms throttling_mw.access_middleware_axioms
      daily_mw.access_middleware_axioms)

text \<open>What stays of a request on its way through the chain: everything but the Go context.\<close>

definition same_request :: "Context \<Rightarrow> Context \<Rightarrow> bool" where
  "same_request c c' \<longleftrightarrow>
     rc_endpointMeta c' = rc_endpointMeta c \<and> rc_responseWriter c' = rc_responseWriter c \<and>
     (rc_request c')\<lparr>rq_Context := []\<rparr> = (rc_request c)\<lparr>rq_Context := []\<rparr>"

text \<open>What it takes to be let through to the proxy, in the state the proxy finds.\<close>

definition granted ::
  "'w ext \<Rightarrow> conf_Remote \<Rightarrow> (string \<rightharpoonup> userAuthSetting) \<Rightarrow> 'w gate \<Rightarrow> bool" where
  "granted x config settings s \<longleftrightarrow>
     (let c = g_ctx s; meta = rc_endpointMeta c in
      rc_userAuthenticated c = me_UserAuthRequired meta \<and>
      (SkipAppAuth c \<longrightarrow>
         me_UserAuthRequired meta \<and>
         (\<exists>st. settings (me_ModuleName meta) = Some st \<and> us_skipAppAuth st)) \<and>
      (\<not> SkipAppAuth c \<longrightarrow>
         (\<exists>d. GetAuthData c = Ok d \<and>
            (\<exists>s1 ok. g_ctx s1 = c \<and>
               fst (app_authorizer x config (ad_ApplicationId d) (rq_Method (rc_request c)) (me_PathSchema meta) s1) = Ok ok \<and>
               (ok \<or> rc_adminAuthenticated c)) \<and>
            (\<exists>s1 r. g_ctx s1 = c \<and> fst (throttler x config (ad_ApplicationId d) s1) = Ok r \<and> rl_Allow r) \<and>
            (\<exists>s1. g_ctx s1 = c \<and> fst (daily_checker x config (ad_ApplicationId d) s1) = Ok True))) \<and>
      (me_Inner meta \<longrightarrow>
         rc_adminAuthenticated c \<and>
         (me_RequiredAdminPermission meta = [] \<or>
          (\<exists>s1. g_ctx s1 = c \<and>
             fst (admin_authorizer x config (rc_adminId c) (me_RequiredAdminPermission meta) s1) = Ok True))))"

text \<open>What each step does to the context.\<close>

lemma user_authenticator_SkipApp:
  assumes "fst (user_authenticator x settings c s) = Ok resp"
  shows "if ur_SkipUserAuth resp then \<not> me_UserAuthRequired (rc_endpointMeta c)
    else me_UserAuthRequired (rc_endpointMeta c) \<and>
      (\<exists>st. settings (me_ModuleName (rc_endpointMeta c)) = Some st \<and>
         (\<forall>d. ur_AuthData resp = Some d \<longrightarrow> ud_SkipAppAuth d = us_skipAppAuth st))"
  using assms
  by (auto simp: user_authenticator_def UserAuthentication_Authenticate_def authenticate_user_def
      convertAuthResponse_def convertUserAuthData_def with_message_def Let_def split_beta
      split: res.splits option.splits if_splits)

lemma user_admits_ctx:
  assumes "user_admits (user_authenticator x settings) s s'"
  obtains (skip) "\<not> me_UserAuthRequired (rc_endpointMeta (g_ctx s))" "g_ctx s' = g_ctx s"
  | (user) st d where "me_UserAuthRequired (rc_endpointMeta (g_ctx s))"
      "settings (me_ModuleName (rc_endpointMeta (g_ctx s))) = Some st" "ud_SkipAppAuth d = us_skipAppAuth st"
      "g_ctx s' = AuthenticateUser d (g_ctx s)"
proof -
  obtain resp s1 where a: "user_authenticator x settings (g_ctx s) s = (Ok resp, s1)"
    and s': "if ur_SkipUserAuth resp then s' = s1 else ur_Authenticated resp \<and>
      (\<exists>d. ur_AuthData resp = Some d \<and> g_ctx s' = AuthenticateUser d (g_ctx s1))"
    using assms by (fastforce simp: user_admits_def Let_def log_call_def split: if_splits)
  have q: "g_ctx s1 = g_ctx s"
    using services_quiet(1) [of s x settings "g_ctx s"] by (simp add: a quiet_def)
  have "fst (user_authenticator x settings (g_ctx s) s) = Ok resp" by (simp add: a)
  from user_authenticator_SkipApp [OF this] s' q that show thesis
    by (cases "ur_SkipUserAuth resp") auto
qed

lemma extractAppToken_ctx: "\<exists>n. g_ctx (snd (extractAppToken x s)) = snd (Param (x_unicode_lower x) n (g_ctx s))"
  by (auto simp: extractAppToken_def Let_def split_beta)

lemma app_admits_ctx:
  assumes "app_admits x (app_authenticator x config) s s'"
  obtains (skip) "SkipAppAuth (g_ctx s)" "g_ctx s' = g_ctx s"
  | (app) n d where "\<not> SkipAppAuth (g_ctx s)"
      "g_ctx s' = Context_Authenticate d (snd (Param (x_unicode_lower x) n (g_ctx s)))"
proof (cases "SkipAppAuth (g_ctx s)")
  case True
  with assms show ?thesis by (auto simp: app_admits_def intro: skip)
next
  case False
  then obtain token n s1 resp s2 d where e: "extractAppToken x s = (Ok (token, n), s1)"
    and a: "app_authenticator x config token s1 = (Ok resp, s2)" and s': "s' = on_ctx (Context_Authenticate d) s2"
    using assms by (auto simp: app_admits_def)
  have "g_ctx s2 = g_ctx s1" using services_quiet(2) [of s1 x config token] by (simp add: a quiet_def)
  with s' e extractAppToken_ctx [of x s] False show ?thesis by (auto intro: app)
qed

lemma admin_admits_ctx:
  assumes "admin_admits x (admin_authenticator x) s s'"
  shows "g_ctx s' = snd (Param (x_unicode_lower x) adminAuthHeader (g_ctx s)) \<or>
    (\<exists>i t. g_ctx s' = AuthenticateAdmin i t (snd (Param (x_unicode_lower x) adminAuthHeader (g_ctx s))))"
proof -
  obtain token c where p: "Param (x_unicode_lower x) adminAuthHeader (g_ctx s) = (token, c)" by fastforce
  have "g_ctx (snd (admin_authenticator x token (s\<lparr>g_ctx := c\<rparr>))) = c"
    using services_quiet(3) [of "s\<lparr>g_ctx := c\<rparr>" x token] by (simp add: quiet_def)
  with assms p show ?thesis
    by (cases "token = []") (auto simp: admin_admits_def, blast)
qed

lemma authorize_admits_ctx:
  assumes "authorize_admits (app_authorizer x config) s s'"
  shows "g_ctx s' = g_ctx s \<and> (\<not> SkipAppAuth (g_ctx s) \<longrightarrow>
    (\<exists>d ok. GetAuthData (g_ctx s) = Ok d \<and>
       fst (app_authorizer x config (ad_ApplicationId d) (rq_Method (rc_request (g_ctx s)))
         (me_PathSchema (rc_endpointMeta (g_ctx s))) s) = Ok ok \<and> (ok \<or> rc_adminAuthenticated (g_ctx s))))"
proof (cases "SkipAppAuth (g_ctx s)")
  case False
  then obtain d ok s1 where d: "GetAuthData (g_ctx s) = Ok d"
    and a: "app_authorizer x config (ad_ApplicationId d) (rq_Method (rc_request (g_ctx s)))
      (me_PathSchema (rc_endpointMeta (g_ctx s))) s = (Ok ok, s1)"
    and s': "g_ctx s' = g_ctx s1" "ok \<or> rc_adminAuthenticated (g_ctx s1)"
    using assms by (auto simp: authorize_admits_def log_call_def split: if_splits)
  have "g_ctx s1 = g_ctx s"
    using services_quiet(4) [of s x config "ad_ApplicationId d" "rq_Method (rc_request (g_ctx s))"
        "me_PathSchema (rc_endpointMeta (g_ctx s))"] by (simp add: a quiet_def)
  with d a s' show ?thesis by simp
qed (use assms in \<open>simp add: authorize_admits_def\<close>)

lemma admin_authorize_admits_ctx:
  assumes "admin_authorize_admits (admin_authorizer x config) s s'"
  shows "g_ctx s' = g_ctx s \<and> (me_Inner (rc_endpointMeta (g_ctx s)) \<longrightarrow>
    rc_adminAuthenticated (g_ctx s) \<and>
    (me_RequiredAdminPermission (rc_endpointMeta (g_ctx s)) = [] \<or>
     fst (admin_authorizer x config (rc_adminId (g_ctx s)) (me_RequiredAdminPermission (rc_endpointMeta (g_ctx s))) s) = Ok True))"
  using assms services_quiet(5) [of s x config "rc_adminId (g_ctx s)" "me_RequiredAdminPermission (rc_endpointMeta (g_ctx s))"]
  by (auto simp: admin_authorize_admits_def quiet_def Let_def split: if_splits)

lemma throttling_admits_ctx:
  assumes "throttling_admits (throttler x config) s s'"
  shows "g_ctx s' = g_ctx s \<and> (\<not> SkipAppAuth (g_ctx s) \<longrightarrow>
    (\<exists>d r. GetAuthData (g_ctx s) = Ok d \<and> fst (throttler x config (ad_ApplicationId d) s) = Ok r \<and> rl_Allow r))"
  using assms services_quiet(6) [of s x config]
  by (auto simp: throttling_admits_def quiet_def split: if_splits) (metis snd_conv)+

lemma daily_admits_ctx:
  assumes "daily_admits (daily_checker x config) s s'"
  shows "g_ctx s' = g_ctx s \<and> (\<not> SkipAppAuth (g_ctx s) \<longrightarrow>
    (\<exists>d. GetAuthData (g_ctx s) = Ok d \<and> fst (daily_checker x config (ad_ApplicationId d) s) = Ok True))"
  using assms services_quiet(7) [of s x config]
  by (auto simp: daily_admits_def quiet_def split: if_splits) (metis snd_conv)+

section \<open>Only a granted request reaches the proxy\<close>

lemma Param_request [simp]:
  "same_request c (snd (Param ul n c')) = same_request c c'"
  "SkipAppAuth (snd (Param ul n c')) = SkipAppAuth c'"
  "GetAuthData (snd (Param ul n c')) = GetAuthData c'"
  by (simp_all add: same_request_def SkipAppAuth_def GetAuthData_def Param_keeps)

lemma access_admits_granted:
  assumes "access_admits x config settings s s'" "g_ctx s = NewContext req w meta"
  shows "same_request (g_ctx s) (g_ctx s') \<and> granted x config settings s'"
proof -
  obtain s1 s2 s3 s4 s5 s6 s7 where
    u: "user_admits (user_authenticator x settings) s s1" and a: "app_admits x (app_authenticator x config) s1 s2" and
    m: "admin_admits x (admin_authenticator x) s2 s3" and c: "client_id_admits x s3 s4" and
    az: "authorize_admits (app_authorizer x config) s4 s5" and
    mz: "admin_authorize_admits (admin_authorizer x config) s5 s6" and
    t: "throttling_admits (throttler x config) s6 s7" and d: "daily_admits (daily_checker x config) s7 s'"
    using assms(1) by (auto simp: access_admits_def)
  note late = authorize_admits_ctx [OF az] admin_authorize_admits_ctx [OF mz] throttling_admits_ctx [OF t] daily_admits_ctx [OF d]
  have c1: "same_request (g_ctx s) (g_ctx s1) \<and> rc_userAuthenticated (g_ctx s1) = me_UserAuthRequired meta \<and>
      \<not> rc_adminAuthenticated (g_ctx s1) \<and>
      (SkipAppAuth (g_ctx s1) \<longrightarrow> me_UserAuthRequired meta \<and>
         (\<exists>st. settings (me_ModuleName meta) = Some st \<and> us_skipAppAuth st))"
    using u by (cases rule: user_admits_ctx)
      (auto simp: assms(2) NewContext_def same_request_def SkipAppAuth_def AuthenticateUser_def)
  have c2: "same_request (g_ctx s) (g_ctx s2) \<and> rc_userAuthenticated (g_ctx s2) = rc_userAuthenticated (g_ctx s1) \<and>
      SkipAppAuth (g_ctx s2) = SkipAppAuth (g_ctx s1)"
    using a c1 by (cases rule: app_admits_ctx)
      (auto simp: same_request_def SkipAppAuth_def Context_Authenticate_def Param_keeps)
  have c3: "same_request (g_ctx s) (g_ctx s3) \<and> rc_userAuthenticated (g_ctx s3) = rc_userAuthenticated (g_ctx s1) \<and>
      SkipAppAuth (g_ctx s3) = SkipAppAuth (g_ctx s1)"
    using admin_admits_ctx [OF m] c2
    by (auto simp: same_request_def SkipAppAuth_def AuthenticateAdmin_def Param_keeps)
  have c4: "same_request (g_ctx s) (g_ctx s4) \<and> rc_userAuthenticated (g_ctx s4) = rc_userAuthenticated (g_ctx s1) \<and>
      SkipAppAuth (g_ctx s4) = SkipAppAuth (g_ctx s1)"
    using c c3 by (auto simp: client_id_admits_def same_request_def SkipAppAuth_def SetContext_def)
  have eq: "g_ctx s5 = g_ctx s4" "g_ctx s6 = g_ctx s4" "g_ctx s7 = g_ctx s4" "g_ctx s' = g_ctx s4"
    using late by simp_all
  have meta: "rc_endpointMeta (g_ctx s4) = meta" using c4 by (simp add: same_request_def assms(2) NewContext_def)
  have app: "\<exists>d. GetAuthData (g_ctx s4) = Ok d \<and>
      (\<exists>sa ok. g_ctx sa = g_ctx s4 \<and> fst (app_authorizer x config (ad_ApplicationId d) (rq_Method (rc_request (g_ctx s4)))
         (me_PathSchema meta) sa) = Ok ok \<and> (ok \<or> rc_adminAuthenticated (g_ctx s4))) \<and>
      (\<exists>sa r. g_ctx sa = g_ctx s4 \<and> fst (throttler x config (ad_ApplicationId d) sa) = Ok r \<and> rl_Allow r) \<and>
      (\<exists>sa. g_ctx sa = g_ctx s4 \<and> fst (daily_checker x config (ad_ApplicationId d) sa) = Ok True)"
    if skip: "\<not> SkipAppAuth (g_ctx s4)"
  proof -
    obtain d where d: "GetAuthData (g_ctx s4) = Ok d" using late(1) skip by blast
    show ?thesis
      by (rule exI [of _ d], intro conjI) (use late skip d meta eq in \<open>metis res.inject(1)\<close>)+
  qed
  have inner: "rc_adminAuthenticated (g_ctx s4) \<and> (me_RequiredAdminPermission meta = [] \<or>
      (\<exists>sa. g_ctx sa = g_ctx s4 \<and> fst (admin_authorizer x config (rc_adminId (g_ctx s4)) (me_RequiredAdminPermission meta) sa) = Ok True))"
    if "me_Inner meta"
    using late(2) that meta eq(1) by metis
  show ?thesis
    using c1 c4 app inner by (simp add: granted_def Let_def eq meta)
qed

section \<open>What a chain leaves behind\<close>

text \<open>
  A relation between the states before and after that every step of the access chain respects:
  reading the clock and calling a module, logging, changing the request context, and the calls of
  the services. Whatever respects it at the end of the chain makes the whole chain respect it.
\<close>

locale gate_relation =
  fixes x :: "'w ext" and config :: conf_Remote and R :: "'w gate \<Rightarrow> 'w gate \<Rightarrow> bool"
  assumes refl: "R s s"
    and trans: "R s s' \<Longrightarrow> R s' s'' \<Longrightarrow> R s s''"
    and on_request: "rc_responseWriter c = rc_responseWriter (g_ctx s) \<Longrightarrow> R s (s\<lparr>g_ctx := c\<rparr>)"
    and on_world: "R s (s\<lparr>g_world := w\<rparr>)"
    and on_log: "R s (s\<lparr>g_log := l\<rparr>)"
    and on_metrics: "R s (s\<lparr>g_metrics := ms\<rparr>)"
    and on_user: "R s (snd (user_authenticator x settings c s))"
    and on_app: "R s (snd (app_authenticator x config t s))"
    and on_authorize: "R s (snd (app_authorizer x config i m e s))"
    and on_admin: "R s (snd (admin_authorizer x config i p s))"
begin

lemma log_step: "R s0 s \<Longrightarrow> R s0 (log_call l m fs s)"
  unfolding log_call_def by (rule trans [OF _ on_log])

lemma world_step: "R s0 s \<Longrightarrow> R s0 (s\<lparr>g_world := w\<rparr>)"
  by (rule trans [OF _ on_world])

lemma request_step: "R s0 s \<Longrightarrow> rc_responseWriter c = rc_responseWriter (g_ctx s) \<Longrightarrow> R s0 (s\<lparr>g_ctx := c\<rparr>)"
  by (rule trans [OF _ on_request])

lemma service_steps:
  assumes "R s0 s"
  shows "R s0 (snd (user_authenticator x settings c s))"
    and "R s0 (snd (app_authenticator x config t s))"
    and "R s0 (snd (app_authorizer x config i m e s))"
    and "R s0 (snd (admin_authorizer x config i p s))"
    and "R s0 (snd (admin_authenticator x t s))"
    and "R s0 (snd (throttler x config i s))"
    and "R s0 (snd (daily_checker x config i s))"
  using assms
  by (auto simp: admin_authenticator_def AdminAuthenticate_def Admin_Authenticate_def throttler_def AllowRateLimit_def
      Locker_IsAllowRequestPerSecond_def daily_checker_def IncrementAndCheck_def Locker_Increment_def split_beta Let_def
      intro: world_step trans [OF _ on_user] trans [OF _ on_app] trans [OF _ on_authorize] trans [OF _ on_admin]
      split: res.splits option.splits)

lemma Param_writer [simp]: "rc_responseWriter (snd (Param ul n c)) = rc_responseWriter c"
  by (simp add: Param_keeps)

lemma extract_step: "R s0 s \<Longrightarrow> R s0 (snd (extractAppToken x s))"
  by (auto simp: extractAppToken_def Let_def split_beta intro: request_step)

lemmas steps = service_steps log_step world_step request_step extract_step

lemma access_carries:
  assumes nxt: "\<And>s. R s (snd (nxt s))"
  shows "R s (snd (RequestId x nxt s))"
    and "R s (snd (ClientRequestId x f g nxt s))"
    and "R s (snd (UserAuthenticate (user_authenticator x settings) nxt s))"
    and "R s (snd (Authenticate x (app_authenticator x config) nxt s))"
    and "R s (snd (AdminAuthenticate_mw x (admin_authenticator x) nxt s))"
    and "R s (snd (Authorize (app_authorizer x config) nxt s))"
    and "R s (snd (AdminAuthorize_mw (admin_authorizer x config) nxt s))"
    and "R s (snd (Throttling (throttler x config) nxt s))"
    and "R s (snd (DailyLimit (daily_checker x config) nxt s))"
    and "R s (snd (Metrics x nxt s))"
proof -
  have nxt_step: "R s0 s \<Longrightarrow> R s0 (snd (nxt s))" for s0 s
    by (rule trans [OF _ nxt])
  note on = nxt_step steps refl
  show "R s (snd (RequestId x nxt s))"
    by (auto simp: RequestId_def split_beta Let_def SetContext_def intro!: on)
  show "R s (snd (ClientRequestId x f g nxt s))"
    by (auto simp: ClientRequestId_def Let_def SetContext_def intro!: on split: res.splits)
  show "R s (snd (UserAuthenticate (user_authenticator x settings) nxt s))"
    by (auto simp: UserAuthenticate_def Let_def split_beta AuthenticateUser_def intro!: on split: res.splits option.splits)
  show "R s (snd (Authenticate x (app_authenticator x config) nxt s))"
    by (auto simp: Authenticate_def Let_def split_beta Context_Authenticate_def intro!: on split: res.splits option.splits)
  show "R s (snd (AdminAuthenticate_mw x (admin_authenticator x) nxt s))"
    by (auto simp: AdminAuthenticate_mw_def Let_def split_beta AuthenticateAdmin_def intro!: on split: res.splits option.splits)
  show "R s (snd (Authorize (app_authorizer x config) nxt s))"
    by (auto simp: Authorize_def Let_def split_beta intro!: on split: res.splits option.splits)
  show "R s (snd (AdminAuthorize_mw (admin_authorizer x config) nxt s))"
    by (auto simp: AdminAuthorize_mw_def Let_def split_beta intro!: on split: res.splits option.splits)
  show "R s (snd (Throttling (throttler x config) nxt s))"
    by (auto simp: Throttling_def Let_def split_beta intro!: on split: res.splits option.splits)
  show "R s (snd (DailyLimit (daily_checker x config) nxt s))"
    by (auto simp: DailyLimit_def Let_def split_beta intro!: on split: res.splits option.splits)
  show "R s (snd (Metrics x nxt s))"
    by (auto simp: Metrics_def Let_def split_beta intro!: on trans [OF _ on_metrics] split: res.splits)
qed

lemma chain_carries:
  assumes "\<And>s. R s (snd (proxy s))"
  shows "R s (snd (Chain proxy (access_chain x config settings @ [Metrics x]) s))"
  using assms by (simp add: access_chain_def access_carries)

end

text \<open>The checks answer nothing themselves: the response is as it was.\<close>

interpretation response_kept: gate_relation x config
  "\<lambda>s s'. g_rw s' = g_rw s \<and> rc_responseWriter (g_ctx s') = rc_responseWriter (g_ctx s)" for x :: "'w ext" and config
  by unfold_locales (simp_all add: services_quiet [unfolded quiet_def])

text \<open>A relation the rest of a location's handler respects, too.\<close>

locale gate_invariant = gate_relation +
  assumes on_ctx: "R s (s\<lparr>g_ctx := c\<rparr>)"
    and on_rw: "R s (s\<lparr>g_rw := v\<rparr>)"
    and on_status: "R s (s\<lparr>g_wrapper_status := n\<rparr>)"
begin

lemma write_steps:
  assumes "R s0 s"
  shows "R s0 (s\<lparr>g_ctx := c\<rparr>)" and "R s0 (s\<lparr>g_rw := v\<rparr>)" and "R s0 (s\<lparr>g_wrapper_status := n\<rparr>)"
    and "R s0 (s\<lparr>g_log := l\<rparr>)"
  using assms by (auto intro: trans on_ctx on_rw on_status on_log)

lemma writer_steps:
  assumes "R s0 s"
  shows "R s0 (ctx_WriteHeader x code s)" and "R s0 (snd (ctx_Write x data s))" and "R s0 (ctx_SetHeader k v s)"
    and "R s0 (copy_headers h s)"
  using assms
  by (auto simp: ctx_WriteHeader_def ctx_Write_def ctx_SetHeader_def copy_headers_def split_beta
      intro!: write_steps world_step split: writer_ref.splits)

lemma interim_step: "R s0 s \<Longrightarrow> R s0 (write_interim x codes s)"
  unfolding write_interim_def
proof (induction codes arbitrary: s)
  case (Cons code codes)
  have "R s0 (ctx_WriteHeader x code s)" using Cons.prems by (rule writer_steps)
  then show ?case by (simp add: Let_def Cons.IH [unfolded Let_def] write_steps)
qed simp

lemma answer_steps:
  assumes "R s0 s"
  shows "R s0 (write_answer x interim status h body s)" and "R s0 (snd (WriteError x e s))"
    and "R s0 (snd (writeResponse x status body i s))" and "R s0 (snd (writeProto x status j s))"
  using assms
  by (auto simp: write_answer_def WriteError_def writeResponse_def writeProto_def Let_def split_beta
      intro!: interim_step writer_steps split: go_error.splits sum.splits option.splits)

lemma details_step:
  "(\<And>s. R s0 s \<Longrightarrow> R s0 (snd (lst s))) \<Longrightarrow> R s0 s \<Longrightarrow> R s0 (snd (write_details x status ds lst s))"
proof (induction ds)
  case (Cons d ds)
  then show ?case by (cases d) (auto intro: answer_steps split: option.splits)
qed simp

lemma grpc_error_step: "R s0 s \<Longrightarrow> R s0 (snd (handleError x err e s))"
  by (auto simp: handleError_def Let_def intro!: details_step split: option.splits prod.splits)

lemma next_host_step: "R s0 s \<Longrightarrow> R s0 (snd (next_host h s))"
  by (auto simp: next_host_def split_beta intro: world_step split: option.splits)

lemma proxies_carry:
  shows "R s (snd (Grpc_Handle x cli skipAuth timeout s))"
    and "R s (snd (Http_Handle x hm skipAuth timeout s))"
    and "R s (snd (Ws_Handle x hm skipAuth s))"
  by (auto simp: Grpc_Handle_def Http_Handle_def Ws_Handle_def Let_def split_beta
      intro!: grpc_error_step answer_steps next_host_step write_steps world_step refl
      split: sum.splits res.splits option.splits if_splits http_outcome.splits ws_outcome.splits)

lemma error_handler_carries:
  assumes "\<And>s. R s (snd (nxt s))"
  shows "R s (snd (ErrorHandler x nxt s))"
  by (auto simp: ErrorHandler_def Let_def split_beta intro!: answer_steps log_step assms
      split: res.splits go_error.splits)

lemma buffer_step: "R s0 s \<Longrightarrow> R s0 (snd (buffer_request x s))"
  by (auto simp: buffer_request_def Let_def split_beta intro!: write_steps world_step split: option.splits)

lemma log_request_step: "R s0 (snd out) \<Longrightarrow> R s0 (snd (log_request x b u r e out))"
  by (cases out) (auto simp: log_request_def intro: log_step split: res.splits)

lemma logger_carries:
  assumes nxt: "\<And>s. R s (snd (nxt s))"
  shows "R s (snd (Logger x en body skip u nxt s))"
proof -
  have nxt_step: "R s0 s \<Longrightarrow> R s0 (snd (nxt s))" for s0 s
    by (rule trans [OF _ nxt])
  show ?thesis
    by (auto simp: Logger_def Let_def split_beta intro!: world_step log_request_step nxt_step buffer_step write_steps refl
        split: res.splits)
qed

lemma handlers_carry:
  assumes "\<And>s. R s (snd (proxy s))"
  shows "R s (snd (open_handler x config log proxy s))"
    and "R s (snd (authenticated_handler x config settings log proxy s))"
  using assms chain_carries [OF assms]
  by (simp_all add: open_handler_def authenticated_handler_def location_logger_def access_carries error_handler_carries
      logger_carries access_chain_def)

lemma entrypoint_carries:
  assumes nxt: "\<And>s. R s (snd (nxt s))"
  shows "R s (snd (Entrypoint limit nxt cfg resolve req s))"
proof -
  have nxt_step: "R s0 s \<Longrightarrow> R s0 (snd (nxt s))" for s0 s
    by (rule trans [OF _ nxt])
  show ?thesis
    by (auto simp: Entrypoint_def Let_def split_beta log_in_def intro!: write_steps nxt_step refl split: res.splits)
qed

lemma location_carries:
  assumes "location_entry x cs config settings location = Ok h"
  shows "R s (snd (h routes req s))"
  using assms
  by (auto simp: location_entry_def location_proxy_def Let_def split: res.splits prod.splits if_splits
      intro!: entrypoint_carries handlers_carry proxies_carry)

lemma locations_carry:
  assumes "location_loop x cs config settings locations mux = Ok mux'"
    and "\<And>p h routes req s. (p, h) \<in> set mux \<Longrightarrow> R s (snd (h routes req s))"
    and "(p, h) \<in> set mux'"
  shows "R s (snd (h routes req s))"
  using assms
proof (induction locations arbitrary: mux)
  case (Cons location locations)
  then obtain h' where h': "location_entry x cs config settings location = Ok h'"
    "location_loop x cs config settings locations (mux @ [(lo_PathPrefix location, h')]) = Ok mux'"
    by (auto split: res.splits)
  show ?case
    by (rule Cons.IH [OF h'(2) _ Cons.prems(3)]) (use Cons.prems(2) location_carries [OF h'(1)] in auto)
qed simp

lemma server_carries:
  assumes "Handler x cs config locations = Ok mux"
  shows "R s (snd (ServeHTTP x mux routes req s))"
proof -
  obtain settings where "location_loop x cs config settings locations [] = Ok mux"
    using assms by (auto simp: Handler_def split: res.splits)
  then have "R s (snd (h routes req s))" if "h \<in> snd ` set mux" for h s
    using locations_carry [of cs settings locations "[]" mux] that by auto
  then show ?thesis
    by (auto simp: ServeHTTP_def intro: write_steps refl split: option.splits)
qed

end
section \<open>The handler of a location as a whole\<close>

lemma Logger_off: "\<not> en \<Longrightarrow> Logger x en body skip u nxt s = nxt s"
  by (simp add: Logger_def)

lemma Logger_plain:
  "en \<Longrightarrow> \<not> (body \<and> log_body (me_NormalizedEndpoint (rc_endpointMeta (g_ctx s))) skip) \<Longrightarrow>
     Logger x en body skip u nxt s =
       log_request x False u (rc_request (g_ctx s)) (me_NormalizedEndpoint (rc_endpointMeta (g_ctx s)))
         (nxt (on_ctx (SetResponseWriter WrapperWriter) (s\<lparr>g_wrapper_status := 0\<rparr>)))"
  by (auto simp: Logger_def Let_def)

lemma Logger_buffered:
  "en \<Longrightarrow> body \<Longrightarrow> log_body (me_NormalizedEndpoint (rc_endpointMeta (g_ctx s))) skip \<Longrightarrow>
     buffer_request x (s\<lparr>g_world := x_buffer_Acquire x (g_world s)\<rparr>) = (r, s1) \<Longrightarrow>
     Logger x en body skip u nxt s =
       (case (case r of
                Ok a \<Rightarrow> log_request x True u (rc_request (g_ctx s)) (me_NormalizedEndpoint (rc_endpointMeta (g_ctx s))) (nxt s1)
              | Err e \<Rightarrow> (Err e, s1) | Panic \<Rightarrow> (Panic, s1)) of
          (out, s2) \<Rightarrow> (out, s2\<lparr>g_world := x_buffer_Release x (g_world s2)\<rparr>))"
  by (cases r) (simp_all add: Logger_def Let_def)

text \<open>The four caches have not changed.\<close>

definition same_caches :: "'w gate \<Rightarrow> 'w gate \<Rightarrow> bool" where
  "same_caches s s' \<longleftrightarrow>
     g_app_cache s' = g_app_cache s \<and> g_user_cache s' = g_user_cache s \<and>
     g_authz_cache s' = g_authz_cache s \<and> g_admin_cache s' = g_admin_cache s"

text \<open>What holds of the outside world and does not change when a request is buffered or given its identifier.\<close>

definition world_kept :: "'w ext \<Rightarrow> ('w \<Rightarrow> bool) \<Rightarrow> bool" where
  "world_kept x P \<longleftrightarrow>
     (\<forall>w b. P w \<longrightarrow> P (snd (x_requestid_Next x w)) \<and> P (x_buffer_Acquire x w) \<and> P (snd (x_buffer_ReadRequestBody x b w)))"

text \<open>What a request meets on its way to the checks: the caches as they were, and such a world.\<close>

definition before_checks :: "'w ext \<Rightarrow> 'w gate \<Rightarrow> 'w gate \<Rightarrow> bool" where
  "before_checks x s s' \<longleftrightarrow>
     same_caches s s' \<and> (\<forall>P. world_kept x P \<longrightarrow> P (g_world s) \<longrightarrow> P (g_world s'))"

lemma before_checks_trans: "before_checks x s s' \<Longrightarrow> before_checks x s' s'' \<Longrightarrow> before_checks x s s''"
  by (auto simp: before_checks_def same_caches_def)

lemma Logger_runs:
  "(en \<and> body \<and> (\<exists>e s'. \<forall>nxt. Logger x en body skip u nxt (s\<lparr>g_ctx := NewContext req w meta\<rparr>) = (Err e, s'))) \<or>
   (\<exists>k s0 b w'. g_ctx s0 = NewContext (req\<lparr>rq_Body := b\<rparr>) w' meta \<and> before_checks x s s0 \<and>
      (\<forall>nxt. Logger x en body skip u nxt (s\<lparr>g_ctx := NewContext req w meta\<rparr>) = k (nxt s0)))"
  (is "?stops \<or> ?runs")
proof -
  let ?s = "s\<lparr>g_ctx := NewContext req w meta\<rparr>"
  let ?buffered = "body \<and> log_body (me_NormalizedEndpoint meta) skip"
  let ?finish = "\<lambda>b. log_request x b u req (me_NormalizedEndpoint meta)"
  have meta: "rc_endpointMeta (g_ctx ?s) = meta" "rc_request (g_ctx ?s) = req" by (simp_all add: NewContext_def)
  consider "\<not> en" | "en" "?buffered" | "en" "\<not> ?buffered" by blast
  then show ?thesis
  proof cases
    case 1
    show ?thesis
      by (intro disjI2 exI [of _ id] exI [of _ ?s] exI [of _ "rq_Body req"] exI [of _ w])
         (simp add: Logger_off 1 before_checks_def same_caches_def)
  next
    case 3
    have "g_ctx (on_ctx (SetResponseWriter WrapperWriter) (?s\<lparr>g_wrapper_status := 0\<rparr>)) =
        NewContext (req\<lparr>rq_Body := rq_Body req\<rparr>) WrapperWriter meta"
      "before_checks x s (on_ctx (SetResponseWriter WrapperWriter) (?s\<lparr>g_wrapper_status := 0\<rparr>))"
      by (simp_all add: NewContext_def SetResponseWriter_def before_checks_def same_caches_def)
    with Logger_plain [of en body ?s skip x u] 3 show ?thesis unfolding meta by blast
  next
    case 2
    obtain r s1 where b: "buffer_request x (?s\<lparr>g_world := x_buffer_Acquire x (g_world s)\<rparr>) = (r, s1)" by fastforce
    have eq: "Logger x en body skip u nxt ?s =
        (case (case r of Ok a \<Rightarrow> ?finish True (nxt s1) | Err e \<Rightarrow> (Err e, s1) | Panic \<Rightarrow> (Panic, s1)) of
           (out, s2) \<Rightarrow> (out, s2\<lparr>g_world := x_buffer_Release x (g_world s2)\<rparr>))" for nxt
      using Logger_buffered [of en body ?s skip x r s1 u nxt] 2 b unfolding meta by simp
    show ?thesis
    proof (cases r)
      case (Ok a)
      then obtain data where c: "g_ctx s1 = NewContext (req\<lparr>rq_Body := data\<rparr>) BufferWriter meta"
        using b by (auto simp: buffer_request_def NewContext_def SetResponseWriter_def set_body_def consume_body_def
            in_world_def Let_def split: prod.splits option.splits)
      have sc: "before_checks x s s1"
        using b Ok
        by (fastforce simp: buffer_request_def Let_def split_beta before_checks_def same_caches_def world_kept_def
            split: option.splits)
      let ?k = "\<lambda>out. case ?finish True out of (out, s2) \<Rightarrow> (out, s2\<lparr>g_world := x_buffer_Release x (g_world s2)\<rparr>)"
      show ?thesis
        by (intro disjI2 exI [of _ ?k] exI [of _ s1] exI [of _ data] exI [of _ BufferWriter]) (simp add: c sc eq Ok)
    next
      case Panic
      with b show ?thesis by (auto simp: buffer_request_def Let_def split: prod.splits option.splits)
    next
      case (Err e)
      then have "\<forall>nxt. Logger x en body skip u nxt ?s = (Err e, s1\<lparr>g_world := x_buffer_Release x (g_world s1)\<rparr>)"
        by (simp add: eq)
      with 2 show ?thesis by blast
    qed
  qed
qed

lemma RequestId_passes:
  "\<exists>s' g. g_ctx s' = SetContext g (g_ctx s) \<and> before_checks x s s' \<and> passes (RequestId x) s s'"
proof -
  let ?w = "g_world s"
  let ?i = "fst (x_requestid_Next x ?w)"
  let ?g = "x_log_ToContext x (x_requestid_ToContext x (Context_Context (g_ctx s)) ?i) [LogString RequestIdLogKey ?i]"
  let ?s = "on_ctx (SetContext ?g) (s\<lparr>g_world := snd (x_requestid_Next x ?w)\<rparr>)"
  have "passes (RequestId x) s ?s" by (simp add: passes_def RequestId_def split_beta Let_def)
  moreover have "before_checks x s ?s" by (simp add: before_checks_def same_caches_def world_kept_def)
  ultimately show ?thesis by (intro exI [of _ ?s] exI [of _ ?g] conjI) simp_all
qed

text \<open>The error handler's part of an outcome, whoever produced it.\<close>

definition handled :: "'w ext \<Rightarrow> unit res \<times> 'w gate \<Rightarrow> unit res \<times> 'w gate" where
  "handled x out = ErrorHandler x (\<lambda>s. out) (snd out)"

lemma ErrorHandler_handled: "ErrorHandler x nxt s = handled x (nxt s)"
  by (simp add: ErrorHandler_def handled_def)

text \<open>
  A location's handler: the logger, the request identifier and the error handler around a chain of
  middlewares that meets the contract of access.
\<close>

lemma location_runs:
  assumes "access_middleware (\<lambda>nxt. Chain nxt ms) A"
  shows "(cl_RequestLogEnable (cr_Logging config) \<and> log \<and>
      (\<exists>e s'. \<forall>proxy. Chain proxy ([location_logger x config log skip, RequestId x, ErrorHandler x] @ ms @ [Metrics x])
         (s\<lparr>g_ctx := NewContext req w meta\<rparr>) = (Err e, s'))) \<or>
    (\<exists>k s1 r s' b g w'. g_ctx s1 = NewContext (req\<lparr>rq_Body := b, rq_Context := g\<rparr>) w' meta \<and>
      stops (\<lambda>nxt. Chain nxt ms) s1 r s' \<and>
      (\<forall>proxy. Chain proxy ([location_logger x config log skip, RequestId x, ErrorHandler x] @ ms @ [Metrics x])
         (s\<lparr>g_ctx := NewContext req w meta\<rparr>) = k (r, s'))) \<or>
    (\<exists>k s1 s' b g w'. g_ctx s1 = NewContext (req\<lparr>rq_Body := b, rq_Context := g\<rparr>) w' meta \<and> before_checks x s s1 \<and> A s1 s' \<and>
      (\<forall>proxy. Chain proxy ([location_logger x config log skip, RequestId x, ErrorHandler x] @ ms @ [Metrics x])
         (s\<lparr>g_ctx := NewContext req w meta\<rparr>) = k (Metrics x proxy s')))"
proof -
  let ?logger = "location_logger x config log skip" and ?s = "s\<lparr>g_ctx := NewContext req w meta\<rparr>"
  let ?rest = "\<lambda>proxy. RequestId x (\<lambda>s. handled x (Chain (Metrics x proxy) ms s))"
  have split: "Chain proxy (ms @ [Metrics x]) = Chain (Metrics x proxy) ms" for proxy
    by (induction ms) simp_all
  have eq: "Chain proxy ([?logger, RequestId x, ErrorHandler x] @ ms @ [Metrics x]) ?s = ?logger (?rest proxy) ?s" for proxy
    by (simp add: split ErrorHandler_handled [abs_def])
  have "(cl_RequestLogEnable (cr_Logging config) \<and> log \<and> (\<exists>e s'. \<forall>nxt. ?logger nxt ?s = (Err e, s'))) \<or>
      (\<exists>k s0 b w'. g_ctx s0 = NewContext (req\<lparr>rq_Body := b\<rparr>) w' meta \<and> before_checks x s s0 \<and> (\<forall>nxt. ?logger nxt ?s = k (nxt s0)))"
    unfolding location_logger_def by (rule Logger_runs)
  then show ?thesis
  proof (elim disjE exE conjE)
    fix k s0 b w'
    assume sc: "before_checks x s s0" and s0: "g_ctx s0 = NewContext (req\<lparr>rq_Body := b\<rparr>) w' meta" and k: "\<forall>nxt. ?logger nxt ?s = k (nxt s0)"
    obtain s1 g where s1: "g_ctx s1 = SetContext g (g_ctx s0)" and sc1: "before_checks x s0 s1" and pass: "passes (RequestId x) s0 s1"
      using RequestId_passes [of s0 x] by blast
    have h: "Chain proxy ([?logger, RequestId x, ErrorHandler x] @ ms @ [Metrics x]) ?s =
        k (handled x (Chain (Metrics x proxy) ms s1))" for proxy
      unfolding eq k [rule_format] using pass by (simp add: passes_def)
    have n: "g_ctx s1 = NewContext (req\<lparr>rq_Body := b, rq_Context := g\<rparr>) w' meta"
      by (simp add: s1 s0 SetContext_def NewContext_def)
    show ?thesis
    proof (rule access_middleware.verdict [OF assms, of s1])
      fix s'
      assume "A s1 s'" "passes (\<lambda>nxt. Chain nxt ms) s1 s'"
      then show ?thesis
        unfolding h using n before_checks_trans [OF sc sc1] by (intro disjI2 exI [of _ "k \<circ> handled x"] exI [of _ s1] exI [of _ s']) (auto simp: passes_def)
    next
      fix r s'
      assume "stops (\<lambda>nxt. Chain nxt ms) s1 r s'"
      then show ?thesis
        unfolding h using n
        by (intro disjI2 disjI1 exI [of _ "k \<circ> handled x"] exI [of _ s1] exI [of _ r] exI [of _ s']) (auto simp: stops_def)
    qed
  qed (simp add: eq)
qed

lemma same_request_NewContext:
  assumes "same_request (NewContext (req\<lparr>rq_Body := b, rq_Context := g\<rparr>) w meta) c"
  shows "rc_endpointMeta c = meta \<and> (\<exists>b g. rc_request c = req\<lparr>rq_Body := b, rq_Context := g\<rparr>)"
proof -
  have "rc_endpointMeta c = meta" "(rc_request c)\<lparr>rq_Context := []\<rparr> = req\<lparr>rq_Body := b, rq_Context := []\<rparr>"
    using assms by (simp_all add: same_request_def NewContext_def)
  moreover from this(2) have "rc_request c = req\<lparr>rq_Body := b, rq_Context := rq_Context (rc_request c)\<rparr>"
    by (cases "rc_request c"; cases req) simp
  ultimately show ?thesis by blast
qed

lemma access_chain_response:
  "g_rw (snd (Chain (\<lambda>s. (Ok (), s)) (access_chain x config settings) s)) = g_rw s \<and>
   rc_responseWriter (g_ctx (snd (Chain (\<lambda>s. (Ok (), s)) (access_chain x config settings) s))) = rc_responseWriter (g_ctx s)"
  unfolding access_chain_def Chain_simps by (intro response_kept.access_carries) simp

text \<open>A refusal before anything was sent is answered by the error handler.\<close>

lemma handled_refusal:
  assumes "refusal (Err e)" "direct s" "x_marshal_json x (visible_error e) = Inr data"
  shows "\<exists>s'. handled x (Err e, s) = (Ok (), s') \<and> answered s (error_status e) (data @ [0x0A]) s'"
  using ErrorHandler_direct [of "\<lambda>_. (Err e, s)" s e s x data] assms
  by (auto simp: handled_def refusal_def)


text \<open>The identifier the modules see, read from the Go context.\<close>

definition context_request_id :: "'w ext \<Rightarrow> 'w gate \<Rightarrow> string" where
  "context_request_id x s = x_requestid_FromContext x (Context_Context (g_ctx s))"

section \<open>Properties\<close>


text \<open>
  C18. An open location checks nothing and knows nobody: unless the request's body cannot be read for
  the log, its proxy is run exactly once, with no application, user or administrator authenticated,
  and of the client's headers only the request identifier is replaced, so the identity headers a
  client sends itself reach the module as they are.
\<close>

theorem open_location_unchecked:
  "(cl_RequestLogEnable (cr_Logging config) \<and> log \<and>
      (\<exists>e s'. \<forall>proxy. open_handler x config log proxy (s\<lparr>g_ctx := NewContext req w meta\<rparr>) = (Err e, s'))) \<or>
   (\<exists>k s'. rc_endpointMeta (g_ctx s') = meta \<and>
      (\<exists>b g. rc_request (g_ctx s') = req\<lparr>rq_Body := b, rq_Context := g\<rparr>) \<and>
      \<not> rc_authenticated (g_ctx s') \<and> \<not> rc_userAuthenticated (g_ctx s') \<and> \<not> rc_adminAuthenticated (g_ctx s') \<and>
      (\<forall>v. setHttpHeaders x v (g_ctx s') (rq_Header (rc_request (g_ctx s'))) True =
         Ok (Header_Set (rq_Header req) RequestIdHeader (context_request_id x s'))) \<and>
      (\<forall>proxy. open_handler x config log proxy (s\<lparr>g_ctx := NewContext req w meta\<rparr>) = k (Metrics x proxy s')))"
proof -
  let ?ms = "[ClientRequestId x (cr_EnableClientRequestIdForwarding config) (forwardReqIdByAppId config)]"
  have contract: "access_middleware (\<lambda>nxt. Chain nxt ?ms) (client_id_admits x)"
    unfolding Chain_simps by (rule client_id.access_middleware_axioms)
  show ?thesis
    using location_runs [where x = x and config = config and log = log and s = s and req = req and w = w and meta = meta
        and skip = "map (\<lambda>p. trim_prefix p ''/'') (cl_SkipBodyLoggingEndpointPrefixes (cr_Logging config))", OF contract]
  proof (elim disjE exE conjE)
    fix k s1 s' b g w'
    assume n: "g_ctx s1 = NewContext (req\<lparr>rq_Body := b, rq_Context := g\<rparr>) w' meta" and a: "client_id_admits x s1 s'"
      and h: "\<forall>proxy. Chain proxy ([location_logger x config log
          (map (\<lambda>p. trim_prefix p ''/'') (cl_SkipBodyLoggingEndpointPrefixes (cr_Logging config))), RequestId x, ErrorHandler x] @
          ?ms @ [Metrics x]) (s\<lparr>g_ctx := NewContext req w meta\<rparr>) = k (Metrics x proxy s')"
    obtain ctx where "g_ctx s' = SetContext ctx (g_ctx s1)" using a by (auto simp: client_id_admits_def)
    then have c: "g_ctx s' = NewContext (req\<lparr>rq_Body := b, rq_Context := ctx\<rparr>) w' meta"
      by (simp add: n SetContext_def NewContext_def)
    show ?thesis
      by (intro disjI2 exI [of _ k] exI [of _ s'] conjI exI [of _ b] exI [of _ ctx] allI)
         (use h in \<open>simp_all add: c NewContext_def setHttpHeaders_def context_request_id_def open_handler_def\<close>)
  next
    fix k s1 r s' b g w'
    assume "g_ctx s1 = NewContext (req\<lparr>rq_Body := b, rq_Context := g\<rparr>) w' meta" "stops (\<lambda>nxt. Chain nxt ?ms) s1 r s'"
    then have "r \<noteq> Ok ()" "fst (Chain (\<lambda>s. (Ok (), s)) ?ms s1) = r" "GetAuthData (g_ctx s1) = Err ErrNotAuthenticated"
      by (simp_all add: stops_def NewContext_def GetAuthData_def)
    then show ?thesis by (simp add: ClientRequestId_def Let_def split: if_splits)
  qed (auto simp: open_handler_def)
qed


text \<open>A small configuration for the examples, and a request without any token.\<close>

definition sample_config :: conf_Remote where
  "sample_config =
     \<lparr>cr_Http = \<lparr>ch_MaxRequestBodySizeInMb = 1, ch_ProxyTimeoutInSec = 15\<rparr>,
      cr_Logging = \<lparr>cl_LogLevel = ''debug'', cl_RequestLogEnable = True, cl_BodyLogEnable = False,
        cl_SkipBodyLoggingEndpointPrefixes = [''/secret''], cl_EnableForceUnescapingUnicode = False\<rparr>,
      cr_Caching = \<lparr>cc_AuthenticationDataInSec = 5, cc_AuthorizationDataInSec = 5\<rparr>,
      cr_DailyLimits = [], cr_Throttling = [], cr_EnableClientRequestIdForwarding = False,
      cr_ForwardReqIdClientSettings = [],
      cr_CustomAuth = \<lparr>cca_TokenProviders = [], cca_UserAuthSettings = []\<rparr>\<rparr>"

definition anonymous_request :: http_request where
  "anonymous_request = sample_request\<lparr>rq_Query := []\<rparr>"

lemma anonymous_not_admitted:
  "\<not> access_admits idle sample_config Map.empty (fresh_gate zero_EndpointMeta anonymous_request ()) s'"
proof -
  let ?s = "fresh_gate zero_EndpointMeta anonymous_request () :: unit gate"
  have h: "Header_Get (rq_Header anonymous_request) applicationTokenHeader = []"
    "Header_Get (rq_Header anonymous_request) ''Authorization'' = []" by code_simp+
  have "fst (extractAppToken idle ?s) = Ok ([], [])"
    using h by (simp add: extractAppToken_def Param_def Let_def fresh_gate_def NewContext_def BasicAuth_def
        query_params_def anonymous_request_def)
  moreover have user: "user_admits (user_authenticator idle Map.empty) ?s s1 \<Longrightarrow> s1 = ?s" for s1
    by (auto simp: user_admits_def user_authenticator_def UserAuthentication_Authenticate_def fresh_gate_def
        NewContext_def zero_EndpointMeta_def)
  moreover have "\<not> SkipAppAuth (g_ctx ?s)"
    by (simp add: fresh_gate_def NewContext_def SkipAppAuth_def)
  ultimately have "\<not> app_admits idle (app_authenticator idle sample_config) ?s s2" for s2
    by (auto simp: app_admits_def)
  with user show ?thesis unfolding access_admits_def by blast
qed


end
