(* ===== verification/Gate_Configuration.thy ===== *)
theory Gate_Configuration
  imports Gate_Access
begin

text \<open>
  What a remote configuration makes of the gateway: which configurations are accepted and what they
  replace, and what the settings for logged bodies and forwarded request identifiers mean.
\<close>

section \<open>Configurations\<close>

definition known_protocol :: "Location \<Rightarrow> bool" where
  "known_protocol l \<longleftrightarrow> lo_Protocol l \<in> {GrpcProtocol, HttpProtocol, WsProtocol}"

lemma location_proxy_Ok: "(\<exists>p. location_proxy x cs config l = Ok p) \<longleftrightarrow> known_protocol l"
  and location_proxy_not_Panic: "location_proxy x cs config l \<noteq> Panic"
  by (auto simp: location_proxy_def known_protocol_def Let_def)

lemma location_entry_Ok: "(\<exists>h. location_entry x cs config settings l = Ok h) \<longleftrightarrow> known_protocol l"
  and location_entry_not_Panic: "location_entry x cs config settings l \<noteq> Panic"
  using location_proxy_Ok [of x cs config l] location_proxy_not_Panic [of x cs config l]
  by (auto simp: location_entry_def Let_def split: res.splits prod.splits)

lemma location_loop_cases:
  "if list_all known_protocol ls
   then \<exists>mux'. location_loop x cs config settings ls mux = Ok mux' \<and> map fst mux' = map fst mux @ map lo_PathPrefix ls
   else \<exists>e. location_loop x cs config settings ls mux = Err e"
proof (induction ls arbitrary: mux)
  case (Cons l ls)
  show ?case
  proof (cases "location_entry x cs config settings l")
    case (Ok h)
    then have "known_protocol l" using location_entry_Ok by blast
    with Ok Cons.IH [of "mux @ [(lo_PathPrefix l, h)]"] show ?thesis by auto
  next
    case (Err e)
    then have "\<not> known_protocol l" using location_entry_Ok [of x cs config settings l] by auto
    with Err show ?thesis by simp
  qed (use location_entry_not_Panic in blast)
qed simp

lemma Handler_cases:
  "if valid_custom_auth (cr_CustomAuth config) \<and> list_all known_protocol ls
   then \<exists>mux. Handler x cs config ls = Ok mux \<and> map fst mux = map lo_PathPrefix ls
   else \<exists>e. Handler x cs config ls = Err e"
  using NewUserAuthentication_eq [of "cr_CustomAuth config"] location_loop_cases [of ls x cs config _ "[]"]
  by (auto simp: Handler_def split: if_splits res.splits)

section \<open>Properties of configurations\<close>

text \<open>
  Applying a configuration is all or nothing: it is accepted exactly when its custom authentication
  is well-formed and every location has a known protocol; then the multiplexer has one route per
  location, in order, and the caches of applications and permissions are empty; otherwise the
  handler that serves and all caches stay as they are. In both cases the users' cache survives and
  the log level is that of the new configuration.
\<close>

lemma configuration_all_or_nothing:
  "case ReceiveConfig x cs locations config (mux, s) of (r, mux', s') \<Rightarrow>
     (if valid_custom_auth (cr_CustomAuth config) \<and> list_all known_protocol locations
      then r = Ok () \<and> map fst mux' = map lo_PathPrefix locations \<and>
        s' = s\<lparr>g_log_level := cl_LogLevel (cr_Logging config), g_app_cache := New, g_authz_cache := New, g_admin_cache := New\<rparr>
      else (\<exists>e. r = Err e) \<and> mux' = mux \<and> s' = s\<lparr>g_log_level := cl_LogLevel (cr_Logging config)\<rparr>)"
  using Handler_cases [of config locations x cs]
  by (auto simp: ReceiveConfig_def Let_def split: if_splits)

lemma client_loop_clients:
  assumes "client_loop x ls cs s = (Ok cs', s')"
  shows "list_all known_protocol ls \<and>
    (\<forall>l \<in> set ls. if lo_Protocol l = GrpcProtocol
       then cl_grpcClientByModuleName cs' (lo_TargetModule l) = Some (lo_TargetModule l)
       else cl_httpHostManagerByModuleName cs' (lo_TargetModule l) = Some (lo_TargetModule l)) \<and>
    (\<forall>m. cl_grpcClientByModuleName cs m = Some m \<longrightarrow> cl_grpcClientByModuleName cs' m = Some m) \<and>
    (\<forall>m. cl_httpHostManagerByModuleName cs m = Some m \<longrightarrow> cl_httpHostManagerByModuleName cs' m = Some m)"
  using assms
proof (induction ls arbitrary: cs s)
  case (Cons l ls)
  have p: "GrpcProtocol \<noteq> HttpProtocol" "GrpcProtocol \<noteq> WsProtocol"
    by (simp_all add: GrpcProtocol_def HttpProtocol_def WsProtocol_def)
  consider (grpc) s1 where "lo_Protocol l = GrpcProtocol"
      "client_loop x ls (cs\<lparr>cl_grpcClientByModuleName :=
         (cl_grpcClientByModuleName cs)(lo_TargetModule l \<mapsto> lo_TargetModule l)\<rparr>) s1 = (Ok cs', s')"
    | (http) "lo_Protocol l = HttpProtocol \<or> lo_Protocol l = WsProtocol"
      "client_loop x ls (cs\<lparr>cl_httpHostManagerByModuleName :=
         (cl_httpHostManagerByModuleName cs)(lo_TargetModule l \<mapsto> lo_TargetModule l)\<rparr>) s = (Ok cs', s')"
    using Cons.prems by (auto split: if_splits prod.splits option.splits)
  then show ?case
  proof cases
    case grpc
    from Cons.IH [OF grpc(2)] grpc(1) show ?thesis by (auto simp: known_protocol_def)
  next
    case http
    from Cons.IH [OF http(2)] http(1) p show ?thesis by (auto simp: known_protocol_def)
  qed
qed simp

text \<open>
  C11. A gateway that has started serves every location it was configured with: after a successful
  \<open>New\<close> every gRPC location has a client and every other location a host manager (no map lookup
  in \<open>Handler\<close> yields \<open>nil\<close>), and a remote configuration can be refused only for its custom
  authentication.
\<close>

theorem started_gateway_has_clients:
  assumes "New_Assembly x locations s = (Ok cs, s')"
  shows "list_all (\<lambda>l. if lo_Protocol l = GrpcProtocol
       then cl_grpcClientByModuleName cs (lo_TargetModule l) = Some (lo_TargetModule l)
       else cl_httpHostManagerByModuleName cs (lo_TargetModule l) = Some (lo_TargetModule l)) locations \<and>
    (\<exists>mux. Handler x cs config locations = Ok mux) = valid_custom_auth (cr_CustomAuth config)"
proof -
  obtain s1 where "client_loop x locations no_clients s = (Ok cs, s1)"
    using assms by (auto simp: New_Assembly_def split: prod.splits res.splits option.splits)
  from client_loop_clients [OF this] Handler_cases [of config locations x cs]
  show ?thesis by (auto simp: list_all_iff split: if_splits)
qed

definition sample_location :: Location where
  "sample_location = \<lparr>lo_WithPrefix = False, lo_SkipAuth = False, lo_PathPrefix = ''/api'', lo_Protocol = ''grpc'', lo_TargetModule = ''crm''\<rparr>"

theorem started_gateway_has_clients_witness:
  "\<exists>mux. Handler (idle :: unit ext) \<lparr>cl_grpcClientByModuleName = [''crm'' \<mapsto> ''crm''], cl_httpHostManagerByModuleName = Map.empty\<rparr>
     sample_config [sample_location] = Ok mux"
proof -
  have "New_Assembly idle [sample_location] (fresh_gate zero_EndpointMeta sample_request ()) =
      (Ok \<lparr>cl_grpcClientByModuleName = [''crm'' \<mapsto> ''crm''], cl_httpHostManagerByModuleName = Map.empty\<rparr>,
       fresh_gate zero_EndpointMeta sample_request ())"
    by (simp add: New_Assembly_def sample_location_def GrpcProtocol_def no_clients_def in_world_def idle_def fresh_gate_def)
  from started_gateway_has_clients [OF this, of sample_config] show ?thesis
    by (simp add: sample_config_def valid_custom_auth_def)
qed

abbreviation with_prefixes :: "string list \<Rightarrow> conf_Remote \<Rightarrow> conf_Remote" where
  "with_prefixes ps config \<equiv>
     config\<lparr>cr_Logging := (cr_Logging config)\<lparr>cl_SkipBodyLoggingEndpointPrefixes := ps\<rparr>\<rparr>"

lemma access_chain_prefixes: "access_chain x (with_prefixes ps config) settings = access_chain x config settings"
  by (simp add: access_chain_def app_authenticator_def app_authorizer_def admin_authorizer_def throttler_def
      daily_checker_def forwardReqIdByAppId_def fun_eq_iff [where f = "app_authenticator _ _"])

text \<open>
  C37. The prefixes for which bodies are not logged work differently on the two kinds of locations: on
  an open location a leading slash of a configured prefix is ignored, as the configuration promises;
  on a location that authenticates a prefix with a leading slash has no effect at all, because the
  endpoint it is compared with has none, and the bodies are logged as if it were not configured.
\<close>

theorem slash_prefix_divergence:
  assumes "list_all (\<lambda>p. \<not> has_prefix p ''/'') ps"
    and "\<not> has_prefix (me_NormalizedEndpoint (rc_endpointMeta (g_ctx s))) ''/''"
  shows "open_handler x (with_prefixes (map (\<lambda>p. ''/'' @ p) ps) config) log proxy =
      open_handler x (with_prefixes ps config) log proxy \<and>
    authenticated_handler x (with_prefixes (map (\<lambda>p. ''/'' @ p) ps) config) settings log proxy s =
      authenticated_handler x (with_prefixes [] config) settings log proxy s"
proof (intro conjI)
  let ?slash = "map (\<lambda>p. ''/'' @ p)"
  have "map (\<lambda>p. trim_prefix p ''/'') ps = ps" "map (\<lambda>p. trim_prefix p ''/'') (?slash ps) = ps"
    using assms(1) trim_prefix_append [of "''/''"] by (simp_all add: map_idI list_all_iff trim_prefix_def)
  then show "open_handler x (with_prefixes (?slash ps) config) log proxy = open_handler x (with_prefixes ps config) log proxy"
    by (simp add: open_handler_def location_logger_def forwardReqIdByAppId_def)
  have "log_body e (?slash ps)" if "\<not> has_prefix e ''/''" for e
    using that by (cases e; induction ps) (auto simp: has_prefix_def)
  then have "log_body (me_NormalizedEndpoint (rc_endpointMeta (g_ctx s))) (?slash ps)" using assms(2) by blast
  then show "authenticated_handler x (with_prefixes (?slash ps) config) settings log proxy s =
      authenticated_handler x (with_prefixes [] config) settings log proxy s"
    by (simp add: authenticated_handler_def location_logger_def access_chain_prefixes Logger_def)
qed

theorem slash_prefix_divergence_witness:
  "authenticated_handler idle (with_prefixes [''/secret''] sample_config) Map.empty True (\<lambda>s. (Ok (), s))
      (fresh_gate (zero_EndpointMeta\<lparr>me_NormalizedEndpoint := ''secret/keys''\<rparr>) sample_request ()) =
   authenticated_handler idle (with_prefixes [] sample_config) Map.empty True (\<lambda>s. (Ok (), s))
      (fresh_gate (zero_EndpointMeta\<lparr>me_NormalizedEndpoint := ''secret/keys''\<rparr>) sample_request ())"
  using slash_prefix_divergence [of "[''secret'']"
      "fresh_gate (zero_EndpointMeta\<lparr>me_NormalizedEndpoint := ''secret/keys''\<rparr>) sample_request ()" idle sample_config True
      "\<lambda>s. (Ok (), s)" Map.empty]
  by (simp add: fresh_gate_def NewContext_def has_prefix_def)

text \<open>The setting of an application: the last one in the configuration.\<close>

definition forwarding_configured :: "conf_Remote \<Rightarrow> go_int \<Rightarrow> bool" where
  "forwarding_configured config i =
     (case find (\<lambda>st. cf_ApplicationId st = i) (rev (cr_ForwardReqIdClientSettings config)) of
        None \<Rightarrow> False | Some st \<Rightarrow> cf_ForwardRequestId st)"

lemma forwardReqIdByAppId_eq: "forwardReqIdByAppId config i = forwarding_configured config i"
  by (simp add: forwardReqIdByAppId_def forwarding_configured_def fold_map_upd fun_eq_iff split: option.splits)

text \<open>
  C20. Which request identifier is passed on: the client's own (without surrounding white space) when it
  sent one and the configuration allows it, for everybody or for its application; otherwise the one
  the gateway has given the request. An application the configuration does not mention is not
  allowed; of several settings of an application the last counts.
\<close>

theorem request_id_forwarding:
  assumes "\<And>ctx i. x_requestid_FromContext x (x_requestid_ToContext x ctx i) = i"
    and "\<And>ctx f. x_requestid_FromContext x (x_log_RewriteContextField x ctx f) = x_requestid_FromContext x ctx"
    and "\<And>ctx fs. x_requestid_FromContext x (x_log_ToContext x ctx fs) = x_requestid_FromContext x ctx"
    and "(case GetAuthData (g_ctx s) of Err e \<Rightarrow> Ok zero_AppAuthData | r \<Rightarrow> r) = Ok a"
    and "client = trim_space (Header_Get (rq_Header (rc_request (g_ctx s))) RequestIdHeader)"
  shows "\<exists>s'. passes (ClientRequestId x (cr_EnableClientRequestIdForwarding config) (forwardReqIdByAppId config)) s s' \<and>
    context_request_id x s' =
      (if client \<noteq> [] \<and> (cr_EnableClientRequestIdForwarding config \<or> forwarding_configured config (ad_ApplicationId a))
       then client else context_request_id x s)"
proof -
  let ?i = "if client \<noteq> [] \<and> (cr_EnableClientRequestIdForwarding config \<or> forwarding_configured config (ad_ApplicationId a))
    then client else context_request_id x s"
  let ?g = "x_log_ToContext x (x_log_RewriteContextField x (x_requestid_ToContext x (Context_Context (g_ctx s)) ?i)
      (LogString RequestIdLogKey ?i)) (if client = [] then [] else [LogString ''clientRequestId'' client])"
  have "passes (ClientRequestId x (cr_EnableClientRequestIdForwarding config) (forwardReqIdByAppId config)) s
      (on_ctx (SetContext ?g) s)"
    using assms(4) by (auto simp: passes_def ClientRequestId_def Let_def assms(5) [symmetric] context_request_id_def forwardReqIdByAppId_eq)
  moreover have "context_request_id x (on_ctx (SetContext ?g) s) = ?i"
    by (simp add: context_request_id_def Context_Context_def SetContext_def assms(1-3))
  ultimately show ?thesis by blast
qed

theorem request_id_forwarding_witness:
  "\<exists>s'. passes (ClientRequestId idle (cr_EnableClientRequestIdForwarding (sample_config\<lparr>cr_EnableClientRequestIdForwarding := True\<rparr>))
       (forwardReqIdByAppId (sample_config\<lparr>cr_EnableClientRequestIdForwarding := True\<rparr>)))
      (fresh_gate zero_EndpointMeta sample_request ()) s' \<and> context_request_id idle s' = ''id''"
proof -
  have i: "''id'' = trim_space (Header_Get (rq_Header (rc_request (g_ctx (fresh_gate zero_EndpointMeta sample_request ())))) RequestIdHeader)"
    by (simp add: fresh_gate_def NewContext_def) code_simp
  show ?thesis
    using request_id_forwarding [of idle "fresh_gate zero_EndpointMeta sample_request ()" zero_AppAuthData "''id''"
        "sample_config\<lparr>cr_EnableClientRequestIdForwarding := True\<rparr>", OF _ _ _ _ i]
    by (simp add: idle_def WithValue_def Value_def fresh_gate_def NewContext_def GetAuthData_def)
qed

end
