(* ===== verification/Gate_Server.thy ===== *)
theory Gate_Server
  imports Gate_Configuration
begin

text \<open>
  The running gateway: the events of \<open>assembly/assembly.go\<close> (a configuration, an announcement of
  routes, a request, a tick of the cleaner) as steps on the state of the server, the states they
  reach, and the invariant of these states: the caches hold nothing the modules have not said. From
  it follows who a request that reaches a proxy acts for.
\<close>

section \<open>What the caches are worth\<close>

text \<open>What the modules can have said: that a token is that of an application, and so on.\<close>

definition system_vouches :: "'w ext \<Rightarrow> string \<Rightarrow> entity_AppAuthData \<Rightarrow> bool" where
  "system_vouches x token d \<longleftrightarrow>
     (\<exists>w r w'. x_system_authenticate x ''system/secure/authenticate'' \<lparr>eq_Token = token\<rparr> w = (Inr r, w') \<and>
        er_Authenticated r \<and> er_AuthData r = Some d)"

definition system_permits :: "'w ext \<Rightarrow> go_int \<Rightarrow> string \<Rightarrow> string \<Rightarrow> bool" where
  "system_permits x i method endpoint \<longleftrightarrow>
     (\<exists>w r w'. x_system_authorize x ''system/secure/authorize''
          \<lparr>ez_ApplicationId = i, ez_HttpMethod = method, ez_Endpoint = endpoint\<rparr> w = (Inr r, w') \<and> ez_Authorized r)"

definition admin_permits :: "'w ext \<Rightarrow> go_int \<Rightarrow> string \<Rightarrow> bool" where
  "admin_permits x i permission \<longleftrightarrow>
     (\<exists>w r w'. x_admin_authorize x ''admin/secure/authorize'' \<lparr>emz_AdminId = i, emz_Permission = permission\<rparr> w = (Inr r, w') \<and>
        emz_Authorized r)"

definition user_vouches :: "'w ext \<Rightarrow> string \<times> string \<Rightarrow> entity_UserAuthData \<Rightarrow> bool" where
  "user_vouches x k d \<longleftrightarrow>
     (\<exists>host w r w'. x_post_user_auth x (''http://'' @ host @ ''/'' @ fst k) \<lparr>euq_Token = snd k\<rparr> w = (Inr r, w') \<and>
        eur_Authenticated r \<and> eur_AuthData r = Some d)"

text \<open>
  The caches hold nothing the modules have not said, up to what the codec makes of it; in the cache
  of users an entry may come from another pair of endpoint and token with the same joined key.
\<close>

definition apps_vouched :: "'w ext \<Rightarrow> 'w gate \<Rightarrow> bool" where
  "apps_vouched x s \<longleftrightarrow> (\<forall>t d. app_holds x s t d \<longrightarrow> (\<exists>d0. system_vouches x t d0 \<and> app_codes x d0 d))"

definition users_vouched :: "'w ext \<Rightarrow> 'w gate \<Rightarrow> bool" where
  "users_vouched x s \<longleftrightarrow>
     (\<forall>k d. user_holds x s k d \<longrightarrow> (\<exists>k0 d0. same_user_key k0 k \<and> user_vouches x k0 d0 \<and> user_codes x d0 d))"

definition permissions_vouched :: "'w ext \<Rightarrow> 'w gate \<Rightarrow> bool" where
  "permissions_vouched x s \<longleftrightarrow>
     (\<forall>i e. permission_held g_authz_cache s i e \<longrightarrow> (\<exists>m p. e = m @ '' '' @ p \<and> system_permits x i m p))"

definition admins_vouched :: "'w ext \<Rightarrow> 'w gate \<Rightarrow> bool" where
  "admins_vouched x s \<longleftrightarrow> (\<forall>i p. permission_held g_admin_cache s i p \<longrightarrow> admin_permits x i p)"

definition vouched :: "'w ext \<Rightarrow> 'w gate \<Rightarrow> bool" where
  "vouched x s \<longleftrightarrow> apps_vouched x s \<and> users_vouched x s \<and> permissions_vouched x s \<and> admins_vouched x s"

lemma vouched_cong:
  "g_app_cache s' = g_app_cache s \<Longrightarrow> apps_vouched x s' = apps_vouched x s"
  "g_user_cache s' = g_user_cache s \<Longrightarrow> users_vouched x s' = users_vouched x s"
  "g_authz_cache s' = g_authz_cache s \<Longrightarrow> permissions_vouched x s' = permissions_vouched x s"
  "g_admin_cache s' = g_admin_cache s \<Longrightarrow> admins_vouched x s' = admins_vouched x s"
  by (simp_all add: apps_vouched_def users_vouched_def permissions_vouched_def admins_vouched_def
      app_holds_def user_holds_def permission_held_def)

lemma vouched_same_caches: "same_caches s s' \<Longrightarrow> vouched x s' = vouched x s"
  unfolding vouched_def same_caches_def by (simp add: vouched_cong [of s' s])

lemma vouched_New:
  "g_app_cache s = New \<Longrightarrow> apps_vouched x s"
  "g_user_cache s = New \<Longrightarrow> users_vouched x s"
  "g_authz_cache s = New \<Longrightarrow> permissions_vouched x s"
  "g_admin_cache s = New \<Longrightarrow> admins_vouched x s"
  by (simp_all add: apps_vouched_def users_vouched_def permissions_vouched_def admins_vouched_def
      app_holds_def user_holds_def permission_held_def New_def)

section \<open>The services say what the modules said\<close>

lemma System_Authenticate_vouches:
  "fst (System_Authenticate x t s) = Ok r \<Longrightarrow> er_Authenticated r \<Longrightarrow> er_AuthData r = Some d \<Longrightarrow> system_vouches x t d"
  unfolding system_vouches_def System_Authenticate_def in_world_def
  by (auto split: prod.splits sum.splits)

lemma System_Authorize_permits:
  "fst (System_Authorize x \<lparr>ez_ApplicationId = i, ez_HttpMethod = m, ez_Endpoint = e\<rparr> s) = Ok True \<Longrightarrow> system_permits x i m e"
  unfolding system_permits_def System_Authorize_def in_world_def
  by (auto split: prod.splits sum.splits)

lemma Admin_Authorize_permits:
  "fst (Admin_Authorize x i p s) = Ok True \<Longrightarrow> admin_permits x i p"
  unfolding admin_permits_def Admin_Authorize_def in_world_def
  by (auto split: prod.splits sum.splits)

lemma UserAuth_Authenticate_vouches:
  "fst (UserAuth_Authenticate x e t s) = Ok r \<Longrightarrow> eur_Authenticated r \<Longrightarrow> eur_AuthData r = Some d \<Longrightarrow> user_vouches x (e, t) d"
  unfolding user_vouches_def UserAuth_Authenticate_def in_world_def Let_def
  by (fastforce split: prod.splits sum.splits)

text \<open>Each service changes its own cache only.\<close>

lemma services_other_caches [simp]:
  "g_user_cache (snd (app_authenticator x config t s)) = g_user_cache s"
  "g_authz_cache (snd (app_authenticator x config t s)) = g_authz_cache s"
  "g_admin_cache (snd (app_authenticator x config t s)) = g_admin_cache s"
  "g_app_cache (snd (user_authenticator x settings c s)) = g_app_cache s"
  "g_authz_cache (snd (user_authenticator x settings c s)) = g_authz_cache s"
  "g_admin_cache (snd (user_authenticator x settings c s)) = g_admin_cache s"
  "g_app_cache (snd (app_authorizer x config i m e s)) = g_app_cache s"
  "g_user_cache (snd (app_authorizer x config i m e s)) = g_user_cache s"
  "g_admin_cache (snd (app_authorizer x config i m e s)) = g_admin_cache s"
  "g_app_cache (snd (admin_authorizer x config i m s)) = g_app_cache s"
  "g_user_cache (snd (admin_authorizer x config i m s)) = g_user_cache s"
  "g_authz_cache (snd (admin_authorizer x config i m s)) = g_authz_cache s"
  by (auto simp: user_authenticator_def UserAuthentication_Authenticate_def authenticate_user_def
      app_authenticator_def Authentication_Authenticate_def app_authorizer_def Authorization_Authorize_def
      admin_authorizer_def AdminAuthorize_def AuthenticationCache_Set_def UserAuthenticationCache_Set_def
      AuthorizationCache_SetAuthorized_def UserAuth_Authenticate_def store_eq Let_def split_beta
      split: res.splits option.splits sum.splits)

lemma app_authenticator_vouched:
  assumes "apps_vouched x s"
  shows "apps_vouched x (snd (app_authenticator x config t s))"
  unfolding apps_vouched_def
proof (intro allI impI)
  fix k d
  assume "app_holds x (snd (app_authenticator x config t s)) k d"
  from app_auth.content_origin [OF this [unfolded app_authenticator_def]]
  show "\<exists>d0. system_vouches x k d0 \<and> app_codes x d0 d"
  proof (elim disjE conjE exE)
    fix r d0
    assume "k = t" "fst (System_Authenticate x t (snd (AuthenticationCache_Get x t s))) = Ok r"
      "er_Authenticated r" "er_AuthData r = Some d0" "app_codes x d0 d"
    then show ?thesis using System_Authenticate_vouches by blast
  qed (use assms in \<open>simp add: apps_vouched_def\<close>)
qed

lemma app_authorizer_vouched:
  assumes "permissions_vouched x s"
  shows "permissions_vouched x (snd (app_authorizer x config i m e s))"
  unfolding permissions_vouched_def
proof (intro allI impI)
  fix i' c
  assume "permission_held g_authz_cache (snd (app_authorizer x config i m e s)) i' c"
  from app_authz.permissions_origin [OF this [unfolded app_authorizer_def]]
  show "\<exists>m p. c = m @ '' '' @ p \<and> system_permits x i' m p"
    using assms System_Authorize_permits by (elim disjE conjE) (simp add: permissions_vouched_def, blast)
qed

lemma admin_authorizer_vouched:
  assumes "admins_vouched x s"
  shows "admins_vouched x (snd (admin_authorizer x config i p s))"
  unfolding admins_vouched_def
proof (intro allI impI)
  fix i' c
  assume "permission_held g_admin_cache (snd (admin_authorizer x config i p s)) i' c"
  from admin_authz.permissions_origin [OF this [unfolded admin_authorizer_def]]
  show "admin_permits x i' c"
    using assms Admin_Authorize_permits by (elim disjE conjE) (simp add: admins_vouched_def, blast)
qed

lemma user_authenticator_vouched:
  assumes "users_vouched x s"
  shows "users_vouched x (snd (user_authenticator x settings c s))"
  unfolding users_vouched_def
proof (intro allI impI)
  fix k d
  let ?auth = "authenticate_user (UserAuthenticationCache_Get x) (UserAuthenticationCache_Set x) (UserAuth_Authenticate x)"
  assume "user_holds x (snd (user_authenticator x settings c s)) k d"
  then consider "user_holds x s k d" | st t where "user_holds x (snd (?auth st t s)) k d"
    by (auto simp: user_authenticator_def UserAuthentication_Authenticate_def Let_def split_beta
        split: if_splits option.splits res.splits)
  then show "\<exists>k0 d0. same_user_key k0 k \<and> user_vouches x k0 d0 \<and> user_codes x d0 d"
  proof cases
    case 1
    then show ?thesis using assms unfolding users_vouched_def by blast
  next
    case 2
    from user_auth.user_content_origin [OF 2 refl] show ?thesis
      using assms UserAuth_Authenticate_vouches by (elim disjE conjE exE) (unfold users_vouched_def, blast+)
  qed
qed

lemma services_vouched:
  assumes "vouched x s"
  shows "vouched x (snd (user_authenticator x settings c s))"
    and "vouched x (snd (app_authenticator x config t s))"
    and "vouched x (snd (app_authorizer x config i m e s))"
    and "vouched x (snd (admin_authorizer x config i p s))"
  unfolding vouched_def
  using assms [unfolded vouched_def] user_authenticator_vouched [of x s settings c] app_authenticator_vouched [of x s config t]
    app_authorizer_vouched [of x s config i m e] admin_authorizer_vouched [of x s config i p]
    vouched_cong(1,3,4) [of "snd (user_authenticator x settings c s)" s x]
    vouched_cong(2-4) [of "snd (app_authenticator x config t s)" s x]
    vouched_cong(1,2,4) [of "snd (app_authorizer x config i m e s)" s x]
    vouched_cong(1-3) [of "snd (admin_authorizer x config i p s)" s x]
  by simp_all

lemma vouched_updates [simp]:
  "vouched x (s\<lparr>g_ctx := c\<rparr>) = vouched x s" "vouched x (s\<lparr>g_world := w\<rparr>) = vouched x s"
  "vouched x (s\<lparr>g_log := l\<rparr>) = vouched x s" "vouched x (s\<lparr>g_metrics := ms\<rparr>) = vouched x s"
  "vouched x (s\<lparr>g_rw := v\<rparr>) = vouched x s" "vouched x (s\<lparr>g_wrapper_status := n\<rparr>) = vouched x s"
  "vouched x (s\<lparr>g_log_level := lv\<rparr>) = vouched x s"
  by (rule vouched_same_caches, simp add: same_caches_def)+

interpretation vouching: gate_invariant x config "\<lambda>s s'. vouched x s \<longrightarrow> vouched x s'" for x :: "'w ext" and config
  by unfold_locales (simp_all add: services_vouched)

section \<open>Where an identity comes from\<close>

definition admin_vouches :: "'w ext \<Rightarrow> string \<Rightarrow> go_int \<Rightarrow> bool" where
  "admin_vouches x token i \<longleftrightarrow>
     (\<exists>w r w'. x_admin_authenticate x ''admin/secure/authenticate'' \<lparr>eq_Token = token\<rparr> w = (Inr r, w') \<and>
        em_Authenticated r \<and> em_AdminId r = i)"

text \<open>The data of an application, a user, a permission, with the word of the module behind it.\<close>

definition app_known :: "'w ext \<Rightarrow> string \<Rightarrow> AppAuthData \<Rightarrow> bool" where
  "app_known x token a \<longleftrightarrow>
     (\<exists>d0 d. system_vouches x token d0 \<and> (d = d0 \<or> app_codes x d0 d) \<and> a = convertAuthData d)"

definition user_known :: "'w ext \<Rightarrow> userAuthSetting \<Rightarrow> string \<Rightarrow> UserAuthData \<Rightarrow> bool" where
  "user_known x st token u \<longleftrightarrow>
     (\<exists>k0 d0 d. same_user_key k0 (us_authEndpoint st, token) \<and> user_vouches x k0 d0 \<and>
        (d = d0 \<or> user_codes x d0 d) \<and> u = convertUserAuthData (us_skipAppAuth st) d)"

definition call_permitted :: "'w ext \<Rightarrow> go_int \<Rightarrow> string \<Rightarrow> string \<Rightarrow> bool" where
  "call_permitted x i method path \<longleftrightarrow>
     (\<exists>m p. method @ '' '' @ path = m @ '' '' @ p \<and> system_permits x i m p)"

lemma app_authenticator_origin:
  assumes "vouched x s" "fst (app_authenticator x config t s) = Ok resp" "ar_Authenticated resp" "ar_AuthData resp = Some a"
  shows "app_known x t a"
proof -
  obtain d where d: "ar_AuthData resp = Some (convertAuthData d)" and
    o: "app_holds x s t d \<or> (\<exists>r. fst (System_Authenticate x t (snd (AuthenticationCache_Get x t s))) = Ok r \<and>
      er_Authenticated r \<and> er_AuthData r = Some d)"
    using app_auth.authenticated_origin [OF assms(2) [unfolded app_authenticator_def] assms(3)] by blast
  from o show ?thesis
  proof
    assume "app_holds x s t d"
    then show ?thesis using assms(1,4) d unfolding vouched_def apps_vouched_def app_known_def by fastforce
  next
    assume "\<exists>r. fst (System_Authenticate x t (snd (AuthenticationCache_Get x t s))) = Ok r \<and>
      er_Authenticated r \<and> er_AuthData r = Some d"
    then have "system_vouches x t d" using System_Authenticate_vouches by blast
    then show ?thesis using assms(4) d unfolding app_known_def by auto
  qed
qed

lemma app_authorizer_origin:
  assumes "vouched x s" "fst (app_authorizer x config i m e s) = Ok True"
  shows "call_permitted x i m e"
  using app_authz.authorized_origin [OF assms(2) [unfolded app_authorizer_def]] assms(1) System_Authorize_permits
  unfolding vouched_def permissions_vouched_def call_permitted_def by blast

lemma admin_authorizer_origin:
  assumes "vouched x s" "fst (admin_authorizer x config i p s) = Ok True"
  shows "admin_permits x i p"
  using admin_authz.authorized_origin [OF assms(2) [unfolded admin_authorizer_def]] assms(1) Admin_Authorize_permits
  unfolding vouched_def admins_vouched_def by blast

lemma admin_authenticator_origin:
  assumes "fst (admin_authenticator x t s) = Ok resp" "mr_Authenticated resp"
  shows "admin_vouches x t (mr_AdminId resp)"
  using assms unfolding admin_vouches_def admin_authenticator_def AdminAuthenticate_def Admin_Authenticate_def in_world_def
  by (fastforce split: prod.splits res.splits)

lemma user_authenticator_origin:
  assumes "vouched x s" "fst (user_authenticator x settings c s) = Ok resp" "\<not> ur_SkipUserAuth resp"
    "ur_Authenticated resp" "ur_AuthData resp = Some u"
  shows "\<exists>st t. settings (me_ModuleName (rc_endpointMeta c)) = Some st \<and>
    extractToken (rc_request c) (us_tokenProviders st) = Ok t \<and> user_known x st t u"
proof -
  let ?auth = "authenticate_user (UserAuthenticationCache_Get x) (UserAuthenticationCache_Set x) (UserAuth_Authenticate x)"
  obtain st t where st: "settings (me_ModuleName (rc_endpointMeta c)) = Some st"
    and t: "extractToken (rc_request c) (us_tokenProviders st) = Ok t" and a: "fst (?auth st t s) = Ok resp"
    using assms(2,3) by (auto simp: user_authenticator_def UserAuthentication_Authenticate_def Let_def split_beta
        split: if_splits option.splits res.splits)
  have "user_known x st t u"
    using user_auth.user_origin [OF a assms(4) refl]
  proof (elim disjE exE conjE)
    fix d
    assume "ur_AuthData resp = Some (convertUserAuthData (us_skipAppAuth st) d)" "user_holds x s (us_authEndpoint st, t) d"
    then show ?thesis using assms(1,5) unfolding vouched_def users_vouched_def user_known_def by fastforce
  next
    fix r s0
    assume r: "fst (UserAuth_Authenticate x (us_authEndpoint st) t s0) = Ok r" "eur_Authenticated r"
      "resp = convertAuthResponse r (us_skipAppAuth st)"
    then obtain d where d: "eur_AuthData r = Some d" "u = convertUserAuthData (us_skipAppAuth st) d"
      using assms(5) by (auto simp: convertAuthResponse_def)
    with UserAuth_Authenticate_vouches [OF r(1,2)] show ?thesis
      unfolding user_known_def same_user_key_def by blast
  qed
  with st t show ?thesis by blast
qed

text \<open>The credentials of an application in a request: the token and the name, empty with a plain token.\<close>

definition app_credentials :: "'w ext \<Rightarrow> http_request \<Rightarrow> string \<times> string" where
  "app_credentials x req =
     (let token = fst (Param (x_unicode_lower x) applicationTokenHeader (NewContext req ServerWriter zero_EndpointMeta)) in
      if token \<noteq> [] then (token, [])
      else case BasicAuth req of (name, token, ok) \<Rightarrow> (token, name))"

definition admin_credentials :: "'w ext \<Rightarrow> http_request \<Rightarrow> string" where
  "admin_credentials x req =
     fst (Param (x_unicode_lower x) adminAuthHeader (NewContext req ServerWriter zero_EndpointMeta))"

text \<open>Who a request acts for, and that the modules have said so.\<close>

definition attributed ::
  "'w ext \<Rightarrow> (string \<rightharpoonup> userAuthSetting) \<Rightarrow> http_request \<Rightarrow> EndpointMeta \<Rightarrow> Context \<Rightarrow> bool" where
  "attributed x settings req meta c \<longleftrightarrow>
     (rc_userAuthenticated c \<longrightarrow>
        (\<exists>st t u. settings (me_ModuleName meta) = Some st \<and> extractToken req (us_tokenProviders st) = Ok t \<and>
           GetUserAuthData c = Ok u \<and> user_known x st t u)) \<and>
     (\<not> SkipAppAuth c \<longrightarrow>
        (\<exists>a. GetAuthData c = Ok a \<and> app_known x (fst (app_credentials x req)) a \<and>
           (snd (app_credentials x req) = [] \<or> ad_AppName a = snd (app_credentials x req)) \<and>
           (rc_adminAuthenticated c \<or> call_permitted x (ad_ApplicationId a) (rq_Method req) (me_PathSchema meta)))) \<and>
     (rc_adminAuthenticated c \<longrightarrow> admin_vouches x (admin_credentials x req) (rc_adminId c)) \<and>
     (me_Inner meta \<longrightarrow>
        rc_adminAuthenticated c \<and>
        (me_RequiredAdminPermission meta = [] \<or> admin_permits x (rc_adminId c) (me_RequiredAdminPermission meta)))"

text \<open>
  \<open>Param\<close> reads a request's headers and query only, whatever has become of the rest of the context.
\<close>

definition fresh_params :: "(string \<Rightarrow> string) \<Rightarrow> http_request \<Rightarrow> Context \<Rightarrow> bool" where
  "fresh_params ul req c \<longleftrightarrow>
     rq_Header (rc_request c) = rq_Header req \<and> rq_Query (rc_request c) = rq_Query req \<and>
     rc_queryParams c \<in> {None, Some (query_params ul (rq_Query req))}"

lemma Param_fresh:
  assumes "fresh_params ul req c"
  shows "fst (Param ul n c) = fst (Param ul n (NewContext req ServerWriter zero_EndpointMeta))"
    and "fresh_params ul req (snd (Param ul n c))"
  using assms by (auto simp: fresh_params_def Param_def Let_def NewContext_def)

lemma extractAppToken_credentials:
  assumes "fresh_params (x_unicode_lower x) req (g_ctx s)" "extractAppToken x s = (Ok (t, n), s1)"
  shows "(t, n) = app_credentials x req" and "fresh_params (x_unicode_lower x) req (g_ctx s1)"
    and "\<exists>c. s1 = s\<lparr>g_ctx := c\<rparr>"
proof -
  have b: "BasicAuth (rc_request (g_ctx s)) = BasicAuth req"
    using assms(1) by (simp add: fresh_params_def BasicAuth_def)
  show "(t, n) = app_credentials x req" "fresh_params (x_unicode_lower x) req (g_ctx s1)" "\<exists>c. s1 = s\<lparr>g_ctx := c\<rparr>"
    using assms(2) Param_fresh [OF assms(1), of applicationTokenHeader] b
    by (auto simp: extractAppToken_def app_credentials_def Let_def split_beta Param_keeps split: if_splits)
qed

lemma SetContext_getters:
  "GetAuthData (SetContext ctx c) = GetAuthData c" "GetUserAuthData (SetContext ctx c) = GetUserAuthData c"
  "SkipAppAuth (SetContext ctx c) = SkipAppAuth c"
  by (simp_all add: SetContext_def GetAuthData_def GetUserAuthData_def SkipAppAuth_def)

lemma extractToken_request [simp]:
  "extractToken (req\<lparr>rq_Body := b, rq_Context := g\<rparr>) ps = extractToken req ps"
proof -
  have "token_of (req\<lparr>rq_Body := b, rq_Context := g\<rparr>) p = token_of req p" for p
    by (cases p) (simp_all add: Request_Cookie_def)
  then show ?thesis by (simp add: extractToken_eq cong: map_cong)
qed

section \<open>Services that speak with the word of the modules\<close>

text \<open>
  The checks of a location need little of the services behind them: in the states that satisfy an
  invariant \<open>I\<close> their answers have the word of the modules of \<open>x\<close> behind them, they keep \<open>I\<close>, and they
  leave the request alone. Then a request the checks admit acts for whom it says. The gateway's
  services on its own caches are one instance; the same services under interleaving are another.
\<close>

locale vouching_services =
  fixes x :: "'v ext" and y :: "'w ext" and settings :: "string \<rightharpoonup> userAuthSetting"
    and I :: "'w gate \<Rightarrow> bool"
    and ua :: "Context \<Rightarrow> 'w gate \<Rightarrow> AuthenticateUserResponse res \<times> 'w gate"
    and aa :: "string \<Rightarrow> 'w gate \<Rightarrow> AuthenticateAppResponse res \<times> 'w gate"
    and ma :: "string \<Rightarrow> 'w gate \<Rightarrow> AdminAuthenticateResponse res \<times> 'w gate"
    and za :: "go_int \<Rightarrow> string \<Rightarrow> string \<Rightarrow> 'w gate \<Rightarrow> bool res \<times> 'w gate"
    and na :: "go_int \<Rightarrow> string \<Rightarrow> 'w gate \<Rightarrow> bool res \<times> 'w gate"
    and th :: "go_int \<Rightarrow> 'w gate \<Rightarrow> RateLimitResult res \<times> 'w gate"
    and dl :: "go_int \<Rightarrow> 'w gate \<Rightarrow> bool res \<times> 'w gate"
  assumes lower: "x_unicode_lower y = x_unicode_lower x"
    and I_request: "I s \<Longrightarrow> I (s\<lparr>g_ctx := c\<rparr>)" "I s \<Longrightarrow> I (s\<lparr>g_log := l\<rparr>)"
    and I_kept: "I s \<Longrightarrow> I (snd (ua c s))" "I s \<Longrightarrow> I (snd (aa t s))" "I s \<Longrightarrow> I (snd (ma t s))"
      "I s \<Longrightarrow> I (snd (za i m e s))"
    and ctx_kept: "g_ctx (snd (ua c s)) = g_ctx s" "g_ctx (snd (aa t s)) = g_ctx s" "g_ctx (snd (ma t s)) = g_ctx s"
      "g_ctx (snd (za i m e s)) = g_ctx s" "g_ctx (snd (na i p s)) = g_ctx s" "g_ctx (snd (th i s)) = g_ctx s"
      "g_ctx (snd (dl i s)) = g_ctx s"
    and user_answer: "I s \<Longrightarrow> fst (ua c s) = Ok resp \<Longrightarrow> \<not> ur_SkipUserAuth resp \<Longrightarrow> ur_Authenticated resp \<Longrightarrow>
      ur_AuthData resp = Some u \<Longrightarrow> \<exists>st t. settings (me_ModuleName (rc_endpointMeta c)) = Some st \<and>
        extractToken (rc_request c) (us_tokenProviders st) = Ok t \<and> user_known x st t u"
    and app_answer: "I s \<Longrightarrow> fst (aa t s) = Ok ar \<Longrightarrow> ar_Authenticated ar \<Longrightarrow> ar_AuthData ar = Some a \<Longrightarrow> app_known x t a"
    and admin_answer: "I s \<Longrightarrow> fst (ma t s) = Ok mr \<Longrightarrow> mr_Authenticated mr \<Longrightarrow> admin_vouches x t (mr_AdminId mr)"
    and permit_answer: "I s \<Longrightarrow> fst (za i m e s) = Ok True \<Longrightarrow> call_permitted x i m e"
    and admin_permit_answer: "I s \<Longrightarrow> fst (na i p s) = Ok True \<Longrightarrow> admin_permits x i p"
begin

lemma user_step:
  assumes "user_admits ua s s'" "I s"
  shows "I s'"
    and "g_ctx s' = g_ctx s \<or>
      (\<exists>st t u. settings (me_ModuleName (rc_endpointMeta (g_ctx s))) = Some st \<and>
         extractToken (rc_request (g_ctx s)) (us_tokenProviders st) = Ok t \<and> user_known x st t u \<and>
         g_ctx s' = AuthenticateUser u (g_ctx s))"
proof -
  obtain resp s1 where a: "ua (g_ctx s) s = (Ok resp, s1)" and pass: "if ur_SkipUserAuth resp then s' = s1
      else ur_Authenticated resp \<and> (\<exists>d. ur_AuthData resp = Some d \<and>
        s' = (let s2 = on_ctx (AuthenticateUser d) s1 in
              if ud_SkipAppAuth d then log_call DebugLevel
                ''skip app auth is set. All steps that require app auth data are skipped'' [] s2 else s2))"
    using assms(1) unfolding user_admits_def by blast
  have s': "if ur_SkipUserAuth resp then s' = s1 else ur_Authenticated resp \<and>
      (\<exists>u. ur_AuthData resp = Some u \<and>
         (s' = on_ctx (AuthenticateUser u) s1 \<or> (\<exists>l. s' = (on_ctx (AuthenticateUser u) s1)\<lparr>g_log := l\<rparr>)))"
    using pass unfolding Let_def log_call_def by (simp split: if_splits) metis
  have q: "g_ctx s1 = g_ctx s" and v: "I s1"
    using ctx_kept(1) [of "g_ctx s" s] I_kept(1) [OF assms(2), of "g_ctx s"] by (simp_all add: a)
  show "I s'" using s' v by (auto split: if_splits intro: I_request)
  have f: "fst (ua (g_ctx s) s) = Ok resp" by (simp add: a)
  show "g_ctx s' = g_ctx s \<or>
      (\<exists>st t u. settings (me_ModuleName (rc_endpointMeta (g_ctx s))) = Some st \<and>
         extractToken (rc_request (g_ctx s)) (us_tokenProviders st) = Ok t \<and> user_known x st t u \<and>
         g_ctx s' = AuthenticateUser u (g_ctx s))"
  proof (cases "ur_SkipUserAuth resp")
    case False
    with s' obtain u where u: "ur_Authenticated resp" "ur_AuthData resp = Some u" "g_ctx s' = AuthenticateUser u (g_ctx s)"
      using q by auto
    from user_answer [OF assms(2) f False u(1,2)] u(3) show ?thesis by blast
  qed (use s' q in simp)
qed

lemma app_step:
  assumes "app_admits y aa s s'" "I s" "fresh_params (x_unicode_lower x) req (g_ctx s)" "\<not> SkipAppAuth (g_ctx s)"
  shows "I s'"
    and "\<exists>a n. app_known x (fst (app_credentials x req)) a \<and>
      (snd (app_credentials x req) = [] \<or> ad_AppName a = snd (app_credentials x req)) \<and>
      g_ctx s' = Context_Authenticate a (snd (Param (x_unicode_lower x) n (g_ctx s)))"
proof -
  obtain token n s1 resp s2 a where e: "extractAppToken y s = (Ok (token, n), s1)"
    and auth: "aa token s1 = (Ok resp, s2)" "ar_Authenticated resp" "ar_AuthData resp = Some a"
    and n: "n = [] \<or> ad_AppName a = n" and s': "s' = on_ctx (Context_Authenticate a) s2"
    using assms(1,4) by (auto simp: app_admits_def)
  note cred = extractAppToken_credentials [of y req s token n s1, OF _ e, unfolded lower, OF assms(3)]
  have v: "I s1" using cred(3) assms(2) I_request(1) by auto
  show "I s'" using I_kept(2) [OF v, of token] auth(1) s' I_request(1) by simp
  have c: "g_ctx s2 = g_ctx s1" using ctx_kept(2) [of token s1] auth(1) by simp
  have "app_known x token a" using app_answer [OF v, of token resp a] auth by simp
  moreover obtain m where "g_ctx s1 = snd (Param (x_unicode_lower x) m (g_ctx s))"
    using extractAppToken_ctx [of y s] e lower by auto
  moreover have "token = fst (app_credentials y req)" "n = snd (app_credentials y req)"
    using cred(1) by (metis fst_conv, metis snd_conv)
  moreover have "app_credentials y req = app_credentials x req" by (simp add: app_credentials_def lower)
  ultimately show "\<exists>a n. app_known x (fst (app_credentials x req)) a \<and>
      (snd (app_credentials x req) = [] \<or> ad_AppName a = snd (app_credentials x req)) \<and>
      g_ctx s' = Context_Authenticate a (snd (Param (x_unicode_lower x) n (g_ctx s)))"
    using n s' c by auto
qed

lemma admin_step:
  assumes "admin_admits y ma s s'" "I s" "fresh_params (x_unicode_lower x) req (g_ctx s)"
    and "\<not> rc_adminAuthenticated (g_ctx s)"
  shows "I s'"
    and "rc_adminAuthenticated (g_ctx s') \<longrightarrow> admin_vouches x (admin_credentials x req) (rc_adminId (g_ctx s'))"
    and "g_ctx s' = snd (Param (x_unicode_lower x) adminAuthHeader (g_ctx s)) \<or>
      (\<exists>i t. g_ctx s' = AuthenticateAdmin i t (snd (Param (x_unicode_lower x) adminAuthHeader (g_ctx s))))"
proof -
  obtain token c where p: "Param (x_unicode_lower x) adminAuthHeader (g_ctx s) = (token, c)" by fastforce
  have t: "token = admin_credentials x req"
    using Param_fresh(1) [OF assms(3), of adminAuthHeader] p by (simp add: admin_credentials_def)
  have c: "rc_adminAuthenticated c = rc_adminAuthenticated (g_ctx s)"
    using p Param_keeps(8) [of "x_unicode_lower x" adminAuthHeader "g_ctx s"] by simp
  have i: "I (s\<lparr>g_ctx := c\<rparr>)" by (rule I_request(1) [OF assms(2)])
  consider "token = []" "s' = s\<lparr>g_ctx := c\<rparr>"
    | resp s1 where "ma token (s\<lparr>g_ctx := c\<rparr>) = (Ok resp, s1)" "mr_Authenticated resp"
        "s' = on_ctx (AuthenticateAdmin (mr_AdminId resp) token) s1"
    using assms(1) p by (auto simp: admin_admits_def lower split: if_splits)
  then have "I s' \<and>
    (rc_adminAuthenticated (g_ctx s') \<longrightarrow> admin_vouches x (admin_credentials x req) (rc_adminId (g_ctx s'))) \<and>
    (g_ctx s' = c \<or> (\<exists>i t. g_ctx s' = AuthenticateAdmin i t c))"
  proof cases
    case 1
    then show ?thesis using i assms(4) c by simp
  next
    case 2
    have "g_ctx s1 = c" using ctx_kept(3) [of token "s\<lparr>g_ctx := c\<rparr>"] 2(1) by simp
    moreover have "I s1" using I_kept(3) [OF i, of token] 2(1) by simp
    moreover have "admin_vouches x token (mr_AdminId resp)"
      using admin_answer [OF i, of token resp] 2(1,2) by simp
    ultimately show ?thesis using 2(3) t I_request(1) by (auto simp: AuthenticateAdmin_def)
  qed
  with p show "I s'"
    and "rc_adminAuthenticated (g_ctx s') \<longrightarrow> admin_vouches x (admin_credentials x req) (rc_adminId (g_ctx s'))"
    and "g_ctx s' = snd (Param (x_unicode_lower x) adminAuthHeader (g_ctx s)) \<or>
      (\<exists>i t. g_ctx s' = AuthenticateAdmin i t (snd (Param (x_unicode_lower x) adminAuthHeader (g_ctx s))))"
    by simp_all
qed

lemma permit_step:
  assumes "authorize_admits za s s'" "I s"
  shows "I s'" and "g_ctx s' = g_ctx s"
    and "\<not> SkipAppAuth (g_ctx s) \<Longrightarrow> \<exists>d. GetAuthData (g_ctx s) = Ok d \<and>
      (rc_adminAuthenticated (g_ctx s) \<or>
       call_permitted x (ad_ApplicationId d) (rq_Method (rc_request (g_ctx s))) (me_PathSchema (rc_endpointMeta (g_ctx s))))"
proof -
  have "I s' \<and> g_ctx s' = g_ctx s \<and> (\<not> SkipAppAuth (g_ctx s) \<longrightarrow> (\<exists>d. GetAuthData (g_ctx s) = Ok d \<and>
      (rc_adminAuthenticated (g_ctx s) \<or>
       call_permitted x (ad_ApplicationId d) (rq_Method (rc_request (g_ctx s))) (me_PathSchema (rc_endpointMeta (g_ctx s))))))"
  proof (cases "SkipAppAuth (g_ctx s)")
    case True
    then show ?thesis using assms by (simp add: authorize_admits_def)
  next
    case False
    then obtain d ok s1 where d: "GetAuthData (g_ctx s) = Ok d"
      and a: "za (ad_ApplicationId d) (rq_Method (rc_request (g_ctx s))) (me_PathSchema (rc_endpointMeta (g_ctx s))) s = (Ok ok, s1)"
      and s': "s' = s1 \<and> ok \<or> rc_adminAuthenticated (g_ctx s1) \<and> (\<exists>l. s' = s1\<lparr>g_log := l\<rparr>)"
      using assms(1) by (auto simp: authorize_admits_def log_call_def split: if_splits)
    have "g_ctx s1 = g_ctx s" "I s1"
      using ctx_kept(4) [of "ad_ApplicationId d" "rq_Method (rc_request (g_ctx s))" "me_PathSchema (rc_endpointMeta (g_ctx s))" s]
        I_kept(4) [OF assms(2), of "ad_ApplicationId d" "rq_Method (rc_request (g_ctx s))" "me_PathSchema (rc_endpointMeta (g_ctx s))"]
      by (simp_all add: a)
    then show ?thesis
      using s' d a permit_answer [OF assms(2), of "ad_ApplicationId d" "rq_Method (rc_request (g_ctx s))" "me_PathSchema (rc_endpointMeta (g_ctx s))"]
        I_request(2) by auto
  qed
  then show "I s'" and "g_ctx s' = g_ctx s"
    and "\<not> SkipAppAuth (g_ctx s) \<Longrightarrow> \<exists>d. GetAuthData (g_ctx s) = Ok d \<and>
      (rc_adminAuthenticated (g_ctx s) \<or>
       call_permitted x (ad_ApplicationId d) (rq_Method (rc_request (g_ctx s))) (me_PathSchema (rc_endpointMeta (g_ctx s))))"
    by simp_all
qed

lemma admin_permit_step:
  assumes "admin_authorize_admits na s s'" "I s"
  shows "g_ctx s' = g_ctx s"
    and "me_Inner (rc_endpointMeta (g_ctx s)) \<Longrightarrow> rc_adminAuthenticated (g_ctx s) \<and>
      (me_RequiredAdminPermission (rc_endpointMeta (g_ctx s)) = [] \<or>
       admin_permits x (rc_adminId (g_ctx s)) (me_RequiredAdminPermission (rc_endpointMeta (g_ctx s))))"
  using assms(1) ctx_kept(5) [of "rc_adminId (g_ctx s)" "me_RequiredAdminPermission (rc_endpointMeta (g_ctx s))" s]
    admin_permit_answer [OF assms(2), of "rc_adminId (g_ctx s)" "me_RequiredAdminPermission (rc_endpointMeta (g_ctx s))"]
  by (auto simp: admin_authorize_admits_def Let_def split: if_splits)

lemma limit_steps:
  "throttling_admits th s s' \<Longrightarrow> g_ctx s' = g_ctx s"
  "daily_admits dl s s' \<Longrightarrow> g_ctx s' = g_ctx s"
  using ctx_kept(6,7) by (auto simp: throttling_admits_def daily_admits_def split: if_splits) (metis snd_conv)+

lemma chain_attributed:
  assumes "(user_admits ua OO app_admits y aa OO admin_admits y ma OO client_id_admits y OO
      authorize_admits za OO admin_authorize_admits na OO throttling_admits th OO daily_admits dl) s s'"
    and "I s" and n: "g_ctx s = NewContext (req\<lparr>rq_Body := b, rq_Context := g\<rparr>) w meta"
  shows "attributed x settings req meta (g_ctx s')"
proof -
  let ?P = "fresh_params (x_unicode_lower x) req"
  obtain s1 s2 s3 s4 s5 s6 s7 where
    u: "user_admits ua s s1" and a: "app_admits y aa s1 s2" and m: "admin_admits y ma s2 s3" and
    c: "client_id_admits y s3 s4" and az: "authorize_admits za s4 s5" and mz: "admin_authorize_admits na s5 s6" and
    t: "throttling_admits th s6 s7" and d: "daily_admits dl s7 s'"
    using assms(1) by auto
  have c1: "I s1" "?P (g_ctx s1)" "rq_Method (rc_request (g_ctx s1)) = rq_Method req"
    "rc_endpointMeta (g_ctx s1) = meta" "\<not> rc_adminAuthenticated (g_ctx s1)"
    "rc_userAuthenticated (g_ctx s1) \<longrightarrow> (\<exists>st t u. settings (me_ModuleName meta) = Some st \<and>
       extractToken req (us_tokenProviders st) = Ok t \<and> GetUserAuthData (g_ctx s1) = Ok u \<and> user_known x st t u)"
    using user_step [OF u assms(2)]
    by (auto simp: n NewContext_def fresh_params_def AuthenticateUser_def GetUserAuthData_def)
  have c2: "I s2 \<and> ?P (g_ctx s2) \<and> rq_Method (rc_request (g_ctx s2)) = rq_Method req \<and>
    rc_endpointMeta (g_ctx s2) = meta \<and> \<not> rc_adminAuthenticated (g_ctx s2) \<and>
    rc_userAuthenticated (g_ctx s2) = rc_userAuthenticated (g_ctx s1) \<and> rc_userAuthData (g_ctx s2) = rc_userAuthData (g_ctx s1) \<and>
    (\<not> SkipAppAuth (g_ctx s2) \<longrightarrow> (\<exists>a. GetAuthData (g_ctx s2) = Ok a \<and> app_known x (fst (app_credentials x req)) a \<and>
       (snd (app_credentials x req) = [] \<or> ad_AppName a = snd (app_credentials x req))))"
  proof (cases "SkipAppAuth (g_ctx s1)")
    case True
    then have "s2 = s1" using a by (simp add: app_admits_def)
    with True c1 show ?thesis by simp
  next
    case False
    obtain a n where known: "app_known x (fst (app_credentials x req)) a"
      "snd (app_credentials x req) = [] \<or> ad_AppName a = snd (app_credentials x req)"
      and c: "g_ctx s2 = Context_Authenticate a (snd (Param (x_unicode_lower x) n (g_ctx s1)))"
      using app_step(2) [OF a c1(1,2) False] by blast
    have "?P (g_ctx s2)" using Param_fresh(2) [OF c1(2), of n] by (simp add: c fresh_params_def Context_Authenticate_def)
    with known c1 app_step(1) [OF a c1(1,2) False] show ?thesis
      by (simp add: c) (simp add: Context_Authenticate_def Param_keeps)
  qed
  have c3: "I s3" "rq_Method (rc_request (g_ctx s3)) = rq_Method req" "rc_endpointMeta (g_ctx s3) = meta"
    "rc_userAuthenticated (g_ctx s3) = rc_userAuthenticated (g_ctx s1)" "rc_userAuthData (g_ctx s3) = rc_userAuthData (g_ctx s1)"
    "SkipAppAuth (g_ctx s3) = SkipAppAuth (g_ctx s2)" "GetAuthData (g_ctx s3) = GetAuthData (g_ctx s2)"
    "rc_adminAuthenticated (g_ctx s3) \<longrightarrow> admin_vouches x (admin_credentials x req) (rc_adminId (g_ctx s3))"
    using admin_step [OF m, of req] c2
    by (auto simp: Param_keeps AuthenticateAdmin_def SkipAppAuth_def GetAuthData_def)
  obtain ctx where s4: "s4 = on_ctx (SetContext ctx) s3" using c by (auto simp: client_id_admits_def)
  have i4: "I s4" using c3(1) s4 I_request(1) by simp
  note permit = permit_step [OF az i4]
  note inner = admin_permit_step [OF mz permit(1)]
  have eq: "g_ctx s' = g_ctx s4" using permit(2) inner(1) limit_steps(1) [OF t] limit_steps(2) [OF d] by simp
  have "GetUserAuthData (g_ctx s3) = GetUserAuthData (g_ctx s1)" using c3(4,5) by (simp add: GetUserAuthData_def)
  with c3 have k: "rc_userAuthenticated (g_ctx s4) = rc_userAuthenticated (g_ctx s1)"
    "GetUserAuthData (g_ctx s4) = GetUserAuthData (g_ctx s1)" "GetAuthData (g_ctx s4) = GetAuthData (g_ctx s2)"
    "SkipAppAuth (g_ctx s4) = SkipAppAuth (g_ctx s2)" "rc_adminAuthenticated (g_ctx s4) = rc_adminAuthenticated (g_ctx s3)"
    "rc_adminId (g_ctx s4) = rc_adminId (g_ctx s3)" "rc_endpointMeta (g_ctx s4) = meta" "rq_Method (rc_request (g_ctx s4)) = rq_Method req"
    by (simp_all add: s4 SetContext_getters) (simp_all add: SetContext_def)
  show ?thesis
    unfolding attributed_def eq
  proof (intro conjI impI)
    assume "\<not> SkipAppAuth (g_ctx s4)"
    with c2 k permit(3) show "\<exists>a. GetAuthData (g_ctx s4) = Ok a \<and> app_known x (fst (app_credentials x req)) a \<and>
        (snd (app_credentials x req) = [] \<or> ad_AppName a = snd (app_credentials x req)) \<and>
        (rc_adminAuthenticated (g_ctx s4) \<or> call_permitted x (ad_ApplicationId a) (rq_Method req) (me_PathSchema meta))"
      by fastforce
  qed (use c1(6) c3(8) inner(2) k permit(2) in simp_all)
qed

end

text \<open>The gateway's services on its own caches.\<close>

interpretation own: vouching_services x x settings "vouched x" "user_authenticator x settings" "app_authenticator x config"
  "admin_authenticator x" "app_authorizer x config" "admin_authorizer x config" "throttler x config" "daily_checker x config"
  for x settings config
proof (unfold_locales, goal_cases)
  case (6 s t)
  then show ?case using vouching.service_steps(5) [of x s s t] by simp
next
  case (15 s c resp u)
  then show ?case by (rule user_authenticator_origin)
next
  case (16 s t ar a)
  then show ?case by (rule app_authenticator_origin)
next
  case (17 s t mr)
  show ?case using 17(2,3) by (rule admin_authenticator_origin)
next
  case (18 s i m e)
  then show ?case by (rule app_authorizer_origin)
next
  case (19 s i p)
  then show ?case by (rule admin_authorizer_origin)
qed (simp_all add: services_vouched services_quiet [unfolded quiet_def, THEN conjunct1])

lemma access_admits_attributed:
  assumes "access_admits x config settings s s'" "vouched x s"
    and "g_ctx s = NewContext (req\<lparr>rq_Body := b, rq_Context := g\<rparr>) w meta"
  shows "attributed x settings req meta (g_ctx s')"
  using own.chain_attributed [OF assms(1) [unfolded access_admits_def] assms(2,3)] .

section \<open>The running gateway\<close>

text \<open>
  The state of a running gateway: the handler the server serves with, the routes, and the shared
  state of the request handlers. A run is a sequence of events; a request is one event, and so
  concurrent requests are the sequences of their events.
\<close>

record 'w server =
  sv_mux :: "(string \<times> 'w routed_handler) list"
  sv_routes :: Routes
  sv_gate :: "'w gate"

datatype 'w event =
    Configure conf_Remote
  | Announce "BackendDeclaration list"
  | Serve http_request response_writer
  | CleanerTick time
  | WorldMoves 'w

text \<open>What the receivers, the server and the cleaner of \<open>Runners\<close> do at an event.\<close>

fun server_step :: "'w ext \<Rightarrow> Clients \<Rightarrow> Location list \<Rightarrow> 'w event \<Rightarrow> 'w server \<Rightarrow> 'w server" where
  "server_step x cs locations (Configure config) v =
     (case ReceiveConfig x cs locations config (sv_mux v, sv_gate v) of
        (r, mux, s) \<Rightarrow> v\<lparr>sv_mux := mux, sv_gate := s\<rparr>)"
| "server_step x cs locations (Announce backends) v =
     v\<lparr>sv_routes := snd (ReceiveRoutes x backends (sv_routes v))\<rparr>"
| "server_step x cs locations (Serve req w) v =
     v\<lparr>sv_gate := snd (ServeHTTP x (sv_mux v) (sv_routes v) req ((sv_gate v)\<lparr>g_rw := w\<rparr>))\<rparr>"
| "server_step x cs locations (CleanerTick t) v =
     v\<lparr>sv_gate := g_user_cache_update (\<lambda>c. fst (StartCleaner [Tick t] c)) (sv_gate v)\<rparr>"
| "server_step x cs locations (WorldMoves w) v = v\<lparr>sv_gate := (sv_gate v)\<lparr>g_world := w\<rparr>\<rparr>"

text \<open>A gateway that \<open>New\<close> has just built has no handler yet and knows no routes.\<close>

inductive reachable :: "'w ext \<Rightarrow> Clients \<Rightarrow> Location list \<Rightarrow> 'w server \<Rightarrow> bool"
  for x cs locations where
  started: "New_Assembly x locations s = (Ok cs, s') \<Longrightarrow>
      g_app_cache s = New \<Longrightarrow> g_authz_cache s = New \<Longrightarrow> g_admin_cache s = New \<Longrightarrow>
      reachable x cs locations \<lparr>sv_mux = [], sv_routes = NewRoutes, sv_gate = s'\<rparr>"
| step: "reachable x cs locations v \<Longrightarrow> reachable x cs locations (server_step x cs locations e v)"

inductive_cases reachable_cases: "reachable x cs locations v"

definition serving :: "'w ext \<Rightarrow> Clients \<Rightarrow> Location list \<Rightarrow> (string \<times> 'w routed_handler) list \<Rightarrow> bool" where
  "serving x cs locations mux \<longleftrightarrow> mux = [] \<or> (\<exists>config. Handler x cs config locations = Ok mux)"

lemma client_loop_world: "snd (client_loop x ls cs s) = s\<lparr>g_world := g_world (snd (client_loop x ls cs s))\<rparr>"
proof (induction ls arbitrary: cs s)
  case (Cons l ls)
  show ?case
    using Cons.IH [of _ "snd (in_world (x_client_Default x) s)"] Cons.IH [of _ s]
    by (auto simp: in_world_def split: prod.splits option.splits)
qed simp

lemma New_Assembly_state:
  assumes "New_Assembly x locations s = (Ok cs, s')"
  shows "\<exists>w. s' = s\<lparr>g_world := w, g_user_cache := New\<rparr>"
proof -
  obtain w where "snd (client_loop x locations no_clients s) = s\<lparr>g_world := w\<rparr>"
    using client_loop_world [of x locations no_clients s] by blast
  with assms show ?thesis
    by (auto simp: New_Assembly_def in_world_def split: prod.splits res.splits option.splits)
qed

lemma users_vouched_cleanup: "users_vouched x s \<Longrightarrow> users_vouched x (g_user_cache_update (cleanup t) s)"
  unfolding users_vouched_def user_holds_def by (fastforce dest: ca_store_cleanupD)

lemma ReceiveConfig_vouched:
  assumes "vouched x s" "ReceiveConfig x cs locations config (mux, s) = (r, mux', s')" "serving x cs locations mux"
  shows "vouched x s' \<and> serving x cs locations mux'"
proof (cases "Handler x cs config locations")
  case (Ok m)
  then have s': "s' = s\<lparr>g_log_level := cl_LogLevel (cr_Logging config), g_app_cache := New, g_authz_cache := New, g_admin_cache := New\<rparr>"
    and m: "mux' = m" using assms(2) by (auto simp: ReceiveConfig_def Let_def)
  have "users_vouched x s'" using assms(1) vouched_cong(2) [of s' s x] by (simp add: s' vouched_def)
  then show ?thesis using Ok m by (auto simp: s' vouched_def vouched_New serving_def)
qed (use assms in \<open>auto simp: ReceiveConfig_def Let_def\<close>)

lemma server_step_vouched:
  assumes "vouched x (sv_gate v)" "serving x cs locations (sv_mux v)"
  shows "vouched x (sv_gate (server_step x cs locations e v)) \<and> serving x cs locations (sv_mux (server_step x cs locations e v))"
proof (cases e)
  case (Configure config)
  then show ?thesis using ReceiveConfig_vouched [OF assms(1) _ assms(2)] by (auto split: prod.splits)
next
  case (Serve req w)
  let ?s = "(sv_gate v)\<lparr>g_rw := w\<rparr>"
  have "vouched x (snd (ServeHTTP x (sv_mux v) (sv_routes v) req ?s))"
    using assms(2) unfolding serving_def
  proof (elim disjE exE)
    fix config
    assume "Handler x cs config locations = Ok (sv_mux v)"
    from vouching.server_carries [OF this, of ?s] show ?thesis using assms(1) by simp
  qed (use assms(1) in \<open>simp add: ServeHTTP_def split: option.splits\<close>)
  with assms(2) show ?thesis by (simp add: Serve)
next
  case (CleanerTick t)
  have "users_vouched x (g_user_cache_update (cleanup t) (sv_gate v))"
    using assms(1) by (simp add: vouched_def users_vouched_cleanup)
  then show ?thesis
    using assms vouched_cong(1,3,4) [of "g_user_cache_update (cleanup t) (sv_gate v)" "sv_gate v" x]
    by (simp add: CleanerTick vouched_def)
qed (use assms in simp_all)

lemma reachable_vouched:
  assumes "reachable x cs locations v"
  shows "vouched x (sv_gate v) \<and> serving x cs locations (sv_mux v)"
  using assms
proof induction
  case (started s s')
  then obtain w where "s' = s\<lparr>g_world := w, g_user_cache := New\<rparr>" using New_Assembly_state by blast
  with started show ?case by (simp add: vouched_def vouched_New serving_def)
next
  case (step v e)
  then show ?case by (intro server_step_vouched) simp_all
qed

section \<open>A sample run\<close>

text \<open>A gateway with one location after its first configuration and one anonymous request.\<close>

definition sample_clients :: Clients where
  "sample_clients = \<lparr>cl_grpcClientByModuleName = [''crm'' \<mapsto> ''crm''], cl_httpHostManagerByModuleName = Map.empty\<rparr>"

definition sample_server :: "unit server" where
  "sample_server =
     server_step idle sample_clients [sample_location] (Serve anonymous_request sample_writer)
       (server_step idle sample_clients [sample_location] (Configure sample_config)
          \<lparr>sv_mux = [], sv_routes = NewRoutes, sv_gate = fresh_gate zero_EndpointMeta sample_request ()\<rparr>)"

lemma fresh_gate_caches:
  "g_app_cache (fresh_gate m r w) = New" "g_authz_cache (fresh_gate m r w) = New" "g_admin_cache (fresh_gate m r w) = New"
  by (simp_all add: fresh_gate_def)

lemma sample_server_reachable: "reachable idle sample_clients [sample_location] sample_server"
proof -
  have "New_Assembly idle [sample_location] (fresh_gate zero_EndpointMeta sample_request ()) =
      (Ok sample_clients, fresh_gate zero_EndpointMeta sample_request ())"
    by (simp add: New_Assembly_def sample_location_def GrpcProtocol_def no_clients_def in_world_def idle_def fresh_gate_def
        sample_clients_def)
  from reachable.started [OF this fresh_gate_caches] show ?thesis
    unfolding sample_server_def by (intro reachable.step)
qed

end
