(* ===== verification/Gate_Interleaving.thy ===== *)
theory Gate_Interleaving
  imports Gate_Server
begin

text \<open>
  Concurrent requests. In \<open>Gate_Server\<close> a request is one event; here the calls of the caching services
  that requests make are taken apart into the operations between which other goroutines run: a
  lookup in a cache, a call of a module, a store in a cache. Each of these is atomic in the code,
  the operations of a cache because they hold its lock. Any number of calls run in any
  interleaving, with accepted configurations, the cleaner and the outside world in between. A call
  keeps the caches of the configuration it started under, as the handler it belongs to does; the
  cache of users is one for all.
\<close>

section \<open>The services as programs\<close>

text \<open>What a call of a service returns, and the operations it performs one at a time.\<close>

datatype answer =
    AppAnswer "AuthenticateAppResponse res"
  | PermitAnswer "bool res"
  | UserAnswer "AuthenticateUserResponse res"

datatype prog =
    Finish answer
  | App_Get string "entity_AppAuthData res \<Rightarrow> prog"
  | App_Ask string "entity_AuthenticateResponse res \<Rightarrow> prog"
  | App_Set duration string entity_AppAuthData "unit res \<Rightarrow> prog"
  | Authz_Get go_int string "bool res \<Rightarrow> prog"
  | Authz_Ask entity_AuthorizeRequest "bool res \<Rightarrow> prog"
  | Authz_Set duration go_int string "unit res \<Rightarrow> prog"
  | Admin_Get go_int string "bool res \<Rightarrow> prog"
  | Admin_Ask go_int string "bool res \<Rightarrow> prog"
  | Admin_Set duration go_int string "unit res \<Rightarrow> prog"
  | User_Get "string \<times> string" "entity_UserAuthData res \<Rightarrow> prog"
  | User_Ask string string "entity_UserAuthenticateResponse res \<Rightarrow> prog"
  | User_Set duration "string \<times> string" entity_UserAuthData "unit res \<Rightarrow> prog"

text \<open>The next operation of a program, on the state its caches live in.\<close>

fun prog_step :: "'w ext \<Rightarrow> prog \<Rightarrow> 'w gate \<Rightarrow> prog \<times> 'w gate" where
  "prog_step x (Finish a) s = (Finish a, s)"
| "prog_step x (App_Get t k) s = apfst k (AuthenticationCache_Get x t s)"
| "prog_step x (App_Ask t k) s = apfst k (System_Authenticate x t s)"
| "prog_step x (App_Set d t a k) s = apfst k (AuthenticationCache_Set x d t a s)"
| "prog_step x (Authz_Get i e k) s = apfst k (AuthorizationCache_Get x g_authz_cache i e s)"
| "prog_step x (Authz_Ask q k) s = apfst k (System_Authorize x q s)"
| "prog_step x (Authz_Set d i e k) s =
     apfst k (AuthorizationCache_SetAuthorized x g_authz_cache_update d i e s)"
| "prog_step x (Admin_Get i p k) s = apfst k (AuthorizationCache_Get x g_admin_cache i p s)"
| "prog_step x (Admin_Ask i p k) s = apfst k (Admin_Authorize x i p s)"
| "prog_step x (Admin_Set d i p k) s =
     apfst k (AuthorizationCache_SetAuthorized x g_admin_cache_update d i p s)"
| "prog_step x (User_Get n k) s = apfst k (UserAuthenticationCache_Get x n s)"
| "prog_step x (User_Ask m t k) s = apfst k (UserAuth_Authenticate x m t s)"
| "prog_step x (User_Set d n u k) s = apfst k (UserAuthenticationCache_Set x d n u s)"

text \<open>\<open>Authentication.Authenticate\<close>, \<open>Authorization.Authorize\<close>, \<open>Admin.Authorize\<close> and the user
  authentication after the extraction of the token, operation by operation.\<close>

definition authenticate_app_prog :: "duration \<Rightarrow> string \<Rightarrow> prog" where
  "authenticate_app_prog d token =
     App_Get token (\<lambda>r. case r of
         Panic \<Rightarrow> Finish (AppAnswer Panic)
       | Err e \<Rightarrow>
           (if errors_Is e ErrAuthenticationCacheMiss then
              App_Ask token (\<lambda>r. case r of
                  Panic \<Rightarrow> Finish (AppAnswer Panic)
                | Err e \<Rightarrow> Finish (AppAnswer (Err (WithMessage e ''auth repo authenticate'')))
                | Ok resp \<Rightarrow>
                    (if \<not> er_Authenticated resp then Finish (AppAnswer (Ok (convertAuthReponse resp)))
                     else (case er_AuthData resp of
                             None \<Rightarrow> Finish (AppAnswer Panic)
                           | Some data \<Rightarrow>
                               App_Set d token data (\<lambda>r. case r of
                                   Panic \<Rightarrow> Finish (AppAnswer Panic)
                                 | Err e \<Rightarrow> Finish (AppAnswer (Err (WithMessage e ''auth cache set'')))
                                 | Ok u \<Rightarrow> Finish (AppAnswer (Ok (convertAuthReponse resp)))))))
            else Finish (AppAnswer (Err (WithMessage e ''auth cache get''))))
       | Ok authData \<Rightarrow>
           Finish (AppAnswer (Ok \<lparr>ar_Authenticated = True, ar_ErrorReason = [],
                                  ar_AuthData = Some (convertAuthData authData)\<rparr>)))"

definition authorize_app_prog :: "duration \<Rightarrow> go_int \<Rightarrow> string \<Rightarrow> string \<Rightarrow> prog" where
  "authorize_app_prog d applicationId httpMethod endpoint =
     (let cacheKey = httpMethod @ '' '' @ endpoint in
      Authz_Get applicationId cacheKey (\<lambda>r. case r of
          Panic \<Rightarrow> Finish (PermitAnswer Panic)
        | Err e \<Rightarrow> Finish (PermitAnswer (Err (WithMessage e ''authz cache get'')))
        | Ok ok \<Rightarrow>
            (if ok then Finish (PermitAnswer (Ok True))
             else
               Authz_Ask \<lparr>ez_ApplicationId = applicationId, ez_HttpMethod = httpMethod, ez_Endpoint = endpoint\<rparr>
                 (\<lambda>r. case r of
                     Panic \<Rightarrow> Finish (PermitAnswer Panic)
                   | Err e \<Rightarrow> Finish (PermitAnswer (Err (WithMessage e ''authz repo authorize'')))
                   | Ok ok \<Rightarrow>
                       (if ok then
                          Authz_Set d applicationId cacheKey (\<lambda>r. case r of
                              Panic \<Rightarrow> Finish (PermitAnswer Panic)
                            | Err e \<Rightarrow> Finish (PermitAnswer (Err (WithMessage e ''authz cache set'')))
                            | Ok u \<Rightarrow> Finish (PermitAnswer (Ok ok)))
                        else Finish (PermitAnswer (Ok ok)))))))"

definition authorize_admin_prog :: "duration \<Rightarrow> go_int \<Rightarrow> string \<Rightarrow> prog" where
  "authorize_admin_prog d adminId permission =
     Admin_Get adminId permission (\<lambda>r. case r of
         Panic \<Rightarrow> Finish (PermitAnswer Panic)
       | Err e \<Rightarrow> Finish (PermitAnswer (Err (WithMessage e ''authz cache get'')))
       | Ok ok \<Rightarrow>
           (if ok then Finish (PermitAnswer (Ok ok))
            else
              Admin_Ask adminId permission (\<lambda>r. case r of
                  Panic \<Rightarrow> Finish (PermitAnswer Panic)
                | Err e \<Rightarrow> Finish (PermitAnswer (Err (WithMessage e ''authz repo authorize'')))
                | Ok ok \<Rightarrow>
                    (if ok then
                       Admin_Set d adminId permission (\<lambda>r. case r of
                           Panic \<Rightarrow> Finish (PermitAnswer Panic)
                         | Err e \<Rightarrow> Finish (PermitAnswer (Err (WithMessage e ''authz cache set'')))
                         | Ok u \<Rightarrow> Finish (PermitAnswer (Ok ok)))
                     else Finish (PermitAnswer (Ok ok))))))"

definition authenticate_user_prog :: "userAuthSetting \<Rightarrow> string \<Rightarrow> prog" where
  "authenticate_user_prog setting token =
     (let endpoint = us_authEndpoint setting;
          answer = (\<lambda>resp. Finish (UserAnswer (Ok (convertAuthResponse resp (us_skipAppAuth setting)))));
          failed = (\<lambda>e m. Finish (UserAnswer (Err (WithMessage e m)))) in
      if sint (us_authCacheDuration setting) \<le> 0 then
        User_Ask endpoint token (\<lambda>r. case r of
            Panic \<Rightarrow> Finish (UserAnswer Panic)
          | Err e \<Rightarrow> failed e ''auth repo authenticate''
          | Ok resp \<Rightarrow> answer resp)
      else
        User_Get (endpoint, token) (\<lambda>r. case r of
            Panic \<Rightarrow> Finish (UserAnswer Panic)
          | Err e \<Rightarrow>
              (if errors_Is e ErrAuthenticationCacheMiss then
                 User_Ask endpoint token (\<lambda>r. case r of
                     Panic \<Rightarrow> Finish (UserAnswer Panic)
                   | Err e \<Rightarrow> failed e ''auth repo authenticate''
                   | Ok resp \<Rightarrow>
                       (if \<not> eur_Authenticated resp then answer resp
                        else (case eur_AuthData resp of
                                None \<Rightarrow> Finish (UserAnswer Panic)
                              | Some data \<Rightarrow>
                                  User_Set (us_authCacheDuration setting) (endpoint, token) data (\<lambda>r. case r of
                                      Panic \<Rightarrow> Finish (UserAnswer Panic)
                                    | Err e \<Rightarrow> failed e ''auth cache set''
                                    | Ok u \<Rightarrow> answer resp))))
               else failed e ''auth cache get'')
          | Ok authData \<Rightarrow>
              Finish (UserAnswer (Ok \<lparr>ur_Authenticated = True, ur_SkipUserAuth = False, ur_ErrorReason = [],
                ur_AuthData = Some (convertUserAuthData (us_skipAppAuth setting) authData)\<rparr>))))"

text \<open>The calls a request makes, and what each computes when nothing else runs.\<close>

datatype service_call =
    Call_AuthenticateApp string
  | Call_AuthorizeApp go_int string string
  | Call_AuthorizeAdmin go_int string
  | Call_AuthenticateUser userAuthSetting string

primrec call_prog :: "conf_Remote \<Rightarrow> service_call \<Rightarrow> prog" where
  "call_prog config (Call_AuthenticateApp t) =
     authenticate_app_prog (seconds (cc_AuthenticationDataInSec (cr_Caching config))) t"
| "call_prog config (Call_AuthorizeApp i m e) =
     authorize_app_prog (seconds (cc_AuthorizationDataInSec (cr_Caching config))) i m e"
| "call_prog config (Call_AuthorizeAdmin i p) =
     authorize_admin_prog (seconds (cc_AuthorizationDataInSec (cr_Caching config))) i p"
| "call_prog config (Call_AuthenticateUser st t) = authenticate_user_prog st t"

primrec call_alone :: "'w ext \<Rightarrow> conf_Remote \<Rightarrow> service_call \<Rightarrow> 'w gate \<Rightarrow> answer \<times> 'w gate" where
  "call_alone x config (Call_AuthenticateApp t) s = apfst AppAnswer (app_authenticator x config t s)"
| "call_alone x config (Call_AuthorizeApp i m e) s = apfst PermitAnswer (app_authorizer x config i m e s)"
| "call_alone x config (Call_AuthorizeAdmin i p) s = apfst PermitAnswer (admin_authorizer x config i p s)"
| "call_alone x config (Call_AuthenticateUser st t) s =
     apfst UserAnswer (authenticate_user (UserAuthenticationCache_Get x) (UserAuthenticationCache_Set x)
       (UserAuth_Authenticate x) st t s)"

abbreviation prog_run :: "'w ext \<Rightarrow> nat \<Rightarrow> prog \<times> 'w gate \<Rightarrow> prog \<times> 'w gate" where
  "prog_run x n \<equiv> (\<lambda>(p, s). prog_step x p s) ^^ n"

text \<open>Three operations are enough for every call, and without interference they compute the service.\<close>

lemma call_prog_run: "prog_run x 3 (call_prog config c, s) = apfst Finish (call_alone x config c s)"
proof (cases c)
  case (Call_AuthenticateApp t)
  then show ?thesis
    by (auto simp: numeral_3_eq_3 authenticate_app_prog_def app_authenticator_def Authentication_Authenticate_def
        split: prod.splits res.splits option.splits)
next
  case (Call_AuthorizeApp i m e)
  then show ?thesis
    by (auto simp: numeral_3_eq_3 authorize_app_prog_def app_authorizer_def Authorization_Authorize_def Let_def
        split: prod.splits res.splits)
next
  case (Call_AuthorizeAdmin i p)
  then show ?thesis
    by (auto simp: numeral_3_eq_3 authorize_admin_prog_def admin_authorizer_def AdminAuthorize_def
        split: prod.splits res.splits)
next
  case (Call_AuthenticateUser st t)
  then show ?thesis
    by (auto simp: numeral_3_eq_3 authenticate_user_prog_def authenticate_user_def Let_def
        split: prod.splits res.splits option.splits)
qed

section \<open>The pool of calls\<close>

record thread =
  th_call :: service_call
  th_generation :: nat
  th_prog :: prog

text \<open>
  The state all calls share: the outside world and the cache of users (in \<open>po_gate\<close>), and, for every
  configuration accepted so far, itself and its caches of applications, permissions and
  administrators. A request is served by the handler of one configuration, and starts its calls
  under that one, also when a newer one has been accepted meanwhile.
\<close>

record 'w pool =
  po_gate :: "'w gate"
  po_caches :: "nat \<Rightarrow> cache \<times> cache \<times> cache"
  po_generation :: nat
  po_config :: "nat \<Rightarrow> conf_Remote"
  po_threads :: "thread list"

definition view :: "nat \<Rightarrow> 'w pool \<Rightarrow> 'w gate" where
  "view n v = (case po_caches v n of (a, z, m) \<Rightarrow>
     (po_gate v)\<lparr>g_app_cache := a, g_authz_cache := z, g_admin_cache := m\<rparr>)"

definition put_view :: "nat \<Rightarrow> 'w gate \<Rightarrow> 'w pool \<Rightarrow> 'w pool" where
  "put_view n s v =
     v\<lparr>po_gate := s, po_caches := (po_caches v)(n := (g_app_cache s, g_authz_cache s, g_admin_cache s))\<rparr>"

datatype 'w pool_event =
    Start nat service_call
  | Advance nat
  | Reconfigure conf_Remote
  | Clean time
  | Outside 'w

fun pool_step :: "'w ext \<Rightarrow> 'w pool_event \<Rightarrow> 'w pool \<Rightarrow> 'w pool" where
  "pool_step x (Start n c) v =
     v\<lparr>po_threads := po_threads v @ [\<lparr>th_call = c, th_generation = n, th_prog = call_prog (po_config v n) c\<rparr>]\<rparr>"
| "pool_step x (Advance i) v =
     (if i < length (po_threads v) then
        (let th = po_threads v ! i in
         case prog_step x (th_prog th) (view (th_generation th) v) of
           (p, s) \<Rightarrow>
             (put_view (th_generation th) s v)\<lparr>po_threads := (po_threads v)[i := th\<lparr>th_prog := p\<rparr>]\<rparr>)
      else v)"
| "pool_step x (Reconfigure config) v =
     v\<lparr>po_config := (po_config v)(Suc (po_generation v) := config), po_generation := Suc (po_generation v),
       po_caches := (po_caches v)(Suc (po_generation v) := (New, New, New))\<rparr>"
| "pool_step x (Clean t) v =
     v\<lparr>po_gate := g_user_cache_update (\<lambda>c. fst (StartCleaner [Tick t] c)) (po_gate v)\<rparr>"
| "pool_step x (Outside w) v = v\<lparr>po_gate := (po_gate v)\<lparr>g_world := w\<rparr>\<rparr>"

inductive pool_reachable :: "'w ext \<Rightarrow> 'w pool \<Rightarrow> bool" for x where
  pool_start: "g_user_cache s = New \<Longrightarrow>
    pool_reachable x \<lparr>po_gate = s, po_caches = (\<lambda>n. (New, New, New)), po_generation = 0, po_config = config, po_threads = []\<rparr>"
| pool_next: "pool_reachable x v \<Longrightarrow> pool_reachable x (pool_step x e v)"

lemma view_put_view [simp]:
  "view n (put_view n s v) = s"
  "m \<noteq> n \<Longrightarrow> view m (put_view n s v) =
     s\<lparr>g_app_cache := g_app_cache (view m v), g_authz_cache := g_authz_cache (view m v),
       g_admin_cache := g_admin_cache (view m v)\<rparr>"
  by (simp_all add: view_def put_view_def split_beta)

section \<open>Programs that say only what the modules said\<close>

text \<open>
  \<open>prog_sound x ok p\<close>: whatever the next operation gives, as long as a cache gives what a module
  vouched for and a module vouches for what it gives, the program stores only vouched data
  and ends with an answer that is \<open>ok\<close>.
\<close>

primrec prog_sound :: "'w ext \<Rightarrow> (answer \<Rightarrow> bool) \<Rightarrow> prog \<Rightarrow> bool" where
  "prog_sound x ok (Finish a) \<longleftrightarrow> ok a"
| "prog_sound x ok (App_Get t k) \<longleftrightarrow>
     (\<forall>r. (\<forall>d. r = Ok d \<longrightarrow> (\<exists>d0. system_vouches x t d0 \<and> app_codes x d0 d)) \<longrightarrow> prog_sound x ok (k r))"
| "prog_sound x ok (App_Ask t k) \<longleftrightarrow>
     (\<forall>r. (\<forall>resp d. r = Ok resp \<longrightarrow> er_Authenticated resp \<longrightarrow> er_AuthData resp = Some d \<longrightarrow> system_vouches x t d) \<longrightarrow>
        prog_sound x ok (k r))"
| "prog_sound x ok (App_Set d t a k) \<longleftrightarrow> system_vouches x t a \<and> (\<forall>r. prog_sound x ok (k r))"
| "prog_sound x ok (Authz_Get i e k) \<longleftrightarrow>
     (\<forall>r. (r = Ok True \<longrightarrow> (\<exists>m p. e = m @ '' '' @ p \<and> system_permits x i m p)) \<longrightarrow> prog_sound x ok (k r))"
| "prog_sound x ok (Authz_Ask q k) \<longleftrightarrow>
     (\<forall>r. (r = Ok True \<longrightarrow> system_permits x (ez_ApplicationId q) (ez_HttpMethod q) (ez_Endpoint q)) \<longrightarrow> prog_sound x ok (k r))"
| "prog_sound x ok (Authz_Set d i e k) \<longleftrightarrow>
     (\<exists>m p. e = m @ '' '' @ p \<and> system_permits x i m p) \<and> (\<forall>r. prog_sound x ok (k r))"
| "prog_sound x ok (Admin_Get i p k) \<longleftrightarrow> (\<forall>r. (r = Ok True \<longrightarrow> admin_permits x i p) \<longrightarrow> prog_sound x ok (k r))"
| "prog_sound x ok (Admin_Ask i p k) \<longleftrightarrow> (\<forall>r. (r = Ok True \<longrightarrow> admin_permits x i p) \<longrightarrow> prog_sound x ok (k r))"
| "prog_sound x ok (Admin_Set d i p k) \<longleftrightarrow> admin_permits x i p \<and> (\<forall>r. prog_sound x ok (k r))"
| "prog_sound x ok (User_Get n k) \<longleftrightarrow>
     (\<forall>r. (\<forall>d. r = Ok d \<longrightarrow> (\<exists>n0 d0. same_user_key n0 n \<and> user_vouches x n0 d0 \<and> user_codes x d0 d)) \<longrightarrow>
        prog_sound x ok (k r))"
| "prog_sound x ok (User_Ask m t k) \<longleftrightarrow>
     (\<forall>r. (\<forall>resp d. r = Ok resp \<longrightarrow> eur_Authenticated resp \<longrightarrow> eur_AuthData resp = Some d \<longrightarrow> user_vouches x (m, t) d) \<longrightarrow>
        prog_sound x ok (k r))"
| "prog_sound x ok (User_Set d n u k) \<longleftrightarrow> user_vouches x n u \<and> (\<forall>r. prog_sound x ok (k r))"

text \<open>What the answer of a call is worth.\<close>

primrec answer_vouched :: "'w ext \<Rightarrow> service_call \<Rightarrow> answer \<Rightarrow> bool" where
  "answer_vouched x (Call_AuthenticateApp t) a \<longleftrightarrow>
     (\<forall>resp d. a = AppAnswer (Ok resp) \<longrightarrow> ar_Authenticated resp \<longrightarrow> ar_AuthData resp = Some d \<longrightarrow> app_known x t d)"
| "answer_vouched x (Call_AuthorizeApp i m e) a \<longleftrightarrow> (a = PermitAnswer (Ok True) \<longrightarrow> call_permitted x i m e)"
| "answer_vouched x (Call_AuthorizeAdmin i p) a \<longleftrightarrow> (a = PermitAnswer (Ok True) \<longrightarrow> admin_permits x i p)"
| "answer_vouched x (Call_AuthenticateUser st t) a \<longleftrightarrow>
     (\<forall>resp u. a = UserAnswer (Ok resp) \<longrightarrow> ur_Authenticated resp \<longrightarrow> ur_AuthData resp = Some u \<longrightarrow> user_known x st t u)"

lemma app_known_intros:
  "system_vouches x t d \<Longrightarrow> app_known x t (convertAuthData d)"
  "system_vouches x t d0 \<Longrightarrow> app_codes x d0 d \<Longrightarrow> app_known x t (convertAuthData d)"
  by (auto simp: app_known_def)

lemma user_known_intros:
  "user_vouches x (us_authEndpoint st, t) d \<Longrightarrow> user_known x st t (convertUserAuthData (us_skipAppAuth st) d)"
  "same_user_key k0 (us_authEndpoint st, t) \<Longrightarrow> user_vouches x k0 d0 \<Longrightarrow> user_codes x d0 d \<Longrightarrow>
     user_known x st t (convertUserAuthData (us_skipAppAuth st) d)"
  unfolding user_known_def same_user_key_def by (blast, blast)

lemma call_prog_sound: "prog_sound x (answer_vouched x c) (call_prog config c)"
proof (cases c)
  case (Call_AuthenticateApp t)
  then show ?thesis
    by (auto simp: authenticate_app_prog_def convertAuthReponse_def split: res.splits option.splits
        intro: app_known_intros)
next
  case (Call_AuthorizeApp i m e)
  then show ?thesis
    by (auto simp: authorize_app_prog_def Let_def call_permitted_def split: res.splits)
next
  case (Call_AuthorizeAdmin i p)
  then show ?thesis by (auto simp: authorize_admin_prog_def split: res.splits)
next
  case (Call_AuthenticateUser st t)
  then show ?thesis
    by (auto simp: authenticate_user_prog_def Let_def convertAuthResponse_def split: res.splits option.splits
        intro: user_known_intros)
qed

section \<open>The invariant\<close>

lemma vouched_parts:
  "vouched x s \<Longrightarrow> g_app_cache s' = g_app_cache s \<or> apps_vouched x s' \<Longrightarrow>
   g_user_cache s' = g_user_cache s \<or> users_vouched x s' \<Longrightarrow>
   g_authz_cache s' = g_authz_cache s \<or> permissions_vouched x s' \<Longrightarrow>
   g_admin_cache s' = g_admin_cache s \<or> admins_vouched x s' \<Longrightarrow> vouched x s'"
  unfolding vouched_def using vouched_cong [of s' s x] by blast

lemma store_keeps:
  "g_user_cache (snd (AuthenticationCache_Set x d t a s)) = g_user_cache s"
  "g_authz_cache (snd (AuthenticationCache_Set x d t a s)) = g_authz_cache s"
  "g_admin_cache (snd (AuthenticationCache_Set x d t a s)) = g_admin_cache s"
  "g_app_cache (snd (UserAuthenticationCache_Set x d n u s)) = g_app_cache s"
  "g_authz_cache (snd (UserAuthenticationCache_Set x d n u s)) = g_authz_cache s"
  "g_admin_cache (snd (UserAuthenticationCache_Set x d n u s)) = g_admin_cache s"
  "g_app_cache (snd (AuthorizationCache_SetAuthorized x g_authz_cache_update d i e s)) = g_app_cache s"
  "g_user_cache (snd (AuthorizationCache_SetAuthorized x g_authz_cache_update d i e s)) = g_user_cache s"
  "g_admin_cache (snd (AuthorizationCache_SetAuthorized x g_authz_cache_update d i e s)) = g_admin_cache s"
  "g_app_cache (snd (AuthorizationCache_SetAuthorized x g_admin_cache_update d i e s)) = g_app_cache s"
  "g_user_cache (snd (AuthorizationCache_SetAuthorized x g_admin_cache_update d i e s)) = g_user_cache s"
  "g_authz_cache (snd (AuthorizationCache_SetAuthorized x g_admin_cache_update d i e s)) = g_authz_cache s"
  by (simp_all add: AuthenticationCache_Set_def UserAuthenticationCache_Set_def
      AuthorizationCache_SetAuthorized_def store_eq split: sum.splits)

text \<open>A store of vouched data keeps a cache vouched.\<close>

lemma store_vouched:
  "apps_vouched x s \<Longrightarrow> system_vouches x t a \<Longrightarrow> apps_vouched x (snd (AuthenticationCache_Set x d t a s))"
  "users_vouched x s \<Longrightarrow> user_vouches x n u \<Longrightarrow> users_vouched x (snd (UserAuthenticationCache_Set x d n u s))"
  "permissions_vouched x s \<Longrightarrow> \<exists>m p. e = m @ '' '' @ p \<and> system_permits x i m p \<Longrightarrow>
     permissions_vouched x (snd (AuthorizationCache_SetAuthorized x g_authz_cache_update d i e s))"
  "admins_vouched x s \<Longrightarrow> admin_permits x i p \<Longrightarrow>
     admins_vouched x (snd (AuthorizationCache_SetAuthorized x g_admin_cache_update d i p s))"
  unfolding apps_vouched_def users_vouched_def permissions_vouched_def admins_vouched_def
  subgoal by (blast dest: app_cache.put_adds)
  subgoal by (blast dest: user_cache.put_adds)
  subgoal by (blast dest: authz_cache.put_adds_permission)
  subgoal by (blast dest: admin_cache.put_adds_permission)
  done

lemma prog_step_vouched:
  assumes "vouched x s" "prog_sound x ok p"
  shows "vouched x (snd (prog_step x p s))"
proof -
  note v = assms(1) [unfolded vouched_def]
  have same: "vouched x s'" if "same_caches s s'" for s'
    using vouched_same_caches [OF that] assms(1) by simp
  show ?thesis
  proof (cases p)
    case (App_Set d t a k)
    with v assms(2) show ?thesis
      by - (rule vouched_parts [OF assms(1)], simp_all add: store_keeps store_vouched)
  next
    case (Authz_Set d i e k)
    with v assms(2) show ?thesis
      by - (rule vouched_parts [OF assms(1)], simp_all add: store_keeps store_vouched)
  next
    case (Admin_Set d i p k)
    with v assms(2) show ?thesis
      by - (rule vouched_parts [OF assms(1)], simp_all add: store_keeps store_vouched)
  next
    case (User_Set d n u k)
    with v assms(2) show ?thesis
      by - (rule vouched_parts [OF assms(1)], simp_all add: store_keeps store_vouched)
  next
    case (User_Ask m t k)
    then show ?thesis using UserAuth_Authenticate_snd [of x m t s] assms(1) by auto
  qed (use assms(1) in \<open>simp_all add: same same_caches_def\<close>)
qed

lemma prog_step_sound:
  assumes "vouched x s" "prog_sound x ok p"
  shows "prog_sound x ok (fst (prog_step x p s))"
proof -
  have "\<exists>d0. system_vouches x t d0 \<and> app_codes x d0 d" if "fst (AuthenticationCache_Get x t s) = Ok d" for t d
    using app_cache.get_holds [OF that] assms(1) by (simp add: vouched_def apps_vouched_def)
  moreover have "\<exists>n0 d0. same_user_key n0 n \<and> user_vouches x n0 d0 \<and> user_codes x d0 d"
    if "fst (UserAuthenticationCache_Get x n s) = Ok d" for n d
    using user_cache.get_holds [OF that] assms(1) unfolding vouched_def users_vouched_def by blast
  moreover have "\<exists>m p. e = m @ '' '' @ p \<and> system_permits x i m p"
    if "fst (AuthorizationCache_Get x g_authz_cache i e s) = Ok True" for i e
    using authz_cache.get_allowed [OF that] assms(1) by (simp add: vouched_def permissions_vouched_def)
  moreover have "admin_permits x i e" if "fst (AuthorizationCache_Get x g_admin_cache i e s) = Ok True" for i e
    using admin_cache.get_allowed [OF that] assms(1) by (simp add: vouched_def admins_vouched_def)
  moreover have "system_permits x (ez_ApplicationId q) (ez_HttpMethod q) (ez_Endpoint q)"
    if "fst (System_Authorize x q s) = Ok True" for q
    using System_Authorize_permits [of x "ez_ApplicationId q" "ez_HttpMethod q" "ez_Endpoint q" s] that by (cases q) simp
  ultimately show ?thesis
    using assms(2) System_Authenticate_vouches [of x _ s] Admin_Authorize_permits [of x _ _ s]
      UserAuth_Authenticate_vouches [of x _ _ s]
    by (cases p) (simp_all, blast?)
qed

definition pool_sound :: "'w ext \<Rightarrow> 'w pool \<Rightarrow> bool" where
  "pool_sound x v \<longleftrightarrow>
     (\<forall>n. vouched x (view n v)) \<and>
     (\<forall>th \<in> set (po_threads v). prog_sound x (answer_vouched x (th_call th)) (th_prog th))"

lemma view_simps [simp]:
  "view n (v\<lparr>po_threads := ths\<rparr>) = view n v"
  "view n (v\<lparr>po_config := c, po_generation := g, po_caches := cs\<rparr>) = view n (v\<lparr>po_caches := cs\<rparr>)"
  "view n (v\<lparr>po_gate := (po_gate v)\<lparr>g_world := w\<rparr>\<rparr>) = (view n v)\<lparr>g_world := w\<rparr>"
  by (simp_all add: view_def split_beta)

lemma pool_step_sound:
  assumes "pool_sound x v"
  shows "pool_sound x (pool_step x e v)"
proof (cases e)
  case (Start n c)
  with assms show ?thesis by (auto simp: pool_sound_def call_prog_sound)
next
  case (Outside w)
  with assms show ?thesis by (simp add: pool_sound_def)
next
  case (Clean t)
  have "view n (pool_step x e v) = g_user_cache_update (cleanup t) (view n v)" for n
    by (simp add: Clean view_def split_beta)
  then have "vouched x (view n (pool_step x e v))" for n
    using assms users_vouched_cleanup [of x "view n v" t]
    by - (rule vouched_parts [of x "view n v"], simp_all add: pool_sound_def vouched_def)
  with assms Clean show ?thesis by (simp add: pool_sound_def)
next
  case (Reconfigure config)
  have "vouched x (view n (pool_step x e v))" for n
    using assms unfolding Reconfigure
    by - (rule vouched_parts [of x "view n v"], auto simp: pool_sound_def view_def split_beta vouched_New)
  with assms Reconfigure show ?thesis by (simp add: pool_sound_def)
next
  case (Advance i)
  show ?thesis
  proof (cases "i < length (po_threads v)")
    case True
    let ?th = "po_threads v ! i"
    let ?n = "th_generation ?th"
    let ?step = "prog_step x (th_prog ?th) (view ?n v)"
    have th: "prog_sound x (answer_vouched x (th_call ?th)) (th_prog ?th)" and v: "vouched x (view n v)" for n
      using assms True by (simp_all add: pool_sound_def)
    have s: "vouched x (snd ?step)" by (rule prog_step_vouched [OF v th])
    have "vouched x (view n (put_view ?n (snd ?step) v))" for n
    proof (cases "n = ?n")
      case False
      have "users_vouched x (view n (put_view ?n (snd ?step) v))"
        using s vouched_cong(2) [of "view n (put_view ?n (snd ?step) v)" "snd ?step" x] False
        by (simp add: vouched_def)
      with False show ?thesis
        by - (rule vouched_parts [OF v [of n]], simp_all)
    qed (simp add: s)
    moreover have "prog_sound x (answer_vouched x (th_call ?th)) (fst ?step)"
      by (rule prog_step_sound [OF v th])
    ultimately show ?thesis
      using assms True unfolding Advance pool_sound_def
      by (auto simp: Let_def split_beta put_view_def dest!: subsetD [OF set_update_subset_insert])
  qed (use assms Advance in simp)
qed

lemma pool_reachable_sound: "pool_reachable x v \<Longrightarrow> pool_sound x v"
proof (induction rule: pool_reachable.induct)
  case (pool_start s config)
  then show ?case by (simp add: pool_sound_def view_def vouched_def vouched_New)
qed (rule pool_step_sound)

section \<open>Calls end\<close>

text \<open>\<open>prog_within p n\<close>: the program has finished after at most \<open>n\<close> operations, whatever they give.\<close>

primrec prog_within :: "prog \<Rightarrow> nat \<Rightarrow> bool" where
  "prog_within (Finish a) n = True"
| "prog_within (App_Get t k) n = (\<exists>m. n = Suc m \<and> (\<forall>r. prog_within (k r) m))"
| "prog_within (App_Ask t k) n = (\<exists>m. n = Suc m \<and> (\<forall>r. prog_within (k r) m))"
| "prog_within (App_Set d t a k) n = (\<exists>m. n = Suc m \<and> (\<forall>r. prog_within (k r) m))"
| "prog_within (Authz_Get i e k) n = (\<exists>m. n = Suc m \<and> (\<forall>r. prog_within (k r) m))"
| "prog_within (Authz_Ask q k) n = (\<exists>m. n = Suc m \<and> (\<forall>r. prog_within (k r) m))"
| "prog_within (Authz_Set d i e k) n = (\<exists>m. n = Suc m \<and> (\<forall>r. prog_within (k r) m))"
| "prog_within (Admin_Get i p k) n = (\<exists>m. n = Suc m \<and> (\<forall>r. prog_within (k r) m))"
| "prog_within (Admin_Ask i p k) n = (\<exists>m. n = Suc m \<and> (\<forall>r. prog_within (k r) m))"
| "prog_within (Admin_Set d i p k) n = (\<exists>m. n = Suc m \<and> (\<forall>r. prog_within (k r) m))"
| "prog_within (User_Get u k) n = (\<exists>m. n = Suc m \<and> (\<forall>r. prog_within (k r) m))"
| "prog_within (User_Ask u t k) n = (\<exists>m. n = Suc m \<and> (\<forall>r. prog_within (k r) m))"
| "prog_within (User_Set d u a k) n = (\<exists>m. n = Suc m \<and> (\<forall>r. prog_within (k r) m))"

lemma call_prog_within: "prog_within (call_prog config c) 3"
  by (cases c)
     (auto simp: numeral_3_eq_3 authenticate_app_prog_def authorize_app_prog_def authorize_admin_prog_def
       authenticate_user_prog_def Let_def split: res.splits option.splits)

lemma prog_within_step: "prog_within p n \<Longrightarrow> prog_within (fst (prog_step x p s)) (n - 1)"
  by (cases p) auto

lemma prog_within_0: "prog_within p 0 \<Longrightarrow> \<exists>a. p = Finish a"
  by (cases p) auto

text \<open>Only the call itself moves on, and it forgets neither what it was nor where it is.\<close>

lemma pool_step_thread:
  assumes "i < length (po_threads v)"
  shows "i < length (po_threads (pool_step x e v)) \<and>
    th_call (po_threads (pool_step x e v) ! i) = th_call (po_threads v ! i) \<and>
    (if e = Advance i
     then \<exists>s. th_prog (po_threads (pool_step x e v) ! i) = fst (prog_step x (th_prog (po_threads v ! i)) s)
     else po_threads (pool_step x e v) ! i = po_threads v ! i)"
  using assms by (cases e) (auto simp: Let_def split_beta nth_append put_view_def nth_list_update)

lemma pool_run_within:
  assumes "i < length (po_threads v)" "prog_within (th_prog (po_threads v ! i)) n"
  shows "th_call (po_threads (fold (pool_step x) es v) ! i) = th_call (po_threads v ! i) \<and>
    prog_within (th_prog (po_threads (fold (pool_step x) es v) ! i)) (n - count_list es (Advance i))"
  using assms
proof (induction es arbitrary: v n)
  case (Cons e es)
  note step = pool_step_thread [OF Cons.prems(1), of x e]
  have "prog_within (th_prog (po_threads (pool_step x e v) ! i)) (if e = Advance i then n - 1 else n)"
    using step Cons.prems(2) prog_within_step by (auto split: if_splits)
  from step Cons.IH [OF _ this] show ?case
    by (auto simp del: pool_step.simps split: if_splits)
qed simp

lemma pool_run_threads: "length (po_threads v) \<le> length (po_threads (fold (pool_step x) es v))"
proof (induction es arbitrary: v)
  case (Cons e es)
  have "length (po_threads v) \<le> length (po_threads (pool_step x e v))"
    by (cases e) (auto simp: Let_def split_beta)
  with Cons.IH [of "pool_step x e v"] show ?case by simp
qed simp

section \<open>Properties\<close>

text \<open>
  C5. Whatever runs between the operations of a call, the caches of every configuration, the ones still in
  use by older requests included, and the cache of users hold only what the modules have said.
\<close>

theorem interleaved_caches_vouched:
  assumes "pool_reachable x v"
  shows "vouched x (view n v)"
  using pool_reachable_sound [OF assms] by (simp add: pool_sound_def)

text \<open>
  And every answer is worth what it is worth alone: an authenticated application is the one its token
  belongs to, a granted permission is one the system or admin module grants, and an authenticated
  user is the one the endpoint knows by the token.
\<close>

lemma interleaved_answers_vouched:
  assumes "pool_reachable x v" "th \<in> set (po_threads v)" "th_prog th = Finish a"
  shows "answer_vouched x (th_call th) a"
  using pool_reachable_sound [OF assms(1)] assms(2,3) by (auto simp: pool_sound_def dest!: bspec)

text \<open>
  The programs are the services: a call during which nothing else runs ends after its third operation
  with the answer of the service and leaves its caches and the outside world as the service does.
\<close>

lemma calls_compute_services:
  "fold (pool_step x) [Start n c, Advance (length (po_threads v)), Advance (length (po_threads v)), Advance (length (po_threads v))] v =
     (case call_alone x (po_config v n) c (view n v) of
        (a, s) \<Rightarrow> (put_view n s v)\<lparr>po_threads := po_threads v @ [\<lparr>th_call = c, th_generation = n, th_prog = Finish a\<rparr>]\<rparr>)"
  using call_prog_run [of x "po_config v n" c "view n v"]
  by (auto simp: numeral_3_eq_3 Let_def nth_append split: prod.splits) (simp add: put_view_def)


section \<open>Witnesses\<close>

text \<open>A gateway without calls, and one whose first call has asked for an application.\<close>

definition sample_pool :: "unit pool" where
  "sample_pool = \<lparr>po_gate = fresh_gate zero_EndpointMeta sample_request (), po_caches = (\<lambda>n. (New, New, New)),
     po_generation = 0, po_config = (\<lambda>n. sample_config), po_threads = []\<rparr>"

definition busy_pool :: "unit pool" where
  "busy_pool = fold (pool_step sample_ext) [Start 0 (Call_AuthenticateApp ''t''), Advance 0, Advance 0, Advance 0] sample_pool"

lemma busy_pool_reachable: "pool_reachable sample_ext busy_pool"
proof -
  have "pool_reachable sample_ext sample_pool"
    unfolding sample_pool_def by (rule pool_start) (simp add: fresh_gate_def)
  then show ?thesis unfolding busy_pool_def by (auto intro!: pool_next simp del: pool_step.simps)
qed

theorem interleaved_caches_vouched_witness: "vouched sample_ext (view 0 busy_pool)"
  by (rule interleaved_caches_vouched [OF busy_pool_reachable])

lemma interleaved_answers_vouched_witness: "app_known sample_ext ''t'' (convertAuthData sample_app)"
proof -
  let ?a = "AppAnswer (Ok \<lparr>ar_Authenticated = True, ar_ErrorReason = [], ar_AuthData = Some (convertAuthData sample_app)\<rparr>)"
  have "po_threads busy_pool = [\<lparr>th_call = Call_AuthenticateApp ''t'', th_generation = 0, th_prog = Finish ?a\<rparr>]"
    by (simp add: busy_pool_def sample_pool_def authenticate_app_prog_def view_def fresh_gate_def
        AuthenticationCache_Get_def cached_def New_def System_Authenticate_def AuthenticationCache_Set_def
        sample_ext_def idle_def in_world_def convertAuthReponse_def)
  from interleaved_answers_vouched [OF busy_pool_reachable, of "\<lparr>th_call = Call_AuthenticateApp ''t'', th_generation = 0, th_prog = Finish ?a\<rparr>" ?a]
  show ?thesis by (simp add: \<open>po_threads busy_pool = _\<close>)
qed


end
