(* ===== verification/Concurrent_Requests.thy ===== *)
theory Concurrent_Requests
  imports Gate_Interleaving
begin

text \<open>
  Whole requests among others. The access middlewares of a location run here on services whose calls
  are interleaved with everything else in the pool of \<open>Gate_Interleaving\<close>; a request they let
  through acts for whom it says, as in \<open>Gate_Server\<close>, where a request runs alone.
\<close>

section \<open>The services in the pool\<close>

text \<open>
  A request among others: the world its handler runs in is the pool and a schedule, which says for
  each of its calls what else happens until the call has ended and the next one begins. A call
  takes the turns the schedule gives it and at last those it still needs. The calls that go past
  the caches (administrators by token, the limits) are single operations on the outside world.
\<close>

type_synonym 'w shared = "'w pool \<times> 'w pool_event list list"

definition call_in_pool :: "'w ext \<Rightarrow> nat \<Rightarrow> service_call \<Rightarrow> 'w shared \<Rightarrow> answer \<times> 'w shared" where
  "call_in_pool x n c w =
     (case w of (v, schedule) \<Rightarrow>
        (let es = (case schedule of [] \<Rightarrow> [] | es # rest \<Rightarrow> es);
             i = length (po_threads v);
             v' = fold (pool_step x) (Start n c # es @ [Advance i, Advance i, Advance i]) v
         in ((case th_prog (po_threads v' ! i) of Finish a \<Rightarrow> a | _ \<Rightarrow> AppAnswer Panic), (v', tl schedule))))"

definition outside_pool :: "'w ext \<Rightarrow> ('w gate \<Rightarrow> 'a \<times> 'w gate) \<Rightarrow> 'w shared \<Rightarrow> 'a \<times> 'w shared" where
  "outside_pool x f w =
     (case w of (v, schedule) \<Rightarrow>
        (case f (po_gate v) of (r, s) \<Rightarrow> (r, (pool_step x (Outside (g_world s)) v, schedule))))"

definition interleaved_app ::
  "'w ext \<Rightarrow> nat \<Rightarrow> string \<Rightarrow> 'w shared gate \<Rightarrow> AuthenticateAppResponse res \<times> 'w shared gate" where
  "interleaved_app x n t s =
     (case in_world (call_in_pool x n (Call_AuthenticateApp t)) s of
        (a, s1) \<Rightarrow> ((case a of AppAnswer r \<Rightarrow> r | _ \<Rightarrow> Panic), s1))"

definition interleaved_permission ::
  "'w ext \<Rightarrow> nat \<Rightarrow> service_call \<Rightarrow> 'w shared gate \<Rightarrow> bool res \<times> 'w shared gate" where
  "interleaved_permission x n c s =
     (case in_world (call_in_pool x n c) s of (a, s1) \<Rightarrow> ((case a of PermitAnswer r \<Rightarrow> r | _ \<Rightarrow> Panic), s1))"

definition interleaved_user ::
  "'w ext \<Rightarrow> nat \<Rightarrow> (string \<rightharpoonup> userAuthSetting) \<Rightarrow> Context \<Rightarrow> 'w shared gate \<Rightarrow>
   AuthenticateUserResponse res \<times> 'w shared gate" where
  "interleaved_user x n settingsByModuleName c s =
     (let meta = rc_endpointMeta c in
      if \<not> me_UserAuthRequired meta then
        (Ok \<lparr>ur_Authenticated = False, ur_SkipUserAuth = True, ur_ErrorReason = [], ur_AuthData = None\<rparr>, s)
      else
        (case settingsByModuleName (me_ModuleName meta) of
           None \<Rightarrow>
             (Err (WithMessage ErrUserAuthSettingNotFound
                     (''setting for module '' @ quoted (me_ModuleName meta) @ '' and endpoint '' @ quoted (me_Endpoint meta) @
                      '' not found'')), s)
         | Some setting \<Rightarrow>
             (case extractToken (rc_request c) (us_tokenProviders setting) of
                Panic \<Rightarrow> (Panic, s)
              | Err e \<Rightarrow> (Err (WithMessage e ''extract user token''), s)
              | Ok token \<Rightarrow>
                  (case in_world (call_in_pool x n (Call_AuthenticateUser setting token)) s of
                     (a, s1) \<Rightarrow> (with_message ''auth'' (case a of UserAnswer r \<Rightarrow> r | _ \<Rightarrow> Panic), s1)))))"

section \<open>A request in the pool\<close>

text \<open>
  The handler of a request uses the outside world between its calls of the services, too: it takes an
  identifier, reads the clock, buffers the body and calls a module. In the pool each such use is
  one move of the world all requests share. The environment of the pool is that of the gateway
  with every function on the world lifted so.
\<close>

definition outside :: "'w ext \<Rightarrow> ('w \<Rightarrow> 'a \<times> 'w) \<Rightarrow> 'w shared \<Rightarrow> 'a \<times> 'w shared" where
  "outside x f = outside_pool x (in_world f)"

abbreviation the_world :: "'w shared \<Rightarrow> 'w" where
  "the_world w \<equiv> g_world (po_gate (fst w))"

definition shared_ext :: "'w ext \<Rightarrow> 'w shared ext" where
  "shared_ext x =
     \<lparr>x_Now = outside x (x_Now x),
      x_date = x_date x,
      x_unicode_lower = x_unicode_lower x,
      x_map_order = (\<lambda>w. x_map_order x (the_world w)),
      x_requestid_Next = outside x (x_requestid_Next x),
      x_requestid_ToContext = x_requestid_ToContext x,
      x_requestid_FromContext = x_requestid_FromContext x,
      x_log_ToContext = x_log_ToContext x,
      x_log_RewriteContextField = x_log_RewriteContextField x,
      x_marshal_app = x_marshal_app x,
      x_unmarshal_app = x_unmarshal_app x,
      x_marshal_user = x_marshal_user x,
      x_unmarshal_user = x_unmarshal_user x,
      x_marshal_json = x_marshal_json x,
      x_system_authenticate = (\<lambda>p q. outside x (x_system_authenticate x p q)),
      x_system_authorize = (\<lambda>p q. outside x (x_system_authorize x p q)),
      x_admin_authenticate = (\<lambda>p q. outside x (x_admin_authenticate x p q)),
      x_admin_authorize = (\<lambda>p q. outside x (x_admin_authorize x p q)),
      x_locker_increment = (\<lambda>p q. outside x (x_locker_increment x p q)),
      x_locker_rate_limit = (\<lambda>p q. outside x (x_locker_rate_limit x p q)),
      x_router_next = outside x (x_router_next x),
      x_post_user_auth = (\<lambda>p q. outside x (x_post_user_auth x p q)),
      x_host_next = (\<lambda>m. outside x (x_host_next x m)),
      x_url_parse = x_url_parse x,
      x_forward_http = (\<lambda>h req t. outside x (x_forward_http x h req t)),
      x_forward_ws = (\<lambda>h req d m. outside x (x_forward_ws x h req d m)),
      x_backend_request = (\<lambda>e md t b. outside x (x_backend_request x e md t b)),
      x_ProxyMethodNameHeader = x_ProxyMethodNameHeader x,
      x_md_Set = x_md_Set x,
      x_router_lookup = x_router_lookup x,
      x_required_admin_permission = x_required_admin_permission x,
      x_mux_Match = x_mux_Match x,
      x_mux_Answer = x_mux_Answer x,
      x_client_Default = outside x (x_client_Default x),
      x_buffer_Acquire = (\<lambda>w. snd (outside x (\<lambda>w. ((), x_buffer_Acquire x w)) w)),
      x_buffer_ReadRequestBody = (\<lambda>b. outside x (x_buffer_ReadRequestBody x b)),
      x_buffer_RequestBody = (\<lambda>w. x_buffer_RequestBody x (the_world w)),
      x_buffer_ResponseBody = (\<lambda>w. x_buffer_ResponseBody x (the_world w)),
      x_buffer_StatusCode = (\<lambda>w. x_buffer_StatusCode x (the_world w)),
      x_buffer_WriteHeader = (\<lambda>c rw. outside x (x_buffer_WriteHeader x c rw)),
      x_buffer_Write = (\<lambda>d rw. outside x (x_buffer_Write x d rw)),
      x_buffer_Release = (\<lambda>w. snd (outside x (\<lambda>w. ((), x_buffer_Release x w)) w))\<rparr>"

text \<open>
  The handler of a location that authenticates, of the configuration \<open>n\<close>, on these services and in this
  environment.
\<close>

definition interleaved_chain ::
  "'w ext \<Rightarrow> nat \<Rightarrow> conf_Remote \<Rightarrow> (string \<rightharpoonup> userAuthSetting) \<Rightarrow> 'w shared middleware list" where
  "interleaved_chain x n config settings =
     [UserAuthenticate (interleaved_user x n settings),
      Authenticate (shared_ext x) (interleaved_app x n),
      AdminAuthenticate_mw (shared_ext x) (\<lambda>t. in_world (outside_pool x (admin_authenticator x t))),
      ClientRequestId (shared_ext x) (cr_EnableClientRequestIdForwarding config) (forwardReqIdByAppId config),
      Authorize (\<lambda>i m e. interleaved_permission x n (Call_AuthorizeApp i m e)),
      AdminAuthorize_mw (\<lambda>i p. interleaved_permission x n (Call_AuthorizeAdmin i p)),
      Throttling (\<lambda>i. in_world (outside_pool x (throttler x config i))),
      DailyLimit (\<lambda>i. in_world (outside_pool x (daily_checker x config i)))]"

definition interleaved_handler ::
  "'w ext \<Rightarrow> nat \<Rightarrow> conf_Remote \<Rightarrow> (string \<rightharpoonup> userAuthSetting) \<Rightarrow> bool \<Rightarrow> 'w shared handler \<Rightarrow> 'w shared handler" where
  "interleaved_handler x n config settings enableBodyLog proxyFunc =
     Chain proxyFunc
       ([location_logger (shared_ext x) config enableBodyLog (cl_SkipBodyLoggingEndpointPrefixes (cr_Logging config)),
         RequestId (shared_ext x), ErrorHandler (shared_ext x)] @
        interleaved_chain x n config settings @ [Metrics (shared_ext x)])"

section \<open>Every use of the pool is a run of it\<close>

lemma pool_run_reachable: "pool_reachable x v \<Longrightarrow> pool_reachable x (fold (pool_step x) es v)"
  by (induction es arbitrary: v) (auto intro: pool_next simp del: pool_step.simps)

lemma call_in_pool_reachable:
  "pool_reachable x (fst w) \<Longrightarrow> pool_reachable x (fst (snd (call_in_pool x n c w)))"
  by (auto simp: call_in_pool_def Let_def split_beta intro!: pool_run_reachable pool_next simp del: pool_step.simps)

lemma outside_pool_reachable:
  "pool_reachable x (fst w) \<Longrightarrow> pool_reachable x (fst (snd (outside_pool x f w)))"
  by (auto simp: outside_pool_def split_beta intro: pool_next simp del: pool_step.simps)

lemma outside_reachable:
  "pool_reachable x (fst w) \<Longrightarrow> pool_reachable x (fst (snd (outside x f w)))"
  unfolding outside_def by (rule outside_pool_reachable)

lemma shared_ext_lower [simp]: "x_unicode_lower (shared_ext x) = x_unicode_lower x"
  by (simp add: shared_ext_def)

lemma shared_ext_keeps_reachable: "world_kept (shared_ext x) (\<lambda>w. pool_reachable x (fst w))"
  unfolding world_kept_def by (auto simp: shared_ext_def outside_reachable)

text \<open>A call in the pool gives an answer of its kind with the word of the modules behind it.\<close>

lemma call_in_pool_vouched:
  assumes "pool_reachable x (fst w)"
  shows "answer_vouched x c (fst (call_in_pool x n c w))"
proof -
  obtain v schedule where w: "w = (v, schedule)" by (cases w)
  let ?i = "length (po_threads v)"
  let ?es = "(case schedule of [] \<Rightarrow> [] | es # rest \<Rightarrow> es) @ [Advance ?i, Advance ?i, Advance ?i]"
  let ?v = "fold (pool_step x) (Start n c # ?es) v"
  have run: "th_call (po_threads ?v ! ?i) = c" "prog_within (th_prog (po_threads ?v ! ?i)) (3 - count_list ?es (Advance ?i))"
    "?i < length (po_threads ?v)"
    using pool_run_within [of ?i "pool_step x (Start n c) v" 3 x ?es]
      pool_run_threads [of "pool_step x (Start n c) v" x ?es] by (simp_all add: call_prog_within)
  have "3 - count_list ?es (Advance ?i) = 0" by simp
  with run(2) obtain a where a: "th_prog (po_threads ?v ! ?i) = Finish a" using prog_within_0 by metis
  have "pool_reachable x ?v" using assms w by (intro pool_run_reachable) simp
  from pool_reachable_sound [OF this] run(3) have "prog_sound x (answer_vouched x c) (th_prog (po_threads ?v ! ?i))"
    unfolding pool_sound_def using run(1) nth_mem by metis
  then show ?thesis using a by (simp add: call_in_pool_def w Let_def del: pool_step.simps)
qed

interpretation interleaved: vouching_services x "shared_ext x" settings "\<lambda>s. pool_reachable x (fst (g_world s))"
  "interleaved_user x n settings" "interleaved_app x n" "\<lambda>t. in_world (outside_pool x (admin_authenticator x t))"
  "\<lambda>i m e. interleaved_permission x n (Call_AuthorizeApp i m e)" "\<lambda>i p. interleaved_permission x n (Call_AuthorizeAdmin i p)"
  "\<lambda>i. in_world (outside_pool x (throttler x config i))" "\<lambda>i. in_world (outside_pool x (daily_checker x config i))"
  for x :: "'w ext" and settings n config
proof (unfold_locales, goal_cases)
  case (15 s c resp u)
  then obtain st t where st: "settings (me_ModuleName (rc_endpointMeta c)) = Some st"
    and t: "extractToken (rc_request c) (us_tokenProviders st) = Ok t"
    and a: "fst (call_in_pool x n (Call_AuthenticateUser st t) (g_world s)) = UserAnswer (Ok resp)"
    by (auto simp: interleaved_user_def Let_def split_beta split: if_splits option.splits res.splits answer.splits)
  with call_in_pool_vouched [OF 15(1), of "Call_AuthenticateUser st t" n] 15(4,5) show ?case by auto
next
  case (16 s t ar a)
  with call_in_pool_vouched [OF 16(1), of "Call_AuthenticateApp t" n] show ?case
    by (auto simp: interleaved_app_def split_beta split: answer.splits)
next
  case (17 s t mr)
  then have "fst (admin_authenticator x t (po_gate (fst (g_world s)))) = Ok mr"
    by (simp add: outside_pool_def split_beta)
  then show ?case using 17(3) by (rule admin_authenticator_origin)
next
  case (18 s i m e)
  with call_in_pool_vouched [OF 18(1), of "Call_AuthorizeApp i m e" n] show ?case
    by (auto simp: interleaved_permission_def split_beta split: answer.splits)
next
  case (19 s i p)
  with call_in_pool_vouched [OF 19(1), of "Call_AuthorizeAdmin i p" n] show ?case
    by (auto simp: interleaved_permission_def split_beta split: answer.splits)
qed (auto simp: interleaved_user_def interleaved_app_def interleaved_permission_def Let_def split_beta
    call_in_pool_reachable outside_pool_reachable split: option.splits res.splits)

definition interleaved_admits ::
  "'w ext \<Rightarrow> nat \<Rightarrow> conf_Remote \<Rightarrow> (string \<rightharpoonup> userAuthSetting) \<Rightarrow> 'w shared gate \<Rightarrow> 'w shared gate \<Rightarrow> bool" where
  "interleaved_admits x n config settings =
     user_admits (interleaved_user x n settings) OO app_admits (shared_ext x) (interleaved_app x n) OO
     admin_admits (shared_ext x) (\<lambda>t. in_world (outside_pool x (admin_authenticator x t))) OO
     client_id_admits (shared_ext x) OO
     authorize_admits (\<lambda>i m e. interleaved_permission x n (Call_AuthorizeApp i m e)) OO
     admin_authorize_admits (\<lambda>i p. interleaved_permission x n (Call_AuthorizeAdmin i p)) OO
     throttling_admits (\<lambda>i. in_world (outside_pool x (throttler x config i))) OO
     daily_admits (\<lambda>i. in_world (outside_pool x (daily_checker x config i)))"

interpretation crowd: access_middleware "\<lambda>nxt. Chain nxt (interleaved_chain x n config settings)"
  "interleaved_admits x n config settings" for x :: "'w ext" and n config settings
  unfolding interleaved_chain_def interleaved_admits_def Chain_simps
  by (intro access_middleware_relcompp user_mw.access_middleware_axioms app_mw.access_middleware_axioms
      admin_mw.access_middleware_axioms client_id.access_middleware_axioms authorize_mw.access_middleware_axioms
      admin_authorize_mw.access_middleware_axioms throttling_mw.access_middleware_axioms
      daily_mw.access_middleware_axioms)

section \<open>Property\<close>

text \<open>
  C4. Whole requests among others: a request to a location that authenticates, of any configuration,
  whose calls of services and uses of the outside world are interleaved with whatever else goes on,
  either never reaches the proxy, or the proxy is run once, for a request that acts for the
  application, user and administrator its own credentials belong to, by the word of the modules.
\<close>

theorem interleaved_requests_attributed:
  assumes "pool_reachable x (fst (g_world s))"
  shows "(\<exists>out. \<forall>proxy. interleaved_handler x n config settings log proxy (s\<lparr>g_ctx := NewContext req w meta\<rparr>) = out) \<or>
    (\<exists>k s'. attributed x settings req meta (g_ctx s') \<and>
      (\<forall>proxy. interleaved_handler x n config settings log proxy (s\<lparr>g_ctx := NewContext req w meta\<rparr>) =
         k (Metrics (shared_ext x) proxy s')))"
  using location_runs [where x = "shared_ext x" and config = config and log = log and s = s and req = req and w = w
      and meta = meta and skip = "cl_SkipBodyLoggingEndpointPrefixes (cr_Logging config)",
      OF crowd.access_middleware_axioms [of x n config settings]]
proof (elim disjE exE conjE)
  fix k s1 s' b g w'
  assume ctx: "g_ctx s1 = NewContext (req\<lparr>rq_Body := b, rq_Context := g\<rparr>) w' meta"
    and before: "before_checks (shared_ext x) s s1" and admits: "interleaved_admits x n config settings s1 s'"
    and run: "\<forall>proxy. Chain proxy ([location_logger (shared_ext x) config log (cl_SkipBodyLoggingEndpointPrefixes (cr_Logging config)),
      RequestId (shared_ext x), ErrorHandler (shared_ext x)] @ interleaved_chain x n config settings @ [Metrics (shared_ext x)])
        (s\<lparr>g_ctx := NewContext req w meta\<rparr>) = k (Metrics (shared_ext x) proxy s')"
  have "pool_reachable x (fst (g_world s1))"
    using before shared_ext_keeps_reachable [of x] assms unfolding before_checks_def by blast
  from interleaved.chain_attributed [OF admits [unfolded interleaved_admits_def] this ctx] run show ?thesis
    unfolding interleaved_handler_def by blast
qed (auto simp: interleaved_handler_def)

text \<open>A request in a pool with a finished call, under a schedule that runs the cleaner and another call in between.\<close>

definition busy_state :: "unit shared gate" where
  "busy_state = fresh_gate zero_EndpointMeta sample_request (busy_pool, [[Clean 7, Advance 0]])"

theorem interleaved_requests_attributed_witness:
  "(\<exists>out. \<forall>proxy. interleaved_handler sample_ext 0 sample_config Map.empty False proxy
       (busy_state\<lparr>g_ctx := NewContext sample_request ServerWriter zero_EndpointMeta\<rparr>) = out) \<or>
   (\<exists>k s'. attributed sample_ext Map.empty sample_request zero_EndpointMeta (g_ctx s') \<and>
      (\<forall>proxy. interleaved_handler sample_ext 0 sample_config Map.empty False proxy
         (busy_state\<lparr>g_ctx := NewContext sample_request ServerWriter zero_EndpointMeta\<rparr>) =
           k (Metrics (shared_ext sample_ext) proxy s')))"
proof -
  have "pool_reachable sample_ext (fst (g_world busy_state))"
    by (simp add: busy_state_def fresh_gate_def busy_pool_reachable)
  from interleaved_requests_attributed [OF this, of 0 sample_config Map.empty False sample_request ServerWriter zero_EndpointMeta]
  show ?thesis by blast
qed

end
