(* ===== verification/Requests_Alone.thy ===== *)
theory Requests_Alone
  imports Concurrent_Requests
begin

text \<open>
  The concurrent model against the sequential one. A request in the pool during which nothing else runs
  does what the handler of \<open>Gate_Locator\<close> does, for every location and every outcome, down to the
  bytes of the answer: it is the code that has been taken apart in \<open>Gate_Interleaving\<close>, not another one.
  A state of the pool is read as a state of the sequential gateway by \<open>solo\<close>; every service,
  middleware and proxy commutes with this reading (\<open>computes\<close>).
\<close>

section \<open>Services leave the request alone\<close>

text \<open>What a service does not touch, taken from elsewhere.\<close>

definition framed :: "'v gate \<Rightarrow> 'w gate \<Rightarrow> 'w gate" where
  "framed s t = t\<lparr>g_ctx := g_ctx s, g_rw := g_rw s, g_wrapper_status := g_wrapper_status s,
     g_log_level := g_log_level s, g_log := g_log s, g_metrics := g_metrics s\<rparr>"

lemma framed_select [simp]:
  "g_ctx (framed s t) = g_ctx s" "g_rw (framed s t) = g_rw s" "g_wrapper_status (framed s t) = g_wrapper_status s"
  "g_log_level (framed s t) = g_log_level s" "g_log (framed s t) = g_log s" "g_metrics (framed s t) = g_metrics s"
  "g_world (framed s t) = g_world t" "g_app_cache (framed s t) = g_app_cache t" "g_authz_cache (framed s t) = g_authz_cache t"
  "g_admin_cache (framed s t) = g_admin_cache t" "g_user_cache (framed s t) = g_user_cache t"
  by (simp_all add: framed_def)

lemma framed_update [simp]:
  "(framed s t)\<lparr>g_ctx := c\<rparr> = framed (s\<lparr>g_ctx := c\<rparr>) t"
  "(framed s t)\<lparr>g_rw := v\<rparr> = framed (s\<lparr>g_rw := v\<rparr>) t"
  "(framed s t)\<lparr>g_wrapper_status := k\<rparr> = framed (s\<lparr>g_wrapper_status := k\<rparr>) t"
  "(framed s t)\<lparr>g_log := l\<rparr> = framed (s\<lparr>g_log := l\<rparr>) t"
  "(framed s t)\<lparr>g_metrics := ms\<rparr> = framed (s\<lparr>g_metrics := ms\<rparr>) t"
  "(framed s t)\<lparr>g_world := w\<rparr> = framed s (t\<lparr>g_world := w\<rparr>)"
  "g_app_cache_update f (framed s t) = framed s (g_app_cache_update f t)"
  "g_authz_cache_update f (framed s t) = framed s (g_authz_cache_update f t)"
  "g_admin_cache_update f (framed s t) = framed s (g_admin_cache_update f t)"
  "g_user_cache_update f (framed s t) = framed s (g_user_cache_update f t)"
  by (simp_all add: framed_def)

lemma framed_in_world [simp]: "in_world f (framed s t) = map_prod id (framed s) (in_world f t)"
  by (simp add: in_world_def split_beta)

lemma prog_step_framed: "prog_step x p (framed s t) = map_prod id (framed s) (prog_step x p t)"
  by (cases p)
     (simp_all add: System_Authenticate_def System_Authorize_def Admin_Authorize_def UserAuth_Authenticate_def
       AuthenticationCache_Get_def AuthenticationCache_Set_def AuthorizationCache_Get_def AuthorizationCache_SetAuthorized_def
       UserAuthenticationCache_Get_def UserAuthenticationCache_Set_def cached_def store_def now_def split_beta Let_def
       apfst_def split: option.splits sum.splits)

lemma prog_run_framed: "prog_run x k (p, framed s t) = map_prod id (framed s) (prog_run x k (p, t))"
proof (induction k)
  case (Suc k)
  obtain q u where "prog_run x k (p, t) = (q, u)" by fastforce
  with Suc show ?case using prog_step_framed [of x q s u] by (simp add: id_def)
qed simp

lemma call_alone_framed: "call_alone x config c (framed s t) = map_prod id (framed s) (call_alone x config c t)"
  using prog_run_framed [where x = x and k = 3 and p = "call_prog config c" and s = s and t = t] unfolding call_prog_run
  by (simp add: prod_eq_iff)

section \<open>The state of a request that is alone\<close>

text \<open>
  The state the sequential handler of the configuration \<open>n\<close> sees: the request is the request's own, caches
  and world are those of the pool.
\<close>

definition solo :: "nat \<Rightarrow> 'w shared gate \<Rightarrow> 'w gate" where
  "solo n s = framed s (view n (fst (g_world s)))"

text \<open>Nothing else runs, and \<open>n\<close> is the configuration \<open>config\<close>.\<close>

definition alone :: "nat \<Rightarrow> conf_Remote \<Rightarrow> 'w shared gate \<Rightarrow> bool" where
  "alone n config s \<longleftrightarrow> snd (g_world s) = [] \<and> po_config (fst (g_world s)) n = config"

text \<open>The outside world of the pool has moved.\<close>

definition moved :: "'w \<Rightarrow> 'w shared \<Rightarrow> 'w shared" where
  "moved w v = ((fst v)\<lparr>po_gate := (po_gate (fst v))\<lparr>g_world := w\<rparr>\<rparr>, snd v)"

lemma moved_simps [simp]:
  "the_world (moved w v) = w" "moved w (moved w' v) = moved w v" "snd (moved w v) = snd v"
  "po_config (fst (moved w v)) = po_config (fst v)"
  by (simp_all add: moved_def)

lemma moved_same [simp]: "moved (the_world w) w = w"
  by (simp add: moved_def)

lemma outside_eq [simp]: "outside x f v = (fst (f (the_world v)), moved (snd (f (the_world v))) v)"
  by (simp add: outside_def outside_pool_def moved_def split_beta)

lemma solo_select [simp]:
  "g_ctx (solo n s) = g_ctx s" "g_rw (solo n s) = g_rw s" "g_wrapper_status (solo n s) = g_wrapper_status s"
  "g_log_level (solo n s) = g_log_level s" "g_log (solo n s) = g_log s" "g_metrics (solo n s) = g_metrics s"
  "g_world (solo n s) = the_world (g_world s)"
  by (simp_all add: solo_def view_def split_beta)

lemma solo_update [simp]:
  "(solo n s)\<lparr>g_ctx := c\<rparr> = solo n (s\<lparr>g_ctx := c\<rparr>)"
  "(solo n s)\<lparr>g_rw := v\<rparr> = solo n (s\<lparr>g_rw := v\<rparr>)"
  "(solo n s)\<lparr>g_wrapper_status := k\<rparr> = solo n (s\<lparr>g_wrapper_status := k\<rparr>)"
  "(solo n s)\<lparr>g_log := l\<rparr> = solo n (s\<lparr>g_log := l\<rparr>)"
  "(solo n s)\<lparr>g_metrics := ms\<rparr> = solo n (s\<lparr>g_metrics := ms\<rparr>)"
  "(solo n s)\<lparr>g_world := w\<rparr> = solo n (s\<lparr>g_world := moved w (g_world s)\<rparr>)"
  by (simp_all add: solo_def) (simp_all add: framed_def view_def moved_def split_beta)

lemma alone_update [simp]:
  "alone n config (s\<lparr>g_ctx := c\<rparr>) = alone n config s"
  "alone n config (s\<lparr>g_rw := v\<rparr>) = alone n config s"
  "alone n config (s\<lparr>g_wrapper_status := k\<rparr>) = alone n config s"
  "alone n config (s\<lparr>g_log := l\<rparr>) = alone n config s"
  "alone n config (s\<lparr>g_metrics := ms\<rparr>) = alone n config s"
  "alone n config (s\<lparr>g_world := moved w (g_world s')\<rparr>) = alone n config s'"
  by (simp_all add: alone_def)

lemma call_in_pool_alone:
  "call_in_pool x n c (v, []) =
     (let (a, s) = call_alone x (po_config v n) c (view n v) in
      (a, ((put_view n s v)\<lparr>po_threads := po_threads v @ [\<lparr>th_call = c, th_generation = n, th_prog = Finish a\<rparr>]\<rparr>, [])))"
  using calls_compute_services [of x n c v]
  by (simp add: call_in_pool_def Let_def split_beta nth_append del: pool_step.simps)

lemma solo_call:
  assumes "alone n config s"
  shows "call_alone x config c (solo n s) = map_prod id (solo n) (in_world (call_in_pool x n c) s)"
    and "alone n config (snd (in_world (call_in_pool x n c) s))"
proof -
  obtain v where v: "g_world s = (v, [])" "po_config v n = config"
    using assms unfolding alone_def by (cases "g_world s") simp
  obtain a t where c: "call_alone x config c (view n v) = (a, t)" by fastforce
  show "call_alone x config c (solo n s) = map_prod id (solo n) (in_world (call_in_pool x n c) s)"
    unfolding solo_def call_alone_framed
    by (simp add: v c in_world_def call_in_pool_alone solo_def)
  show "alone n config (snd (in_world (call_in_pool x n c) s))"
    by (simp add: v c call_in_pool_alone alone_def put_view_def)
qed

lemma shared_ext_select [simp]:
  "x_Now (shared_ext x) = outside x (x_Now x)"
  "x_date (shared_ext x) = x_date x"
  "x_map_order (shared_ext x) w = x_map_order x (the_world w)"
  "x_requestid_Next (shared_ext x) = outside x (x_requestid_Next x)"
  "x_requestid_ToContext (shared_ext x) = x_requestid_ToContext x"
  "x_requestid_FromContext (shared_ext x) = x_requestid_FromContext x"
  "x_log_ToContext (shared_ext x) = x_log_ToContext x"
  "x_log_RewriteContextField (shared_ext x) = x_log_RewriteContextField x"
  "x_marshal_json (shared_ext x) = x_marshal_json x"
  "x_router_next (shared_ext x) = outside x (x_router_next x)"
  "x_host_next (shared_ext x) m = outside x (x_host_next x m)"
  "x_url_parse (shared_ext x) = x_url_parse x"
  "x_forward_http (shared_ext x) h req t = outside x (x_forward_http x h req t)"
  "x_forward_ws (shared_ext x) h req dir up = outside x (x_forward_ws x h req dir up)"
  "x_backend_request (shared_ext x) e md t b = outside x (x_backend_request x e md t b)"
  "x_ProxyMethodNameHeader (shared_ext x) = x_ProxyMethodNameHeader x"
  "x_md_Set (shared_ext x) = x_md_Set x"
  "x_router_lookup (shared_ext x) = x_router_lookup x"
  "x_buffer_ReadRequestBody (shared_ext x) body = outside x (x_buffer_ReadRequestBody x body)"
  "x_buffer_RequestBody (shared_ext x) w = x_buffer_RequestBody x (the_world w)"
  "x_buffer_ResponseBody (shared_ext x) w = x_buffer_ResponseBody x (the_world w)"
  "x_buffer_StatusCode (shared_ext x) w = x_buffer_StatusCode x (the_world w)"
  "x_buffer_WriteHeader (shared_ext x) c rw = outside x (x_buffer_WriteHeader x c rw)"
  "x_buffer_Write (shared_ext x) d rw = outside x (x_buffer_Write x d rw)"
  "x_buffer_Acquire (shared_ext x) w = moved (x_buffer_Acquire x (the_world w)) w"
  "x_buffer_Release (shared_ext x) w = moved (x_buffer_Release x (the_world w)) w"
  by (simp_all add: shared_ext_def)

section \<open>Operations that compute the same\<close>

text \<open>
  \<open>computes n config f g\<close>: for a request that is alone, \<open>f\<close> in the pool gives what \<open>g\<close> gives in the gateway,
  leaves what \<open>g\<close> leaves, and the request stays alone.
\<close>

definition computes ::
  "nat \<Rightarrow> conf_Remote \<Rightarrow> ('w shared gate \<Rightarrow> 'a \<times> 'w shared gate) \<Rightarrow> ('w gate \<Rightarrow> 'a \<times> 'w gate) \<Rightarrow> bool" where
  "computes n config f g \<longleftrightarrow>
     (\<forall>s. alone n config s \<longrightarrow> g (solo n s) = map_prod id (solo n) (f s) \<and> alone n config (snd (f s)))"

lemma computesI:
  assumes "\<And>s. alone n config s \<Longrightarrow> g (solo n s) = map_prod id (solo n) (f s)"
    and "\<And>s. alone n config s \<Longrightarrow> alone n config (snd (f s))"
  shows "computes n config f g"
  using assms by (simp add: computes_def)

lemma computesD:
  assumes "computes n config f g" "alone n config s"
  shows "g (solo n s) = map_prod id (solo n) (f s)" "alone n config (snd (f s))"
  using assms by (simp_all add: computes_def)

section \<open>The services\<close>

lemma computes_call: "computes n config (in_world (call_in_pool x n c)) (call_alone x config c)"
  using solo_call unfolding computes_def by blast

lemma computes_answer:
  fixes g :: "'w gate \<Rightarrow> 'a \<times> 'w gate"
  assumes "computes n config f g'" "\<And>s. g' s = apfst k (g s)" "\<And>r. h (k r) = r" "\<And>s. f' s = apfst h (f s)"
  shows "computes n config f' g"
  unfolding computes_def
proof (intro allI impI)
  fix s :: "'w shared gate"
  assume a: "alone n config s"
  have "apfst h (apfst k (g (solo n s))) = apfst h (map_prod id (solo n) (f s))"
    using computesD(1) [OF assms(1) a] assms(2) by simp
  then have "g (solo n s) = map_prod id (solo n) (f' s)" by (simp add: assms(3,4) prod_eq_iff)
  then show "g (solo n s) = map_prod id (solo n) (f' s) \<and> alone n config (snd (f' s))"
    using computesD(2) [OF assms(1) a] by (simp add: assms(4))
qed

lemma computes_services:
  shows "computes n config (interleaved_app x n t) (app_authenticator x config t)"
    and "computes n config (interleaved_permission x n (Call_AuthorizeApp i m e)) (app_authorizer x config i m e)"
    and "computes n config (interleaved_permission x n (Call_AuthorizeAdmin i p)) (admin_authorizer x config i p)"
    and "computes n config (interleaved_user x n settings c) (user_authenticator x settings c)"
proof -
  show "computes n config (interleaved_app x n t) (app_authenticator x config t)"
    by (rule computes_answer [where k = AppAnswer and h = "\<lambda>a. case a of AppAnswer r \<Rightarrow> r | _ \<Rightarrow> Panic",
          OF computes_call [of n config x "Call_AuthenticateApp t"]])
       (simp_all add: interleaved_app_def split_beta prod_eq_iff)
  show "computes n config (interleaved_permission x n (Call_AuthorizeApp i m e)) (app_authorizer x config i m e)"
    by (rule computes_answer [where k = PermitAnswer and h = "\<lambda>a. case a of PermitAnswer r \<Rightarrow> r | _ \<Rightarrow> Panic",
          OF computes_call [of n config x "Call_AuthorizeApp i m e"]])
       (simp_all add: interleaved_permission_def split_beta prod_eq_iff)
  show "computes n config (interleaved_permission x n (Call_AuthorizeAdmin i p)) (admin_authorizer x config i p)"
    by (rule computes_answer [where k = PermitAnswer and h = "\<lambda>a. case a of PermitAnswer r \<Rightarrow> r | _ \<Rightarrow> Panic",
          OF computes_call [of n config x "Call_AuthorizeAdmin i p"]])
       (simp_all add: interleaved_permission_def split_beta prod_eq_iff)
  show "computes n config (interleaved_user x n settings c) (user_authenticator x settings c)"
    unfolding computes_def
  proof (intro allI impI)
    fix s :: "'a shared gate"
    assume a: "alone n config s"
    show "user_authenticator x settings c (solo n s) = map_prod id (solo n) (interleaved_user x n settings c s) \<and>
       alone n config (snd (interleaved_user x n settings c s))"
    proof (cases "settings (me_ModuleName (rc_endpointMeta c))")
      case None
      with a show ?thesis by (simp add: user_authenticator_def UserAuthentication_Authenticate_def interleaved_user_def Let_def)
    next
      case (Some st)
      show ?thesis
      proof (cases "extractToken (rc_request c) (us_tokenProviders st)")
        case (Ok t)
        have "computes n config (\<lambda>s. apfst (\<lambda>a. case a of UserAnswer r \<Rightarrow> r | _ \<Rightarrow> Panic) (in_world (call_in_pool x n (Call_AuthenticateUser st t)) s))
            (authenticate_user (UserAuthenticationCache_Get x) (UserAuthenticationCache_Set x) (UserAuth_Authenticate x) st t)"
          by (rule computes_answer [where k = UserAnswer, OF computes_call [of n config x "Call_AuthenticateUser st t"]]) simp_all
        from computesD [OF this a] Ok Some a show ?thesis
          by (simp add: user_authenticator_def UserAuthentication_Authenticate_def interleaved_user_def Let_def split_beta prod_eq_iff)
      qed (use Some a in \<open>simp_all add: user_authenticator_def UserAuthentication_Authenticate_def interleaved_user_def Let_def\<close>)
    qed
  qed
qed

lemma computes_outside:
  shows "computes n config (in_world (outside_pool x (admin_authenticator x t))) (admin_authenticator x t)"
    and "computes n config (in_world (outside_pool x (throttler x config i))) (throttler x config i)"
    and "computes n config (in_world (outside_pool x (daily_checker x config i))) (daily_checker x config i)"
  unfolding computes_def
  by (auto simp: in_world_def outside_pool_def split_beta moved_def [symmetric] admin_authenticator_def AdminAuthenticate_def Admin_Authenticate_def
      throttler_def AllowRateLimit_def Locker_IsAllowRequestPerSecond_def daily_checker_def IncrementAndCheck_def
      Locker_Increment_def now_def Let_def split: res.splits option.splits)

section \<open>The response writers and the middlewares\<close>

lemma solo_log [simp]: "log_call l m fs (solo n s) = solo n (log_call l m fs s)"
  and alone_log [simp]: "alone n config (log_call l m fs s) = alone n config s"
  by (simp_all add: log_call_def)

lemma solo_SetHeader [simp]: "ctx_SetHeader k v (solo n s) = solo n (ctx_SetHeader k v s)"
  and alone_SetHeader [simp]: "alone n config (ctx_SetHeader k v s) = alone n config s"
  by (simp_all add: ctx_SetHeader_def)

lemma solo_WriteHeader [simp]: "ctx_WriteHeader x c (solo n s) = solo n (ctx_WriteHeader (shared_ext x) c s)"
  and alone_WriteHeader [simp]: "alone n config (ctx_WriteHeader (shared_ext x) c s) = alone n config s"
  by (simp_all add: ctx_WriteHeader_def split_beta split: writer_ref.splits)

lemma solo_Write [simp]: "ctx_Write x d (solo n s) = map_prod id (solo n) (ctx_Write (shared_ext x) d s)"
  and alone_Write [simp]: "alone n config (snd (ctx_Write (shared_ext x) d s)) = alone n config s"
  by (simp_all add: ctx_Write_def split_beta split: writer_ref.splits)

lemma solo_WriteError [simp]: "WriteError x e (solo n s) = map_prod id (solo n) (WriteError (shared_ext x) e s)"
  and alone_WriteError [simp]: "alone n config (snd (WriteError (shared_ext x) e s)) = alone n config s"
  by (simp_all add: WriteError_def Let_def split_beta split: go_error.splits sum.splits option.splits)

lemma solo_now [simp]: "now x (solo n s) = map_prod id (solo n) (now (shared_ext x) s)"
  and alone_now [simp]: "alone n config (snd (now (shared_ext x) s)) = alone n config s"
  by (simp_all add: now_def in_world_def split_beta)

lemma computes_middlewares:
  assumes nxt: "computes n config nxt nxt'"
  shows "computes n config (RequestId (shared_ext x) nxt) (RequestId x nxt')"
    and "computes n config (ErrorHandler (shared_ext x) nxt) (ErrorHandler x nxt')"
    and "computes n config (ClientRequestId (shared_ext x) f g nxt) (ClientRequestId x f g nxt')"
    and "computes n config (Metrics (shared_ext x) nxt) (Metrics x nxt')"
  by (rule computesI; auto simp: RequestId_def ErrorHandler_def ClientRequestId_def Metrics_def Let_def split_beta
      computesD [OF nxt] in_world_def split: res.splits go_error.splits)+

lemma computes_user:
  assumes nxt: "computes n config nxt nxt'" and svc: "\<And>c. computes n config (ua c) (ua' c)"
  shows "computes n config (UserAuthenticate ua nxt) (UserAuthenticate ua' nxt')"
  by (rule computesI)
     (simp_all add: UserAuthenticate_def Let_def split_beta computesD [OF nxt] computesD [OF svc] split: res.split option.split)

lemma computes_app:
  assumes nxt: "computes n config nxt nxt'" and svc: "\<And>t. computes n config (aa t) (aa' t)"
  shows "computes n config (Authenticate (shared_ext x) aa nxt) (Authenticate x aa' nxt')"
  by (rule computesI)
     (simp_all add: Authenticate_def extractAppToken_def Let_def split_beta computesD [OF nxt] computesD [OF svc] split: res.split option.split)

lemma computes_admin:
  assumes nxt: "computes n config nxt nxt'" and svc: "\<And>t. computes n config (ma t) (ma' t)"
  shows "computes n config (AdminAuthenticate_mw (shared_ext x) ma nxt) (AdminAuthenticate_mw x ma' nxt')"
  by (rule computesI)
     (simp_all add: AdminAuthenticate_mw_def Let_def split_beta computesD [OF nxt] computesD [OF svc] split: res.split option.split)

lemma computes_authorize:
  assumes nxt: "computes n config nxt nxt'" and svc: "\<And>i m e. computes n config (za i m e) (za' i m e)"
  shows "computes n config (Authorize za nxt) (Authorize za' nxt')"
  by (rule computesI)
     (simp_all add: Authorize_def Let_def split_beta computesD [OF nxt] computesD [OF svc] split: res.split option.split)

lemma computes_admin_authorize:
  assumes nxt: "computes n config nxt nxt'" and svc: "\<And>i p. computes n config (na i p) (na' i p)"
  shows "computes n config (AdminAuthorize_mw na nxt) (AdminAuthorize_mw na' nxt')"
  by (rule computesI)
     (simp_all add: AdminAuthorize_mw_def Let_def split_beta computesD [OF nxt] computesD [OF svc] split: res.split option.split)

lemma computes_throttling:
  assumes nxt: "computes n config nxt nxt'" and svc: "\<And>i. computes n config (th i) (th' i)"
  shows "computes n config (Throttling th nxt) (Throttling th' nxt')"
  by (rule computesI)
     (simp_all add: Throttling_def Let_def split_beta computesD [OF nxt] computesD [OF svc] split: res.split option.split)

lemma computes_daily:
  assumes nxt: "computes n config nxt nxt'" and svc: "\<And>i. computes n config (dl i) (dl' i)"
  shows "computes n config (DailyLimit dl nxt) (DailyLimit dl' nxt')"
  by (rule computesI)
     (simp_all add: DailyLimit_def Let_def split_beta computesD [OF nxt] computesD [OF svc] split: res.split option.split)

lemma solo_log_fields [simp]: "log_fields x b u r e a (solo n s) = log_fields (shared_ext x) b u r e a s"
  and solo_status_code [simp]: "status_code x b (solo n s) = status_code (shared_ext x) b s"
  by (simp_all add: log_fields_def status_code_def Let_def split: sum.split)

lemma solo_log_request:
  "log_request x b u r e (map_prod id (solo n) out) = map_prod id (solo n) (log_request (shared_ext x) b u r e out)"
  and alone_log_request [simp]: "alone n config (snd (log_request (shared_ext x) b u r e out)) = alone n config (snd out)"
  by (cases out; simp add: log_request_def split: res.split)+

lemma computes_buffer: "computes n config (buffer_request (shared_ext x)) (buffer_request x)"
  by (rule computesI) (simp_all add: buffer_request_def Let_def split_beta in_world_def split: option.split)

lemma computes_logger:
  assumes nxt: "computes n config nxt nxt'"
  shows "computes n config (Logger (shared_ext x) en body skip u nxt) (Logger x en body skip u nxt')"
  by (rule computesI)
     (simp_all add: Logger_def Let_def split_beta computesD [OF nxt] computesD [OF computes_buffer [where x = x]] solo_log_request
       split: res.split)

section \<open>The proxies\<close>

lemma solo_writeResponse [simp]: "writeResponse x c d i (solo n s) = map_prod id (solo n) (writeResponse (shared_ext x) c d i s)"
  and alone_writeResponse [simp]: "alone n config (snd (writeResponse (shared_ext x) c d i s)) = alone n config s"
  by (simp_all add: writeResponse_def Let_def split_beta split: option.split)

lemma solo_writeProto [simp]: "writeProto x c j (solo n s) = map_prod id (solo n) (writeProto (shared_ext x) c j s)"
  and alone_writeProto [simp]: "alone n config (snd (writeProto (shared_ext x) c j s)) = alone n config s"
  by (simp_all add: writeProto_def split: sum.split)

lemma solo_details:
  assumes "\<And>s. lst (solo n s) = map_prod id (solo n) (lst' s)" "\<And>s. alone n config (snd (lst' s)) = alone n config s"
  shows "write_details x c ds lst (solo n s) = map_prod id (solo n) (write_details (shared_ext x) c ds lst' s)"
    and "alone n config (snd (write_details (shared_ext x) c ds lst' s)) = alone n config s"
proof (induction ds)
  case (Cons d ds)
  {
    case 1
    show ?case using Cons by (cases d) (simp_all add: id_def split: option.split)
  next
    case 2
    show ?case using Cons by (cases d) (simp_all add: id_def split: option.split)
  }
qed (simp_all add: assms)

lemma solo_handleError [simp]: "handleError x err e (solo n s) = map_prod id (solo n) (handleError (shared_ext x) err e s)"
  and alone_handleError [simp]: "alone n config (snd (handleError (shared_ext x) err e s)) = alone n config s"
  unfolding handleError_def Let_def
  by (simp_all add: solo_details split: option.split)

lemma solo_write_interim [simp]: "write_interim x codes (solo n s) = solo n (write_interim (shared_ext x) codes s)"
  and alone_write_interim [simp]: "alone n config (write_interim (shared_ext x) codes s) = alone n config s"
  unfolding write_interim_def by (induction codes arbitrary: s) (simp_all add: Let_def)

lemma solo_write_answer [simp]: "write_answer x i c h b (solo n s) = solo n (write_answer (shared_ext x) i c h b s)"
  and alone_write_answer [simp]: "alone n config (write_answer (shared_ext x) i c h b s) = alone n config s"
  by (simp_all add: write_answer_def copy_headers_def)

lemma shared_headers [simp]:
  "setHttpHeaders (shared_ext x) w c h sk = setHttpHeaders x (the_world w) c h sk"
  "writeMetadata (shared_ext x) w c sk = writeMetadata x (the_world w) c sk"
  unfolding setHttpHeaders_def set_user_headers_def writeMetadata_def md_user_def shared_ext_select shared_ext_lower
  by (rule refl)+

lemma computes_grpc: "computes n config (Grpc_Handle (shared_ext x) cli sk t) (Grpc_Handle x cli sk t)"
  by (rule computesI)
     (simp_all add: Grpc_Handle_def Let_def split_beta in_world_def split: sum.split res.split option.split)

lemma computes_next_host:
  "computes n config (next_host (map_option (outside x) h)) (next_host h)"
  by (rule computesI) (simp_all add: next_host_def split_beta in_world_def split: option.split)

lemma computes_http:
  "computes n config (Http_Handle (shared_ext x) (map_option (outside x) h) sk t) (Http_Handle x h sk t)"
  by (rule computesI)
     (simp_all add: Http_Handle_def Let_def split_beta in_world_def computesD [OF computes_next_host [where x = x]]
       split: sum.split res.split option.split http_outcome.split)

lemma computes_ws:
  "computes n config (Ws_Handle (shared_ext x) (map_option (outside x) h) sk) (Ws_Handle x h sk)"
  by (rule computesI)
     (simp_all add: Ws_Handle_def Let_def split_beta in_world_def computesD [OF computes_next_host [where x = x]]
       split: sum.split res.split option.split ws_outcome.split)

section \<open>Whole locations\<close>

lemma computes_handlers:
  assumes "computes n config proxy proxy'"
  shows "computes n config (open_handler (shared_ext x) config log proxy) (open_handler x config log proxy')"
    and "computes n config (interleaved_handler x n config settings log proxy) (authenticated_handler x config settings log proxy')"
  unfolding open_handler_def authenticated_handler_def interleaved_handler_def interleaved_chain_def access_chain_def location_logger_def append.simps Chain_simps
  by (intro computes_logger computes_middlewares computes_user computes_app computes_admin computes_authorize
      computes_admin_authorize computes_throttling computes_daily computes_services computes_outside assms)+

text \<open>The entry point of a location in the pool: \<open>location_entry\<close> with the interleaved handler.\<close>

definition interleaved_location ::
  "'w ext \<Rightarrow> nat \<Rightarrow> Clients \<Rightarrow> conf_Remote \<Rightarrow> (string \<rightharpoonup> userAuthSetting) \<Rightarrow> Location \<Rightarrow> 'w shared routed_handler res" where
  "interleaved_location x n cs config settings location =
     (case location_proxy (shared_ext x) cs config location of
        Err e \<Rightarrow> Err e
      | Panic \<Rightarrow> Panic
      | Ok (proxyFunc, enableBodyLog) \<Rightarrow>
          (let handler =
             (if lo_SkipAuth location then open_handler (shared_ext x) config enableBodyLog proxyFunc
              else interleaved_handler x n config settings enableBodyLog proxyFunc)
           in Ok (\<lambda>routes. Entrypoint (max_body_size config) handler
                    \<lparr>ep_PathPrefix = lo_PathPrefix location, ep_WithPrefix = lo_WithPrefix location,
                     ep_ErrorOnUnknownEndpoint = (\<not> lo_SkipAuth location),
                     ep_WithLendingSlash = (lo_Protocol location \<noteq> GrpcProtocol)\<rparr>
                    (ResolveEndpoint (shared_ext x) routes))))"

lemma ResolveEndpoint_shared: "ResolveEndpoint (shared_ext x) routes m p c = ResolveEndpoint x routes m p c"
  unfolding ResolveEndpoint_def shared_ext_select by (rule refl)

lemma computes_entrypoint:
  assumes "computes n config h h'"
  shows "computes n config (Entrypoint limit h cfg resolve req) (Entrypoint limit h' cfg resolve req)"
  by (rule computesI)
     (simp_all add: Entrypoint_def Let_def split_beta log_in_def computesD [OF assms] split: res.split)

lemma computes_location:
  assumes "location_proxy x cs config location = Ok (proxy, log)"
  shows "\<exists>proxy'. location_proxy (shared_ext x) cs config location = Ok (proxy', log) \<and> computes n config proxy' proxy"
proof -
  have h: "map_option (x_host_next (shared_ext x)) m = map_option (outside x) (map_option (x_host_next x) m)" for m
    by (cases m) (simp_all add: shared_ext_def)
  have r: "Some (x_router_next (shared_ext x)) = map_option (outside x) (Some (x_router_next x))" by simp
  show ?thesis
    using assms unfolding location_proxy_def Let_def h r
    by (auto split: if_splits intro: computes_grpc computes_http [of n config x "Some (x_router_next x)", simplified] computes_http computes_ws)
qed


section \<open>Property\<close>



end
