(* ===== verification/Gate_Panics.thy ===== *)
theory Gate_Panics
  imports Gate_Configuration
begin

text \<open>
  Where the gateway can panic: not in the checks of a location, as long as the modules keep to
  their contract.
\<close>

section \<open>The checks do not panic\<close>

text \<open>A handler that does not panic on a well-formed context.\<close>

definition calm :: "'w ext \<Rightarrow> 'w handler \<Rightarrow> bool" where
  "calm x h \<longleftrightarrow> (\<forall>s. wf_context (x_unicode_lower x) (g_ctx s) \<longrightarrow> fst (h s) \<noteq> Panic)"

text \<open>The modules send data with every positive answer.\<close>

definition answers_complete :: "'w ext \<Rightarrow> bool" where
  "answers_complete x \<longleftrightarrow>
     (\<forall>e q w r. fst (x_system_authenticate x e q w) = Inr r \<longrightarrow> er_Authenticated r \<longrightarrow> er_AuthData r \<noteq> None) \<and>
     (\<forall>e q w r. fst (x_post_user_auth x e q w) = Inr r \<longrightarrow> eur_Authenticated r \<longrightarrow> eur_AuthData r \<noteq> None)"

lemma System_Authenticate_data:
  "answers_complete x \<Longrightarrow> fst (System_Authenticate x t s) = Ok r \<Longrightarrow> er_Authenticated r \<Longrightarrow> er_AuthData r \<noteq> None"
  by (simp add: answers_complete_def System_Authenticate_def split_beta)

lemma UserAuth_Authenticate_data:
  "answers_complete x \<Longrightarrow> fst (UserAuth_Authenticate x e t s) = Ok r \<Longrightarrow> eur_Authenticated r \<Longrightarrow> eur_AuthData r \<noteq> None"
  by (auto simp: answers_complete_def UserAuth_Authenticate_def split_beta Let_def split: sum.splits)

lemmas System_Authenticate_complete = System_Authenticate_data [THEN notE, rotated 3]
  and UserAuth_Authenticate_complete = UserAuth_Authenticate_data [THEN notE, rotated 3]

lemma remote_not_Panic [simp]:
  "fst (System_Authenticate x t s) \<noteq> Panic" "fst (System_Authorize x q s) \<noteq> Panic"
  "fst (Admin_Authenticate x t s) \<noteq> Panic" "fst (Admin_Authorize x i p s) \<noteq> Panic"
  "fst (UserAuth_Authenticate x e t s) \<noteq> Panic" "fst (Locker_Increment x k d s) \<noteq> Panic"
  "fst (Locker_IsAllowRequestPerSecond x k r s) \<noteq> Panic"
  by (simp_all add: System_Authenticate_def System_Authorize_def Admin_Authenticate_def Admin_Authorize_def
      UserAuth_Authenticate_def Locker_Increment_def Locker_IsAllowRequestPerSecond_def split_beta Let_def split: sum.splits)

lemma app_authenticator_calm:
  assumes "answers_complete x"
  shows "fst (app_authenticator x config t s) \<noteq> Panic"
    and "fst (app_authenticator x config t s) = Ok resp \<Longrightarrow> ar_Authenticated resp \<Longrightarrow> ar_AuthData resp \<noteq> None"
proof -
  show "fst (app_authenticator x config t s) \<noteq> Panic"
    using app_cache.get_total [of x t s] app_cache.put_total [of x]
    by (auto simp: app_authenticator_def Authentication_Authenticate_def split_beta
        elim: System_Authenticate_complete [OF _ assms] split: res.splits option.splits)
qed (unfold app_authenticator_def, rule app_auth.no_answer_without_data)

lemma user_authenticator_calm:
  assumes "answers_complete x"
  shows "fst (user_authenticator x settings c s) \<noteq> Panic"
    and "fst (user_authenticator x settings c s) = Ok resp \<Longrightarrow> ur_Authenticated resp \<Longrightarrow> \<not> ur_SkipUserAuth resp \<Longrightarrow>
      ur_AuthData resp \<noteq> None"
proof -
  have e: "extractToken r ps \<noteq> Panic" for r ps
    by (simp add: extractToken_eq split: option.splits)
  show "fst (user_authenticator x settings c s) \<noteq> Panic"
    using user_cache.get_total [of x] user_cache.put_total [of x] e
    by (auto simp: user_authenticator_def UserAuthentication_Authenticate_def authenticate_user_def Let_def split_beta
        elim: UserAuth_Authenticate_complete [OF _ assms] split: res.splits option.splits if_splits)
  show "ur_AuthData resp \<noteq> None" if "fst (user_authenticator x settings c s) = Ok resp" "ur_Authenticated resp" "\<not> ur_SkipUserAuth resp"
    using that
    by (auto simp: user_authenticator_def UserAuthentication_Authenticate_def authenticate_user_def convertAuthResponse_def
        Let_def split_beta intro: UserAuth_Authenticate_data [OF assms, simplified]
        elim: UserAuth_Authenticate_complete [OF _ assms] split: res.splits option.splits if_splits)
qed

lemma other_services_calm:
  "fst (admin_authenticator x t s) \<noteq> Panic" "fst (app_authorizer x config i m e s) \<noteq> Panic"
  "fst (admin_authorizer x config i p s) \<noteq> Panic" "fst (throttler x config i s) \<noteq> Panic"
  "fst (daily_checker x config i s) \<noteq> Panic"
  by (auto simp: admin_authenticator_def AdminAuthenticate_def app_authorizer_def Authorization_Authorize_def
      admin_authorizer_def AdminAuthorize_def throttler_def AllowRateLimit_def daily_checker_def IncrementAndCheck_def
      AuthorizationCache_Get_def AuthorizationCache_SetAuthorized_def Let_def split_beta
      split: res.splits option.splits)

lemmas services_ctx [simp] = services_quiet [unfolded quiet_def, THEN conjunct1]

lemma wf_extract: "wf_context (x_unicode_lower x) (g_ctx s) \<Longrightarrow> wf_context (x_unicode_lower x) (g_ctx (snd (extractAppToken x s)))"
  by (auto simp: extractAppToken_def Let_def split_beta wf_Param)

text \<open>Each check is calm when what comes next is.\<close>

lemma checks_calm:
  assumes "answers_complete x" "calm x nxt"
  shows "calm x (UserAuthenticate (user_authenticator x settings) nxt)"
    and "calm x (Authenticate x (app_authenticator x config) nxt)"
    and "calm x (AdminAuthenticate_mw x (admin_authenticator x) nxt)"
    and "calm x (ClientRequestId x f g nxt)"
    and "calm x (Authorize (app_authorizer x config) nxt)"
    and "calm x (AdminAuthorize_mw (admin_authorizer x config) nxt)"
    and "calm x (Throttling (throttler x config) nxt)"
    and "calm x (DailyLimit (daily_checker x config) nxt)"
    and "calm x (Metrics x nxt)"
proof -
  have nxt: "wf_context (x_unicode_lower x) (g_ctx s) \<Longrightarrow> fst (nxt s) \<noteq> Panic" for s
    using assms(2) by (simp add: calm_def)
  note calm_services = other_services_calm app_authenticator_calm(1) [OF assms(1)] user_authenticator_calm(1) [OF assms(1)]
  note wf = wf_context_getters wf_context_steps wf_Param
  show "calm x (Metrics x nxt)"
    by (auto simp: calm_def Metrics_def Let_def split_beta nxt split: res.splits)
  show "calm x (DailyLimit (daily_checker x config) nxt)"
    by (auto simp: calm_def DailyLimit_def split_beta nxt calm_services dest: wf(1) split: res.splits)
  show "calm x (Throttling (throttler x config) nxt)"
    by (auto simp: calm_def Throttling_def split_beta nxt calm_services dest: wf(1) split: res.splits)
  show "calm x (AdminAuthorize_mw (admin_authorizer x config) nxt)"
    by (auto simp: calm_def AdminAuthorize_mw_def Let_def split_beta nxt calm_services split: res.splits)
  show "calm x (Authorize (app_authorizer x config) nxt)"
    by (auto simp: calm_def Authorize_def Let_def split_beta log_call_def nxt calm_services dest: wf(1) split: res.splits)
  show "calm x (ClientRequestId x f g nxt)"
    by (auto simp: calm_def ClientRequestId_def Let_def nxt dest: wf(1) split: res.splits)
  show "calm x (AdminAuthenticate_mw x (admin_authenticator x) nxt)"
    by (auto simp: calm_def AdminAuthenticate_mw_def Let_def split_beta nxt calm_services wf_Param split: res.splits)
  show "calm x (Authenticate x (app_authenticator x config) nxt)"
    using extractAppToken_not_Panic [of x]
    by (auto simp: calm_def Authenticate_def Let_def split_beta nxt calm_services wf_extract
        elim: app_authenticator_calm(2) [OF assms(1), THEN notE, rotated 2] split: res.splits option.splits)
  show "calm x (UserAuthenticate (user_authenticator x settings) nxt)"
    by (auto simp: calm_def UserAuthenticate_def Let_def split_beta log_call_def nxt calm_services
        elim: user_authenticator_calm(2) [OF assms(1), THEN notE, rotated 3] split: res.splits option.splits)
qed

lemma WriteError_calm: "fst (WriteError x (HttpError c m d e) s) \<noteq> Panic"
  by (simp add: WriteError_def Let_def split: sum.splits option.splits prod.splits)

lemma ErrorHandler_calm:
  assumes "fst (nxt s) \<noteq> Panic"
  shows "fst (ErrorHandler x nxt s) \<noteq> Panic"
proof (cases "nxt s")
  case (Pair r s1)
  show ?thesis
  proof (cases r)
    case (Err e)
    show ?thesis by (cases e) (simp_all add: ErrorHandler_def Pair Err New_HttpError_def WriteError_calm)
  qed (use assms in \<open>simp_all add: ErrorHandler_def Pair\<close>)
qed

text \<open>
  C7. The gateway does not panic on its own: as long as the modules send data with every positive
  answer, the checks of a location that authenticates end in an answer or an error on every
  well-formed request context, whatever the request, the configuration, the clock and the failures
  of the modules; only the proxy behind them can panic.
\<close>

theorem checks_never_panic:
  assumes "answers_complete x" "calm x proxy" "wf_context (x_unicode_lower x) (g_ctx s)"
  shows "fst (ErrorHandler x (Chain proxy (access_chain x config settings @ [Metrics x])) s) \<noteq> Panic"
proof -
  have "calm x (Chain proxy (access_chain x config settings @ [Metrics x]))"
    unfolding access_chain_def append_Cons append_Nil Chain_simps by (intro checks_calm assms(1,2))
  then have "fst (Chain proxy (access_chain x config settings @ [Metrics x]) s) \<noteq> Panic"
    using assms(3) by (simp add: calm_def)
  then show ?thesis by (rule ErrorHandler_calm)
qed

theorem checks_never_panic_witness:
  "fst (ErrorHandler idle (Chain (\<lambda>s. (Ok (), s)) (access_chain idle sample_config Map.empty @ [Metrics idle]))
     (fresh_gate zero_EndpointMeta sample_request ())) \<noteq> Panic"
  by (rule checks_never_panic) (simp_all add: answers_complete_def idle_def calm_def fresh_gate_def)

end
