(* ===== verification/Gate_Lifecycle.thy ===== *)
theory Gate_Lifecycle
  imports Gate_Configuration
begin

text \<open>
  The life of the process around the handler: what \<open>Runners\<close> and \<open>Closers\<close> of
  \<open>assembly/assembly.go\<close> hand to the kit library. The addresses of a module reach the gateway
  through the upgrader registered under the module's name, so a client that is not registered, or
  whose name another registration takes, has no module behind it.
\<close>

section \<open>Runners and closers\<close>

text \<open>The clients and balancers of an \<open>Assembly\<close>, those of the locations by their module.\<close>

datatype upgrader =
    GrpcClient string
  | HostManager string
  | SystemClient
  | AdminClient
  | LockerClient
  | RouterBalancer

text \<open>
  The calls of \<open>RequireModule\<close>, in order. The two loops range over maps: \<open>grpcs\<close> and \<open>https\<close> are the
  keys in the order of the iteration.
\<close>

definition required_modules :: "string list \<Rightarrow> string list \<Rightarrow> (string \<times> upgrader) list" where
  "required_modules grpcs https =
     map (\<lambda>moduleName. (moduleName, GrpcClient moduleName)) grpcs @
     map (\<lambda>moduleName. (moduleName, HostManager moduleName)) https @
     [(''isp-system-service'', SystemClient), (''msp-admin-service'', AdminClient),
      (''isp-lock-service'', LockerClient), (routerModuleName, RouterBalancer)]"

definition usersAuthCachePurgeInterval :: duration where
  "usersAuthCachePurgeInterval = 5000000000"

datatype runner =
    ListenAndServe
  | RunCluster "(string \<times> upgrader) list"
  | CleanUsersCache duration

definition Runners :: "string list \<Rightarrow> string list \<Rightarrow> runner list" where
  "Runners grpcs https =
     [ListenAndServe, RunCluster (required_modules grpcs https), CleanUsersCache usersAuthCachePurgeInterval]"

datatype closer = CloseCluster | ShutdownServer | CloseClient upgrader

definition Closers :: "string list \<Rightarrow> closer list" where
  "Closers grpcs =
     [CloseCluster, ShutdownServer] @ map (\<lambda>moduleName. CloseClient (GrpcClient moduleName)) grpcs @
     [CloseClient SystemClient, CloseClient AdminClient, CloseClient LockerClient]"

text \<open>The keys of a map in some order.\<close>

definition ranges_over :: "string list \<Rightarrow> (string \<rightharpoonup> 'a) \<Rightarrow> bool" where
  "ranges_over ks m \<longleftrightarrow> distinct ks \<and> set ks = dom m"

text \<open>The client or balancer \<open>Handler\<close> gives the proxy of a location.\<close>

definition location_upgrader :: "Location \<Rightarrow> upgrader option" where
  "location_upgrader location =
     (if lo_Protocol location = GrpcProtocol then Some (GrpcClient (lo_TargetModule location))
      else if lo_Protocol location = HttpProtocol then
        Some (if lo_TargetModule location = routerModuleName then RouterBalancer
              else HostManager (lo_TargetModule location))
      else if lo_Protocol location = WsProtocol then Some (HostManager (lo_TargetModule location))
      else None)"

section \<open>The clients of the locations\<close>

definition targets :: "(Location \<Rightarrow> bool) \<Rightarrow> Location list \<Rightarrow> string set" where
  "targets P locations = lo_TargetModule ` {l \<in> set locations. P l}"

definition grpc_location :: "Location \<Rightarrow> bool" where
  "grpc_location l \<longleftrightarrow> lo_Protocol l = GrpcProtocol"

lemma targets_apart:
  "targets P ls \<inter> targets (\<lambda>l. \<not> P l) ls = {} \<and> (targets P ls \<union> targets (\<lambda>l. \<not> P l) ls) \<inter> F = {} \<longleftrightarrow>
     (\<forall>l \<in> set ls. lo_TargetModule l \<notin> F \<and> (\<forall>l' \<in> set ls. lo_TargetModule l' = lo_TargetModule l \<longrightarrow> (P l' \<longleftrightarrow> P l)))"
proof -
  have "targets P ls \<inter> targets (\<lambda>l. \<not> P l) ls = {} \<longleftrightarrow>
      (\<forall>l \<in> set ls. \<forall>l' \<in> set ls. lo_TargetModule l' = lo_TargetModule l \<longrightarrow> (P l' \<longleftrightarrow> P l))" (is "?apart = ?same")
  proof
    assume ?apart
    then show ?same unfolding targets_def by (metis (mono_tags, lifting) disjoint_iff image_eqI mem_Collect_eq)
  next
    assume ?same
    then show ?apart unfolding targets_def by fastforce
  qed
  moreover have "targets P ls \<union> targets (\<lambda>l. \<not> P l) ls = lo_TargetModule ` set ls"
    unfolding targets_def by auto
  moreover have "lo_TargetModule ` set ls \<inter> F = {} \<longleftrightarrow> (\<forall>l \<in> set ls. lo_TargetModule l \<notin> F)"
    by auto
  ultimately show ?thesis by (simp only:) blast
qed

lemma client_loop_dom:
  assumes "client_loop x ls cs s = (Ok cs', s')"
  shows "dom (cl_grpcClientByModuleName cs') = dom (cl_grpcClientByModuleName cs) \<union> targets grpc_location ls \<and>
    dom (cl_httpHostManagerByModuleName cs') =
      dom (cl_httpHostManagerByModuleName cs) \<union> targets (\<lambda>l. \<not> grpc_location l) ls"
  using assms
proof (induction ls arbitrary: cs s)
  case (Cons l ls)
  have t: "targets P (l # ls) = (if P l then {lo_TargetModule l} else {}) \<union> targets P ls" for P
    by (auto simp: targets_def)
  consider (grpc) s1 where "grpc_location l"
      "client_loop x ls (cs\<lparr>cl_grpcClientByModuleName :=
         (cl_grpcClientByModuleName cs)(lo_TargetModule l \<mapsto> lo_TargetModule l)\<rparr>) s1 = (Ok cs', s')"
    | (http) "\<not> grpc_location l"
      "client_loop x ls (cs\<lparr>cl_httpHostManagerByModuleName :=
         (cl_httpHostManagerByModuleName cs)(lo_TargetModule l \<mapsto> lo_TargetModule l)\<rparr>) s = (Ok cs', s')"
    using Cons.prems by (auto simp: grpc_location_def split: if_splits prod.splits option.splits)
  then show ?case
  proof cases
    case grpc
    from Cons.IH [OF grpc(2)] grpc(1) show ?thesis by (auto simp: t)
  next
    case http
    from Cons.IH [OF http(2)] http(1) show ?thesis by (auto simp: t)
  qed
qed (simp add: targets_def)

lemma New_Assembly_dom:
  assumes "New_Assembly x locations s = (Ok cs, s')"
  shows "dom (cl_grpcClientByModuleName cs) = targets grpc_location locations"
    and "dom (cl_httpHostManagerByModuleName cs) = targets (\<lambda>l. \<not> grpc_location l) locations"
    and "list_all known_protocol locations"
proof -
  obtain s1 where l: "client_loop x locations no_clients s = (Ok cs, s1)"
    using assms by (auto simp: New_Assembly_def split: prod.splits res.splits option.splits)
  from client_loop_dom [OF l] client_loop_clients [OF l]
  show "dom (cl_grpcClientByModuleName cs) = targets grpc_location locations"
    and "dom (cl_httpHostManagerByModuleName cs) = targets (\<lambda>l. \<not> grpc_location l) locations"
    and "list_all known_protocol locations"
    by (simp_all add: no_clients_def)
qed

section \<open>Properties\<close>

text \<open>
  The client of every location is registered under the module it is for. No registration takes the
  name of another exactly when no location targets one of the four modules the gateway itself
  needs and no module is the target of a gRPC location and of an HTTP or WebSocket location. At the
  end the cluster client and the server are closed first, then the gRPC client of every location
  and those of the system, admin and lock modules, each once.
\<close>

lemma clients_wired:
  assumes "New_Assembly x locations s = (Ok cs, s')"
    and "ranges_over grpcs (cl_grpcClientByModuleName cs)" "ranges_over https (cl_httpHostManagerByModuleName cs)"
  shows "(\<forall>l \<in> set locations. \<exists>u. location_upgrader l = Some u \<and> (lo_TargetModule l, u) \<in> set (required_modules grpcs https)) \<and>
    (distinct (map fst (required_modules grpcs https)) \<longleftrightarrow>
       (\<forall>l \<in> set locations.
          lo_TargetModule l \<notin> {''isp-system-service'', ''msp-admin-service'', ''isp-lock-service'', routerModuleName} \<and>
          (\<forall>l' \<in> set locations. lo_TargetModule l' = lo_TargetModule l \<longrightarrow>
             (lo_Protocol l' = GrpcProtocol \<longleftrightarrow> lo_Protocol l = GrpcProtocol)))) \<and>
    distinct (Closers grpcs) \<and> take 2 (Closers grpcs) = [CloseCluster, ShutdownServer] \<and>
    (\<forall>m. CloseClient (GrpcClient m) \<in> set (Closers grpcs) \<longleftrightarrow>
       (\<exists>l \<in> set locations. lo_Protocol l = GrpcProtocol \<and> lo_TargetModule l = m))"
proof -
  note doms = New_Assembly_dom [OF assms(1)]
  have g: "distinct grpcs" "set grpcs = targets grpc_location locations"
    and h: "distinct https" "set https = targets (\<lambda>l. \<not> grpc_location l) locations"
    using assms(2,3) doms by (simp_all add: ranges_over_def)
  have p: "GrpcProtocol \<noteq> HttpProtocol" "GrpcProtocol \<noteq> WsProtocol" "HttpProtocol \<noteq> WsProtocol"
    by (simp_all add: protocol_defs)
  have fixed: "distinct [''isp-system-service'', ''msp-admin-service'', ''isp-lock-service'', routerModuleName]"
    by (simp add: routerModuleName_def)
  have reg: "\<exists>u. location_upgrader l = Some u \<and> (lo_TargetModule l, u) \<in> set (required_modules grpcs https)"
    if l: "l \<in> set locations" for l
  proof -
    from doms(3) l consider "lo_Protocol l = GrpcProtocol" | "lo_Protocol l = HttpProtocol" | "lo_Protocol l = WsProtocol"
      by (auto simp: list_all_iff known_protocol_def)
    then show ?thesis
      using l p by cases (auto simp: location_upgrader_def required_modules_def g h targets_def grpc_location_def)
  qed
  have "map fst (required_modules grpcs https) =
      grpcs @ https @ [''isp-system-service'', ''msp-admin-service'', ''isp-lock-service'', routerModuleName]"
    by (simp add: required_modules_def comp_def)
  then have "distinct (map fst (required_modules grpcs https)) \<longleftrightarrow>
      set grpcs \<inter> set https = {} \<and>
      (set grpcs \<union> set https) \<inter> {''isp-system-service'', ''msp-admin-service'', ''isp-lock-service'', routerModuleName} = {}"
    using g(1) h(1) fixed by auto
  also have "\<dots> \<longleftrightarrow> (\<forall>l \<in> set locations.
      lo_TargetModule l \<notin> {''isp-system-service'', ''msp-admin-service'', ''isp-lock-service'', routerModuleName} \<and>
      (\<forall>l' \<in> set locations. lo_TargetModule l' = lo_TargetModule l \<longrightarrow>
         (lo_Protocol l' = GrpcProtocol \<longleftrightarrow> lo_Protocol l = GrpcProtocol)))"
    unfolding g h targets_apart unfolding grpc_location_def ..
  finally have names: "distinct (map fst (required_modules grpcs https)) \<longleftrightarrow> \<dots>" .
  have closers: "distinct (Closers grpcs)" "take 2 (Closers grpcs) = [CloseCluster, ShutdownServer]"
    using g(1) by (auto simp: Closers_def distinct_map inj_on_def)
  have "CloseClient (GrpcClient m) \<in> set (Closers grpcs) \<longleftrightarrow>
      (\<exists>l \<in> set locations. lo_Protocol l = GrpcProtocol \<and> lo_TargetModule l = m)" for m
    unfolding Closers_def by (auto simp: g targets_def grpc_location_def)
  with reg names closers show ?thesis by blast
qed

lemma clients_wired_witness:
  "location_upgrader sample_location = Some (GrpcClient ''crm'') \<and>
   (''crm'', GrpcClient ''crm'') \<in> set (required_modules [''crm''] [])"
proof -
  have "New_Assembly (idle :: unit ext) [sample_location] (fresh_gate zero_EndpointMeta sample_request ()) =
      (Ok \<lparr>cl_grpcClientByModuleName = [''crm'' \<mapsto> ''crm''], cl_httpHostManagerByModuleName = Map.empty\<rparr>,
       fresh_gate zero_EndpointMeta sample_request ())"
    by (simp add: New_Assembly_def sample_location_def GrpcProtocol_def no_clients_def in_world_def idle_def fresh_gate_def)
  from clients_wired [OF this, of "[''crm'']" "[]"] show ?thesis
    by (auto simp: ranges_over_def sample_location_def location_upgrader_def GrpcProtocol_def)
qed

end
