(* ===== verification/Gate_Process.thy ===== *)
theory Gate_Process
  imports Gate_Lifecycle
begin

text \<open>
  The process around the gateway: \<open>main.go\<close>, the reading of the local configuration in \<open>New\<close> and the
  upgrade of a remote one in \<open>ReceiveConfig\<close>. The application object of the kit library (\<open>boot.App\<close>),
  its two configuration readers and \<open>Fatal\<close> of its logger are outside the repository: the readers are
  functions of an environment, the calls of the application object are a trace, and whether \<open>Fatal\<close>
  comes back is a field of the environment, \<open>False\<close> by its documentation.
\<close>

record 'w kit =
  k_Config_Read :: "'w \<Rightarrow> (string + Location list) \<times> 'w"
  k_Upgrade :: "bytes \<Rightarrow> 'w \<Rightarrow> (string option \<times> conf_Remote) \<times> 'w"
  k_Fatal_returns :: bool

section \<open>Remote configurations as they arrive\<close>

text \<open>What is left of a process: it goes on with a result, or has ended after a fatal log entry.\<close>

datatype 'a process = Exited log_entry | Running 'a

text \<open>
  \<open>ReceiveConfig\<close> from the bytes of the configuration on. Had \<open>Fatal\<close> come back, the function would go
  on with what \<open>Upgrade\<close> has left in \<open>newCfg\<close>.
\<close>

definition receive_config ::
  "'w kit \<Rightarrow> 'w ext \<Rightarrow> Clients \<Rightarrow> Location list \<Rightarrow> go_context \<Rightarrow> bytes \<Rightarrow>
   (string \<times> 'w routed_handler) list \<times> 'w gate \<Rightarrow>
   (unit res \<times> (string \<times> 'w routed_handler) list \<times> 'w gate) process" where
  "receive_config k x cs locations ctx remoteConfig server =
     (case server of
        (mux, s) \<Rightarrow>
          (case in_world (k_Upgrade k remoteConfig) s of
             ((err, newCfg), s1) \<Rightarrow>
               (case err of
                  None \<Rightarrow> Running (ReceiveConfig x cs locations newCfg (mux, s1))
                | Some e \<Rightarrow>
                    (let msg = Error (WithMessage (ExternalError e) ''upgrade remote config'') in
                     if k_Fatal_returns k
                     then Running (ReceiveConfig x cs locations newCfg (mux, log_in ctx FatalLevel msg [] s1))
                     else Exited (LogEntry FatalLevel ctx msg [])))))"

section \<open>Start of the process\<close>

text \<open>\<open>New\<close> with the reading of the local configuration: the locations and their clients.\<close>

definition Assembly_New :: "'w kit \<Rightarrow> 'w ext \<Rightarrow> 'w gate \<Rightarrow> (Location list \<times> Clients) res \<times> 'w gate" where
  "Assembly_New k x s =
     (case in_world (k_Config_Read k) s of
        (Inl e, s1) \<Rightarrow> (Err (WithMessage (ExternalError e) ''read local config''), s1)
      | (Inr locations, s1) \<Rightarrow>
          (case New_Assembly x locations s1 of
             (Ok cs, s2) \<Rightarrow> (Ok (locations, cs), s2)
           | (Err e, s2) \<Rightarrow> (Err e, s2)
           | (Panic, s2) \<Rightarrow> (Panic, s2)))"

datatype app_call =
    AddRunners "runner list"
  | AddClosers "closer list"
  | ShutdownOn "app_call list"
  | AppRun
  | AppShutdown
  | LogInfo string
  | LogFatal go_error

datatype ending = MainReturns | MainExits | MainPanics

text \<open>
  \<open>main\<close>: how it ends and the calls it has made. \<open>order\<close> is the order in which the n-th loop over a map
  of clients meets its keys; \<open>run\<close> is the error of \<open>app.Run()\<close>, if any, and \<open>ShutdownOn\<close> holds what the
  handler of the termination signals will do. On the \<open>nil\<close> assembly of a failed \<open>New\<close>, \<open>Runners\<close> panics.
\<close>

definition main ::
  "'w kit \<Rightarrow> 'w ext \<Rightarrow> (nat \<Rightarrow> (string \<rightharpoonup> string) \<Rightarrow> string list) \<Rightarrow> ('w gate \<Rightarrow> string option) \<Rightarrow>
   'w gate \<Rightarrow> ending \<times> app_call list" where
  "main k x order run s =
     (case Assembly_New k x s of
        (Panic, s1) \<Rightarrow> (MainPanics, [])
      | (Err err, s1) \<Rightarrow> (if k_Fatal_returns k then MainPanics else MainExits, [LogFatal err])
      | (Ok (locations, cs), s1) \<Rightarrow>
          (let grpcs = cl_grpcClientByModuleName cs;
               https = cl_httpHostManagerByModuleName cs;
               calls =
                 [AddRunners (Runners (order 0 grpcs) (order 1 https)),
                  AddClosers (Closers (order 2 grpcs)),
                  ShutdownOn [LogInfo ''starting shutdown'', AppShutdown, LogInfo ''shutdown completed''],
                  AppRun]
           in case run s1 of
                None \<Rightarrow> (MainReturns, calls)
              | Some e \<Rightarrow>
                  (if k_Fatal_returns k then MainReturns else MainExits,
                   calls @ [AppShutdown, LogFatal (ExternalError e)])))"

lemma client_loop_not_Panic: "fst (client_loop x ls cs s) \<noteq> Panic"
proof (induction ls arbitrary: cs s)
  case (Cons l ls)
  then show ?case by (auto simp: split_beta split: option.splits)
qed simp

lemma New_Assembly_not_Panic: "New_Assembly x locations s \<noteq> (Panic, s')"
  using client_loop_not_Panic [of x locations no_clients s]
  by (auto simp: New_Assembly_def split: prod.splits res.splits option.splits)

section \<open>Properties\<close>

text \<open>
  C10. Applying a configuration is all or nothing, and one that cannot even be read ends the process. The
  bytes are upgraded first; when that fails the process exits with a fatal log entry. Otherwise the
  configuration is accepted exactly when its custom authentication is well-formed and every location has
  a known protocol; then the multiplexer has one route per location, in order, and the caches of
  applications and permissions are empty. If it is refused, the handler that serves and all caches
  stay as they are. In both cases the users' cache survives and the log level is the new one.
\<close>

theorem remote_configuration_outcome:
  assumes "\<not> k_Fatal_returns k" "k_Upgrade k remoteConfig (g_world s) = ((err, config), w)"
  shows "case receive_config k x cs locations ctx remoteConfig (mux, s) of
      Exited entry \<Rightarrow> \<exists>e. err = Some e \<and>
        entry = LogEntry FatalLevel ctx (Error (WithMessage (ExternalError e) ''upgrade remote config'')) []
    | Running (r, mux', s') \<Rightarrow> err = None \<and>
        (if valid_custom_auth (cr_CustomAuth config) \<and> list_all known_protocol locations
         then r = Ok () \<and> map fst mux' = map lo_PathPrefix locations \<and>
           s' = s\<lparr>g_world := w, g_log_level := cl_LogLevel (cr_Logging config),
             g_app_cache := New, g_authz_cache := New, g_admin_cache := New\<rparr>
         else (\<exists>e. r = Err e) \<and> mux' = mux \<and>
           s' = s\<lparr>g_world := w, g_log_level := cl_LogLevel (cr_Logging config)\<rparr>)"
proof (cases err)
  case (Some e)
  with assms show ?thesis by (simp add: receive_config_def in_world_def Let_def)
next
  case None
  obtain r mux' s' where r: "ReceiveConfig x cs locations config (mux, s\<lparr>g_world := w\<rparr>) = (r, mux', s')"
    by (cases "ReceiveConfig x cs locations config (mux, s\<lparr>g_world := w\<rparr>)")
  from configuration_all_or_nothing [where x = x and cs = cs and locations = locations and config = config and mux = mux
      and s = "s\<lparr>g_world := w\<rparr>"] None assms(2) show ?thesis
    by (simp add: receive_config_def in_world_def r)
qed

text \<open>
  C26. A process that starts, starts wired. Either the local configuration or a client is refused, and then
  the process exits at once with the error, having started nothing; or the server, the cluster client
  and the cleaner are run, and before that the client of every location has been registered under the
  module it is for, every gRPC client is among what is closed at the end, and the handler of the
  termination signals is in place. If running fails, everything is shut down before the process exits.
\<close>

theorem process_starts_wired:
  assumes "\<not> k_Fatal_returns k"
    and orders: "\<And>locations cs s1 i. Assembly_New k x s = (Ok (locations, cs), s1) \<Longrightarrow>
      ranges_over (order i (cl_grpcClientByModuleName cs)) (cl_grpcClientByModuleName cs) \<and>
      ranges_over (order i (cl_httpHostManagerByModuleName cs)) (cl_httpHostManagerByModuleName cs)"
  shows "(\<exists>e. fst (Assembly_New k x s) = Err e \<and> main k x order run s = (MainExits, [LogFatal e])) \<or>
    (\<exists>locations cs s1 modules closers.
       fst (k_Config_Read k (g_world s)) = Inr locations \<and> Assembly_New k x s = (Ok (locations, cs), s1) \<and>
       (\<forall>l \<in> set locations. \<exists>u. location_upgrader l = Some u \<and> (lo_TargetModule l, u) \<in> set modules \<and>
          (lo_Protocol l = GrpcProtocol \<longrightarrow> CloseClient u \<in> set closers)) \<and>
       main k x order run s =
         (case run s1 of None \<Rightarrow> MainReturns | Some e \<Rightarrow> MainExits,
          [AddRunners [ListenAndServe, RunCluster modules, CleanUsersCache usersAuthCachePurgeInterval],
           AddClosers closers,
           ShutdownOn [LogInfo ''starting shutdown'', AppShutdown, LogInfo ''shutdown completed''],
           AppRun] @
          (case run s1 of None \<Rightarrow> [] | Some e \<Rightarrow> [AppShutdown, LogFatal (ExternalError e)])))"
proof -
  obtain r s1 where r: "Assembly_New k x s = (r, s1)" by fastforce
  show ?thesis
  proof (cases r)
    case (Err e)
    with r assms(1) show ?thesis by (simp add: main_def)
  next
    case Panic
    with r New_Assembly_not_Panic show ?thesis
      by (auto simp: Assembly_New_def split: prod.splits sum.splits res.splits)
  next
    case (Ok p)
    obtain locations cs where p: "p = (locations, cs)" by fastforce
    obtain w where w: "k_Config_Read k (g_world s) = (Inr locations, w)"
      and new: "New_Assembly x locations (s\<lparr>g_world := w\<rparr>) = (Ok cs, s1)"
      using r Ok p by (auto simp: Assembly_New_def in_world_def split: prod.splits sum.splits res.splits)
    have os: "ranges_over (order i (cl_grpcClientByModuleName cs)) (cl_grpcClientByModuleName cs)"
      "ranges_over (order i (cl_httpHostManagerByModuleName cs)) (cl_httpHostManagerByModuleName cs)" for i
      using orders [of locations cs s1 i] r Ok p by simp_all
    let ?modules = "required_modules (order 0 (cl_grpcClientByModuleName cs)) (order 1 (cl_httpHostManagerByModuleName cs))"
    let ?closers = "Closers (order 2 (cl_grpcClientByModuleName cs))"
    have wired: "\<forall>l \<in> set locations. \<exists>u. location_upgrader l = Some u \<and> (lo_TargetModule l, u) \<in> set ?modules"
      using clients_wired [OF new os(1) [of 0] os(2) [of 1]] by blast
    have closed: "CloseClient u \<in> set ?closers"
      if "l \<in> set locations" "lo_Protocol l = GrpcProtocol" "location_upgrader l = Some u" for l u
      using clients_wired [OF new os(1) [of 2] os(2) [of 1]] that unfolding location_upgrader_def by auto
    show ?thesis
      using wired closed assms(1)
      by (intro disjI2 exI [of _ locations] exI [of _ cs] exI [of _ s1] exI [of _ ?modules] exI [of _ ?closers])
         (auto simp: w r Ok p main_def Let_def Runners_def split: option.splits)
  qed
qed

section \<open>Witnesses\<close>

text \<open>A kit with one location in the local configuration; a remote configuration is read if it is not empty.\<close>

definition sample_kit :: "unit kit" where
  "sample_kit =
     \<lparr>k_Config_Read = (\<lambda>w. (Inr [sample_location], w)),
      k_Upgrade = (\<lambda>b w. ((if b = [] then Some ''unexpected end of JSON input'' else None, sample_config), w)),
      k_Fatal_returns = False\<rparr>"

text \<open>The keys of the maps of that gateway.\<close>

definition sample_order :: "nat \<Rightarrow> (string \<rightharpoonup> string) \<Rightarrow> string list" where
  "sample_order i m = (if m ''crm'' = None then [] else [''crm''])"

theorem remote_configuration_outcome_witness:
  "case receive_config sample_kit idle no_clients [sample_location] [] [1] ([], fresh_gate zero_EndpointMeta sample_request ()) of
     Exited entry \<Rightarrow> False
   | Running (r, mux', s') \<Rightarrow> r = Ok () \<and> map fst mux' = [''/api''] \<and> g_log_level s' = ''debug''"
proof -
  have "\<not> k_Fatal_returns sample_kit" "k_Upgrade sample_kit [1] (g_world (fresh_gate zero_EndpointMeta sample_request ())) =
      ((None, sample_config), ())"
    by (simp_all add: sample_kit_def)
  from remote_configuration_outcome [OF this, where x = idle and cs = no_clients and locations = "[sample_location]"
      and ctx = "[]" and mux = "[]"]
  have "case receive_config sample_kit idle no_clients [sample_location] [] [1] ([], fresh_gate zero_EndpointMeta sample_request ()) of
      Exited entry \<Rightarrow> False
    | Running (r, mux', s') \<Rightarrow>
        r = Ok () \<and> map fst mux' = map lo_PathPrefix [sample_location] \<and> g_log_level s' = cl_LogLevel (cr_Logging sample_config)"
    by (auto simp: valid_custom_auth_def sample_config_def known_protocol_def sample_location_def GrpcProtocol_def split: process.splits)
  then show ?thesis by (auto simp: sample_location_def sample_config_def split: process.splits)
qed

theorem process_starts_wired_witness:
  "\<exists>modules closers. (''crm'', GrpcClient ''crm'') \<in> set modules \<and> CloseClient (GrpcClient ''crm'') \<in> set closers \<and>
     main sample_kit idle sample_order (\<lambda>s. Some ''address in use'') (fresh_gate zero_EndpointMeta sample_request ()) =
       (MainExits,
        [AddRunners [ListenAndServe, RunCluster modules, CleanUsersCache usersAuthCachePurgeInterval],
         AddClosers closers,
         ShutdownOn [LogInfo ''starting shutdown'', AppShutdown, LogInfo ''shutdown completed''],
         AppRun, AppShutdown, LogFatal (ExternalError ''address in use'')])"
proof -
  let ?s = "fresh_gate zero_EndpointMeta sample_request () :: unit gate"
  have new: "Assembly_New sample_kit idle ?s =
      (Ok ([sample_location], \<lparr>cl_grpcClientByModuleName = [''crm'' \<mapsto> ''crm''], cl_httpHostManagerByModuleName = Map.empty\<rparr>), ?s)"
    by (simp add: Assembly_New_def sample_kit_def New_Assembly_def sample_location_def GrpcProtocol_def no_clients_def
        in_world_def idle_def fresh_gate_def)
  have "\<not> k_Fatal_returns sample_kit" by (simp add: sample_kit_def)
  from process_starts_wired [OF this, of idle ?s sample_order "\<lambda>s. Some ''address in use''"]
  show ?thesis
    by (auto simp: new ranges_over_def sample_order_def sample_location_def location_upgrader_def GrpcProtocol_def split: if_splits)
qed

end
