(* ===== verification/Gate_Settings.thy ===== *)
theory Gate_Settings
  imports Gate_Configuration
begin

text \<open>
  What the numbers of a remote configuration mean. Seconds become durations and megabytes become bytes by
  64-bit products that wrap; the theorems say for how long a permission really lasts and which bodies
  really pass, for every setting, and from where on the setting no longer means what it says.
\<close>

section \<open>Products that wrap\<close>

definition wrapped64 :: "int \<Rightarrow> int" where
  "wrapped64 k = (k + 2 ^ 63) mod 2 ^ 64 - 2 ^ 63"

lemma wrapped64_exact: "- (2 ^ 63) \<le> k \<Longrightarrow> k < 2 ^ 63 \<Longrightarrow> wrapped64 k = k"
  by (simp add: wrapped64_def)

lemma signed_take_bit_wrapped: "signed_take_bit 63 k = wrapped64 k"
  by (simp add: wrapped64_def signed_take_bit_eq_take_bit_shift take_bit_eq_mod)

lemma sint_seconds_wrapped: "sint (seconds n) = wrapped64 (sint n * 1000000000)"
proof -
  have "sint (seconds n) = signed_take_bit 63 (sint n * sint second)"
    by (simp add: seconds_def sint_word_ariths)
  then show ?thesis by (simp add: signed_take_bit_wrapped second_def)
qed

lemma sint_max_body_size: "sint (max_body_size config) = wrapped64 (sint (ch_MaxRequestBodySizeInMb (cr_Http config)) * 2 ^ 20)"
proof -
  let ?m = "ch_MaxRequestBodySizeInMb (cr_Http config)"
  have "max_body_size config = ?m * 1048576" by (simp add: max_body_size_def)
  then have "sint (max_body_size config) = signed_take_bit 63 (sint ?m * sint (1048576 :: go_int64))"
    by (simp add: sint_word_ariths)
  then show ?thesis by (simp add: signed_take_bit_wrapped)
qed

section \<open>Properties\<close>

text \<open>
  C33. How long a permission outlives its revocation: once the system module has granted an application a
  method and path, the gateway answers \<open>true\<close> without asking again for exactly the configured number of
  seconds, the last nanosecond included, and then asks again and says what the module says. The
  number counts as it stands up to 9223372036 seconds; of a larger one the product wraps, and a
  negative lifetime means that every request asks.
\<close>

theorem permission_lifetime:
  assumes miss: "ca_store (g_authz_cache s) (AuthorizationCache_key i (m @ '' '' @ e)) = None"
    and answer: "System_Authorize x \<lparr>ez_ApplicationId = i, ez_HttpMethod = m, ez_Endpoint = e\<rparr> s = (Ok True, s1)"
    and granted: "x_Now x (g_world s1) = (t0, w1)"
    and first: "app_authorizer x config i m e s = (q, s2)"
    and later: "g_authz_cache s3 = g_authz_cache s2" "x_Now x (g_world s3) = (t, w3)"
    and lifetime: "lifetime = wrapped64 (sint (cc_AuthorizationDataInSec (cr_Caching config)) * 1000000000)"
  shows "q = Ok True \<and>
    (if t \<le> t0 + lifetime
     then app_authorizer x config i m e s3 = (Ok True, s3\<lparr>g_world := w3\<rparr>)
     else fst (app_authorizer x config i m e s3) = with_message ''authz repo authorize''
       (fst (System_Authorize x \<lparr>ez_ApplicationId = i, ez_HttpMethod = m, ez_Endpoint = e\<rparr> (s3\<lparr>g_world := w3\<rparr>)))) \<and>
    (\<bar>sint (cc_AuthorizationDataInSec (cr_Caching config))\<bar> \<le> 9223372036 \<longrightarrow>
       lifetime = sint (cc_AuthorizationDataInSec (cr_Caching config)) * 1000000000)"
proof -
  let ?key = "AuthorizationCache_key i (m @ '' '' @ e)"
  let ?d = "seconds (cc_AuthorizationDataInSec (cr_Caching config))"
  have get: "AuthorizationCache_Get x g_authz_cache i (m @ '' '' @ e) s = (Ok False, s)"
    using miss by (simp add: AuthorizationCache_Get_def cached_def)
  have q: "q = Ok True" and s2: "s2 = store x g_authz_cache_update ?key None ?d s1"
    using first answer miss get
    by (simp_all add: app_authorizer_def Authorization_Authorize_def Let_def AuthorizationCache_SetAuthorized_def cached_def)
  have "ca_store (g_authz_cache s3) ?key = Some \<lparr>it_data = None, it_expired_at = t0 + lifetime\<rparr>"
    using granted by (simp add: later(1) s2 store_eq Set_def Add_def sint_seconds_wrapped lifetime)
  then have "AuthorizationCache_Get x g_authz_cache i (m @ '' '' @ e) s3 = (Ok (t \<le> t0 + lifetime), s3\<lparr>g_world := w3\<rparr>)"
    using later(2) by (simp add: AuthorizationCache_Get_def cached_def now_def in_world_def Get_def After_def)
  then have "if t \<le> t0 + lifetime
     then app_authorizer x config i m e s3 = (Ok True, s3\<lparr>g_world := w3\<rparr>)
     else fst (app_authorizer x config i m e s3) = with_message ''authz repo authorize''
       (fst (System_Authorize x \<lparr>ez_ApplicationId = i, ez_HttpMethod = m, ez_Endpoint = e\<rparr> (s3\<lparr>g_world := w3\<rparr>)))"
    by (auto simp: app_authorizer_def Authorization_Authorize_def Let_def AuthorizationCache_SetAuthorized_def with_message_def
        split: prod.splits res.splits)
  with q show ?thesis unfolding lifetime by (auto intro!: wrapped64_exact)
qed

text \<open>
  C40. Which bodies pass: of a request to a gRPC location the module is sent the whole body, as if there were
  no limit, when it is at most the configured number of megabytes long, and is not called at all when
  it is longer. The number counts as it stands below \<open>2 ^ 43\<close>; a negative limit lets the empty body
  through only.
\<close>

theorem body_limit:
  assumes "rq_Body (rc_request (g_ctx s)) = MaxBytesReader b (max_body_size config)" "bo_limit b = None"
    and limit: "limit = wrapped64 (sint (ch_MaxRequestBodySizeInMb (cr_Http config)) * 2 ^ 20)"
  shows "(if int (length (bo_data b)) \<le> max 0 limit
     then Grpc_Handle x cli skipAuth timeout s = Grpc_Handle x cli skipAuth timeout (on_ctx (set_body b) s)
     else Grpc_Handle x cli skipAuth timeout s =
       (Err (WithMessage (ExternalError ''http: request body too large'') ''grpc: read body''), on_ctx consume_body s)) \<and>
    (\<bar>sint (ch_MaxRequestBodySizeInMb (cr_Http config))\<bar> < 2 ^ 43 \<longrightarrow>
       limit = sint (ch_MaxRequestBodySizeInMb (cr_Http config)) * 2 ^ 20)"
proof -
  have lim: "bo_limit (rq_Body (rc_request (g_ctx s))) = Some (nat limit)" "bo_data (rq_Body (rc_request (g_ctx s))) = bo_data b"
    by (simp_all add: assms(1) MaxBytesReader_def sint_max_body_size limit)
  have "if int (length (bo_data b)) \<le> max 0 limit
     then Grpc_Handle x cli skipAuth timeout s = Grpc_Handle x cli skipAuth timeout (on_ctx (set_body b) s)
     else Grpc_Handle x cli skipAuth timeout s =
       (Err (WithMessage (ExternalError ''http: request body too large'') ''grpc: read body''), on_ctx consume_body s)"
  proof (cases "int (length (bo_data b)) \<le> max 0 limit")
    case True
    have "on_ctx consume_body s = on_ctx consume_body (on_ctx (set_body b) s)"
      using assms(1,2) by (simp add: consume_body_def set_body_def consumed_def MaxBytesReader_def)
    moreover have "ReadAll (rq_Body (rc_request (g_ctx s))) = ReadAll b"
      using True assms(2)
      by (auto simp: assms(1) ReadAll_def MaxBytesReader_def sint_max_body_size limit split: option.split)
    ultimately show ?thesis using True by (simp add: Grpc_Handle_def Let_def set_body_def)
  next
    case False
    then have "ReadAll (rq_Body (rc_request (g_ctx s))) = Inl ''http: request body too large''"
      using lim by (auto simp: ReadAll_def)
    with False show ?thesis by (simp add: Grpc_Handle_def Let_def)
  qed
  then show ?thesis unfolding limit by (auto intro!: wrapped64_exact)
qed

section \<open>Witnesses\<close>

text \<open>Five seconds are five seconds; 9223372037 seconds are over before they begin, so the module is asked again.\<close>

definition long_config :: conf_Remote where
  "long_config = sample_config\<lparr>cr_Caching := \<lparr>cc_AuthenticationDataInSec = 5, cc_AuthorizationDataInSec = 9223372037\<rparr>\<rparr>"

theorem permission_lifetime_witness:
  "(let s = snd (app_authorizer sample_ext sample_config 7 ''GET'' ''/x'' (fresh_gate zero_EndpointMeta sample_request ()))
    in app_authorizer sample_ext sample_config 7 ''GET'' ''/x'' s = (Ok True, s)) \<and>
   (let s = snd (app_authorizer sample_ext long_config 7 ''GET'' ''/x'' (fresh_gate zero_EndpointMeta sample_request ()))
    in fst (app_authorizer sample_ext long_config 7 ''GET'' ''/x'' s) = with_message ''authz repo authorize''
      (fst (System_Authorize sample_ext \<lparr>ez_ApplicationId = 7, ez_HttpMethod = ''GET'', ez_Endpoint = ''/x''\<rparr> s)))"
proof -
  let ?s = "fresh_gate zero_EndpointMeta sample_request () :: unit gate"
  have ask: "System_Authorize sample_ext \<lparr>ez_ApplicationId = 7, ez_HttpMethod = ''GET'', ez_Endpoint = ''/x''\<rparr> ?s = (Ok True, ?s)"
    by (simp add: System_Authorize_def sample_ext_def idle_def in_world_def fresh_gate_def)
  have miss: "ca_store (g_authz_cache ?s) k = None" for k by (simp add: fresh_gate_def New_def)
  have clock: "x_Now sample_ext w = (0, w)" for w by (simp add: sample_ext_def idle_def)
  note holds = permission_lifetime [OF miss ask clock surjective_pairing refl clock refl]
  have "sint (cc_AuthorizationDataInSec (cr_Caching sample_config)) = 5"
    "sint (cc_AuthorizationDataInSec (cr_Caching long_config)) = 9223372037"
    by (simp_all add: sample_config_def long_config_def)
  moreover have unit: "v\<lparr>g_world := ()\<rparr> = v" for v :: "unit gate" by (cases v) simp
  ultimately show ?thesis using holds [of sample_config] holds [of long_config] by (simp add: wrapped64_def Let_def unit)
qed

theorem body_limit_witness:
  "Grpc_Handle (idle :: unit ext) (Some ''crm'') True 0
     (fresh_gate zero_EndpointMeta (sample_request\<lparr>rq_Body := MaxBytesReader (NewBuffer [1, 2]) (max_body_size sample_config)\<rparr>) ()) =
   Grpc_Handle idle (Some ''crm'') True 0
     (on_ctx (set_body (NewBuffer [1, 2]))
        (fresh_gate zero_EndpointMeta (sample_request\<lparr>rq_Body := MaxBytesReader (NewBuffer [1, 2]) (max_body_size sample_config)\<rparr>) ()))"
proof -
  let ?s = "fresh_gate zero_EndpointMeta (sample_request\<lparr>rq_Body := MaxBytesReader (NewBuffer [1, 2]) (max_body_size sample_config)\<rparr>) () :: unit gate"
  have "rq_Body (rc_request (g_ctx ?s)) = MaxBytesReader (NewBuffer [1, 2]) (max_body_size sample_config)" "bo_limit (NewBuffer [1, 2]) = None"
    by (simp_all add: fresh_gate_def NewContext_def NewBuffer_def)
  from body_limit [OF this refl, of idle "Some ''crm''" True 0] show ?thesis
    by (simp add: sample_config_def wrapped64_def NewBuffer_def split: if_splits)
qed

end
