(* ===== verification/Redis_Caches.thy ===== *)
theory Redis_Caches
  imports Gate_Services
begin

text \<open>
  \<open>repository/unused/*.go\<close>: the caches of applications and permissions kept in a Redis server. The
  gateway does not use them at this commit, but they are written against the interfaces of the
  services, and the theorem at the end says that they may take the place of the caches in memory:
  they are providers of the same contracts, whatever calls of the server fail.
\<close>

section \<open>The client\<close>

text \<open>
  The commands the caches queue, and what a pipeline gives: the first error of a command, and for
  each command its own error and, for \<open>GET\<close>, the value. The client is a parameter. A Go string is a
  sequence of bytes, so a stored value is \<open>bytes\<close> here.
\<close>

datatype redis_command = SELECT go_int | GET string | SETEX string bytes duration

datatype redis_error = RedisNil | RedisFailure string

primrec redis_error_value :: "redis_error \<Rightarrow> go_error" where
  "redis_error_value RedisNil = ExternalError ''redis: nil''"
| "redis_error_value (RedisFailure e) = ExternalError e"

type_synonym 's redis_client =
  "redis_command list \<Rightarrow> 's \<Rightarrow> (redis_error option \<times> (redis_error option \<times> bytes) list) \<times> 's"

section \<open>The cache of applications\<close>

text \<open>\<open>results[1]\<close> panics when the pipeline gives fewer than two results.\<close>

definition RedisAuthCache_Get ::
  "'w ext \<Rightarrow> 's redis_client \<Rightarrow> go_int \<Rightarrow> string \<Rightarrow> 's \<Rightarrow> entity_AppAuthData res \<times> 's" where
  "RedisAuthCache_Get x cli db token s =
     (case cli [SELECT db, GET token] s of
        ((Some (RedisFailure e), results), s1) \<Rightarrow> (Err (WithMessage (ExternalError e) ''pipelined''), s1)
      | ((_, results), s1) \<Rightarrow>
          (if length results < 2 then (Panic, s1)
           else
             (case results ! 1 of
                (Some RedisNil, data) \<Rightarrow> (Err ErrAuthenticationCacheMiss, s1)
              | (Some (RedisFailure e), data) \<Rightarrow> (Err (WithMessage (ExternalError e) ''get''), s1)
              | (None, data) \<Rightarrow>
                  (with_message ''json unmarshal auth data'' (of_external (x_unmarshal_app x (Some data))), s1))))"

definition RedisAuthCache_Set ::
  "'w ext \<Rightarrow> 's redis_client \<Rightarrow> duration \<Rightarrow> go_int \<Rightarrow> string \<Rightarrow> entity_AppAuthData \<Rightarrow> 's \<Rightarrow> unit res \<times> 's" where
  "RedisAuthCache_Set x cli duration db token data s =
     (case x_marshal_app x data of
        Inl e \<Rightarrow> (Err (WithMessage (ExternalError e) ''json marshal auth data''), s)
      | Inr value \<Rightarrow>
          (case cli [SELECT db, SETEX token value duration] s of
             ((Some e, results), s1) \<Rightarrow> (Err (WithMessage (redis_error_value e) ''pipelined''), s1)
           | ((None, results), s1) \<Rightarrow>
               (if length results < 2 then (Panic, s1)
                else
                  (case fst (results ! 1) of
                     Some e \<Rightarrow> (Err (WithMessage (redis_error_value e) ''set ex''), s1)
                   | None \<Rightarrow> (Ok (), s1)))))"

section \<open>The cache of permissions\<close>

definition RedisAuthzCache_key :: "go_int \<Rightarrow> string \<Rightarrow> string" where
  "RedisAuthzCache_key applicationId endpoint = fmt_d applicationId @ '':'' @ endpoint"

definition RedisAuthzCache_Get ::
  "'s redis_client \<Rightarrow> go_int \<Rightarrow> go_int \<Rightarrow> string \<Rightarrow> 's \<Rightarrow> bool res \<times> 's" where
  "RedisAuthzCache_Get cli db applicationId endpoint s =
     (case cli [SELECT db, GET (RedisAuthzCache_key applicationId endpoint)] s of
        ((Some (RedisFailure e), results), s1) \<Rightarrow> (Err (WithMessage (ExternalError e) ''pipelined''), s1)
      | ((_, results), s1) \<Rightarrow>
          (if length results < 2 then (Panic, s1)
           else
             (case fst (results ! 1) of
                Some RedisNil \<Rightarrow> (Ok False, s1)
              | Some (RedisFailure e) \<Rightarrow> (Err (WithMessage (ExternalError e) ''get''), s1)
              | None \<Rightarrow> (Ok True, s1))))"

definition RedisAuthzCache_SetAuthorized ::
  "'s redis_client \<Rightarrow> duration \<Rightarrow> go_int \<Rightarrow> go_int \<Rightarrow> string \<Rightarrow> 's \<Rightarrow> unit res \<times> 's" where
  "RedisAuthzCache_SetAuthorized cli duration db applicationId endpoint s =
     (case cli [SELECT db, SETEX (RedisAuthzCache_key applicationId endpoint) (bytes_of_string ''authorized'') duration] s of
        ((Some e, results), s1) \<Rightarrow> (Err (WithMessage (redis_error_value e) ''pipelined''), s1)
      | ((None, results), s1) \<Rightarrow>
          (if length results < 2 then (Panic, s1)
           else
             (case fst (results ! 1) of
                Some e \<Rightarrow> (Err (WithMessage (redis_error_value e) ''set ex''), s1)
              | None \<Rightarrow> (Ok (), s1))))"

section \<open>The contracts of the services\<close>

text \<open>
  What the server and its client document, with \<open>written s db key\<close> the value last written there,
  expired or not. A pipeline gives one result per command. \<open>GET\<close> writes nothing, and what it gives
  after a \<open>SELECT\<close> that did not fail is the value last written; it may give nothing or fail at any
  time. \<open>SETEX\<close> writes its value under its key, or nothing; when the \<open>SELECT\<close> before it failed, it
  may have written into another database.
\<close>

definition redis_server :: "'s redis_client \<Rightarrow> ('s \<Rightarrow> go_int \<Rightarrow> string \<Rightarrow> bytes option) \<Rightarrow> bool" where
  "redis_server cli written \<longleftrightarrow>
     (\<forall>db key s err results s1. cli [SELECT db, GET key] s = ((err, results), s1) \<longrightarrow>
        length results = 2 \<and> written s1 = written s \<and>
        (\<forall>data. (\<nexists>e. err = Some (RedisFailure e)) \<longrightarrow> results ! 1 = (None, data) \<longrightarrow> written s db key = Some data)) \<and>
     (\<forall>db key v d s err results s1. cli [SELECT db, SETEX key v d] s = ((err, results), s1) \<longrightarrow>
        length results = 2 \<and>
        (\<forall>db' key' v'. written s1 db' key' = Some v' \<longrightarrow> written s db' key' = Some v' \<or> key' = key \<and> v' = v))"

definition redis_app_holds ::
  "'w ext \<Rightarrow> ('s \<Rightarrow> go_int \<Rightarrow> string \<Rightarrow> bytes option) \<Rightarrow> go_int \<Rightarrow> 's \<Rightarrow> string \<Rightarrow> entity_AppAuthData \<Rightarrow> bool" where
  "redis_app_holds x written db s token d \<longleftrightarrow>
     (\<exists>v. written s db token = Some v \<and> x_unmarshal_app x (Some v) = Inr d)"

definition redis_permission_held ::
  "('s \<Rightarrow> go_int \<Rightarrow> string \<Rightarrow> bytes option) \<Rightarrow> go_int \<Rightarrow> 's \<Rightarrow> go_int \<Rightarrow> string \<Rightarrow> bool" where
  "redis_permission_held written db s i e \<longleftrightarrow> written s db (RedisAuthzCache_key i e) \<noteq> None"

lemma RedisAuthzCache_key_inject [simp]:
  "RedisAuthzCache_key i e = RedisAuthzCache_key i' e' \<longleftrightarrow> i = i' \<and> e = e'"
  by (simp add: RedisAuthzCache_key_def separated_inject)

lemma redis_get:
  assumes "redis_server cli written" "cli [SELECT db, GET key] s = ((err, results), s1)"
  shows "length results = 2" "written s1 = written s"
    "(\<nexists>e. err = Some (RedisFailure e)) \<Longrightarrow> fst (results ! 1) = None \<Longrightarrow>
       written s db key = Some (snd (results ! 1))"
  using assms unfolding redis_server_def by (blast, blast, metis prod.collapse)

lemma redis_set:
  assumes "redis_server cli written" "cli [SELECT db, SETEX key v d] s = ((err, results), s1)"
  shows "length results = 2"
    "written s1 db' key' = Some v' \<Longrightarrow> written s db' key' = Some v' \<or> key' = key \<and> v' = v"
  using assms unfolding redis_server_def by blast+

lemma redis_app_cache:
  assumes "redis_server cli written"
  shows "decoding_cache (RedisAuthCache_Get x cli db) (RedisAuthCache_Set x cli duration db)
    (redis_app_holds x written db) (=) (app_codes x)"
proof (unfold_locales, goal_cases)
  case (1 k s d)
  then show ?case
    using redis_get [OF assms]
    by (auto simp: RedisAuthCache_Get_def redis_app_holds_def
        split: prod.splits option.splits redis_error.splits if_splits)
next
  case (2 k s k' d')
  then show ?case
    using redis_get(2) [OF assms]
    by (auto simp: RedisAuthCache_Get_def redis_app_holds_def
        split: prod.splits option.splits redis_error.splits)
next
  case (3 k d s k' d')
  then show ?case
    using redis_set(2) [OF assms]
    by (fastforce simp: RedisAuthCache_Set_def redis_app_holds_def app_codes_def
        split: prod.splits option.splits sum.splits if_splits)
next
  case (4 k s)
  then show ?case
    using redis_get(1) [OF assms]
    by (auto simp: RedisAuthCache_Get_def split: prod.splits option.splits redis_error.splits)
next
  case (5 k d s)
  then show ?case
    using redis_set(1) [OF assms]
    by (auto simp: RedisAuthCache_Set_def split: prod.splits option.splits sum.splits)
qed

lemma redis_permission_cache:
  assumes "redis_server cli written"
  shows "permission_cache (RedisAuthzCache_Get cli db) (RedisAuthzCache_SetAuthorized cli duration db)
    (redis_permission_held written db)"
proof (unfold_locales, goal_cases)
  case (1 i e s)
  then show ?case
    using redis_get [OF assms]
    by (auto simp: RedisAuthzCache_Get_def redis_permission_held_def
        split: prod.splits option.splits redis_error.splits if_splits)
next
  case (2 i e s i' e')
  then show ?case
    using redis_get(2) [OF assms]
    by (auto simp: RedisAuthzCache_Get_def redis_permission_held_def
        split: prod.splits option.splits redis_error.splits)
next
  case (3 i e s i' e')
  then show ?case
    using redis_set(2) [OF assms]
    by (fastforce simp: RedisAuthzCache_SetAuthorized_def redis_permission_held_def
        split: prod.splits option.splits if_splits)
next
  case (4 i e s)
  then show ?case
    using redis_get(1) [OF assms]
    by (auto simp: RedisAuthzCache_Get_def split: prod.splits option.splits redis_error.splits)
next
  case (5 i e s)
  then show ?case
    using redis_set(1) [OF assms]
    by (auto simp: RedisAuthzCache_SetAuthorized_def split: prod.splits option.splits)
qed

text \<open>
  C32. The Redis caches may take the place of the caches in memory: with any server that does what its
  commands document, they meet the contracts the services rely on. They answer only what was
  stored under that very token or application and endpoint, storing adds nothing else, and no
  failure of the server makes them panic.
\<close>

theorem redis_caches_fit:
  assumes "redis_server cli written"
  shows "decoding_cache (RedisAuthCache_Get x cli db) (RedisAuthCache_Set x cli duration db)
      (redis_app_holds x written db) (=) (app_codes x) \<and>
    permission_cache (RedisAuthzCache_Get cli db) (RedisAuthzCache_SetAuthorized cli duration db)
      (redis_permission_held written db)"
  using redis_app_cache [OF assms] redis_permission_cache [OF assms] by blast

text \<open>So the origin of a permission is the same with a Redis cache in front of the system module.\<close>

lemma redis_authorized_origin:
  assumes "redis_server cli written"
    and "\<And>q s. written (snd (repo q s)) = written s"
    and "fst (Authorization_Authorize (RedisAuthzCache_Get cli db) (RedisAuthzCache_SetAuthorized cli duration db)
      repo i m e s) = Ok True"
  shows "redis_permission_held written db s i (m @ '' '' @ e) \<or>
    fst (repo \<lparr>ez_ApplicationId = i, ez_HttpMethod = m, ez_Endpoint = e\<rparr>
      (snd (RedisAuthzCache_Get cli db i (m @ '' '' @ e) s))) = Ok True"
  using authorization_service.authorized_origin
    [where repo = repo, OF authorization_service.intro [OF redis_permission_cache [OF assms(1)]]] assms(2,3)
  by (auto simp: authorization_service_axioms_def redis_permission_held_def)

section \<open>Witness\<close>

text \<open>A server that keeps what it is given for ever, with the databases as maps.\<close>

fun keep_forever :: "(go_int \<Rightarrow> string \<Rightarrow> bytes option) redis_client" where
  "keep_forever [SELECT db, GET key] s =
     (case s db key of
        None \<Rightarrow> ((Some RedisNil, [(None, []), (Some RedisNil, [])]), s)
      | Some v \<Rightarrow> ((None, [(None, []), (None, v)]), s))"
| "keep_forever [SELECT db, SETEX key v d] s =
     ((None, [(None, []), (None, [])]), s(db := (s db)(key \<mapsto> v)))"
| "keep_forever _ s = ((Some (RedisFailure ''unknown command''), []), s)"

lemma keep_forever_server: "redis_server keep_forever (\<lambda>s. s)"
  by (auto simp: redis_server_def split: option.splits if_splits)

theorem redis_caches_fit_witness:
  "decoding_cache (RedisAuthCache_Get sample_ext keep_forever 1) (RedisAuthCache_Set sample_ext keep_forever 5 1)
     (redis_app_holds sample_ext (\<lambda>s. s) 1) (=) (app_codes sample_ext) \<and>
   permission_cache (RedisAuthzCache_Get keep_forever 1) (RedisAuthzCache_SetAuthorized keep_forever 5 1)
     (redis_permission_held (\<lambda>s. s) 1)"
  by (rule redis_caches_fit [OF keep_forever_server])

end
