(* ===== verification/Spec2Isabelle.thy ===== *)
theory Spec2Isabelle
  imports Requests_Alone Gate_Panics Gate_Process Gate_Settings Redis_Caches
begin

text \<open>
  Verification library of isp-gate-service, an API gateway. Every request that reaches it belongs
  to a location (a path prefix of the local configuration); the location decides whether callers
  have to identify themselves, and which module of the cluster the request is passed to, over
  gRPC, HTTP or WebSocket. Who the caller is and what it may do is known by other modules; the
  gateway asks them and keeps their positive answers in caches.

  \<^bold>\<open>The program and the theories.\<close> The theories follow the packages, in the order in which the
  code depends on them.

  \<^item> \<open>Gate_Prelude\<close>: machine types (an \<open>int\<close>, \<open>int64\<close> or \<open>time.Duration\<close> is a 64-bit word), the used
    part of \<open>strings\<close> and \<open>fmt\<close>, the hint collections.
  \<^item> \<open>Gate_Errors\<close>: \<open>httperrors/errors.go\<close> and the sentinels of \<open>domain/errors.go\<close>, \<open>domain/cache.go\<close>
    and \<open>request/context.go\<close>. A call that returns a value and an error is a \<open>res\<close>: \<open>Ok\<close>, \<open>Err\<close> or
    \<open>Panic\<close>; every nil dereference and out-of-range index of the source is a branch that gives \<open>Panic\<close>.
  \<^item> \<open>Gate_Domain\<close>: the structs of \<open>entity\<close>, \<open>domain\<close> and \<open>conf\<close> as records.
  \<^item> \<open>Net_Http\<close>: headers with canonical keys, requests, the response writer, cookies, basic
    authorization and base64 of Go's standard library.
  \<^item> \<open>Request_Context\<close>: \<open>request/context.go\<close>, with \<open>wf_context\<close>, the invariant that every context made
    by \<open>NewContext\<close> keeps.
  \<^item> \<open>Unicode_Unescape\<close>: \<open>helpers/unicode.go\<close>; \<open>unescape_loop\<close> is the loop over the two indexes and
    the preallocated buffer, \<open>unescape_spec\<close> the reference decoder.
  \<^item> \<open>Gate_Cache\<close>: \<open>cache/cache.go\<close>, with the locale \<open>expiring_cache\<close> and its interpretation \<open>mem\<close>.
  \<^item> \<open>Gate_World\<close>: \<open>'w gate\<close>, the state a handler runs in (context, response writer, caches, log,
    metrics, outside world), and \<open>'w ext\<close>, the code outside the repository. \<open>Sample_World\<close>: a
    concrete environment for the examples.
  \<^item> \<open>Service_Interfaces\<close>: the contracts \<open>decoding_cache\<close>, \<open>permission_cache\<close> and \<open>access_middleware\<close>.
  \<^item> \<open>Gate_Repository\<close>: \<open>repository/*.go\<close>, the calls of the modules and the caches of the services,
    which are interpretations of the contracts. \<open>Redis_Caches\<close>: \<open>repository/unused/*.go\<close>.
  \<^item> \<open>Gate_Services\<close>, \<open>User_Authentication\<close>, \<open>Rate_Limits\<close>: \<open>service/*.go\<close> and
    \<open>service/token_provider/*.go\<close>. A service takes the operations of its cache and its repository as
    arguments, as the Go interfaces do; the locales \<open>authentication_service\<close>,
    \<open>authorization_service\<close>, \<open>admin_service\<close> and \<open>user_authentication_service\<close> derive from the cache
    contracts where an answer can come from, and are interpreted on the caches of \<open>Gate_Repository\<close>.
  \<^item> \<open>Gate_Middleware\<close>, \<open>Gate_Logger\<close>: \<open>middleware/*.go\<close>. A middleware maps the handler behind it to a
    handler. Each access middleware is an interpretation of \<open>access_middleware\<close>: it passes a request
    on once, in a state its \<open>..._admits\<close> relation describes, or refuses it whatever is behind it.
  \<^item> \<open>Gate_Proxy\<close>: \<open>proxy/*.go\<close>. \<open>Gate_Routes\<close>: \<open>routes/*.go\<close> and \<open>middleware/entrypoint.go\<close>.
  \<^item> \<open>Gate_Locator\<close>: \<open>assembly/locator.go\<close> (\<open>Handler\<close> builds the chain of every location), and \<open>New\<close> and
    \<open>ReceiveConfig\<close> of \<open>assembly/assembly.go\<close>.

  \<^bold>\<open>What composes them.\<close>

  \<^item> \<open>Gate_Access\<close>: the chain of the access middlewares is itself an \<open>access_middleware\<close>
    (interpretation \<open>access\<close>), by the lemma that two of the contract in a row are one of the
    contract; \<open>granted\<close> says what a request has shown once it is through. The locales
    \<open>gate_relation\<close> and \<open>gate_invariant\<close> carry a relation between states from the services through
    every middleware to the whole handler of a location.
  \<^item> \<open>Gate_Configuration\<close>: which configurations are accepted, and what they replace.
  \<^item> \<open>Gate_Server\<close>: the running gateway. \<open>server_step\<close> is one event: a configuration, an
    announcement of routes, a request, a tick of the cleaner, or a move of the outside world;
    \<open>reachable\<close> are the states after \<open>New\<close> and any such events. \<open>vouched\<close> is the invariant of the
    caches. The locale \<open>vouching_services\<close> says what the checks need of the services behind them
    for a request to act for whom it says; it is interpreted on the gateway's services (\<open>own\<close>) and
    on the interleaved ones (\<open>interleaved\<close>).
  \<^item> \<open>Gate_Interleaving\<close>: the calls of the caching services taken apart into single operations (a
    lookup, a call of a module, a store), as programs (\<open>prog\<close>) that any number of requests run in any
    interleaving, with configurations, the cleaner and the outside world in between; a call keeps
    the caches of the configuration it started under. Run alone, a program computes its service.
  \<^item> \<open>Concurrent_Requests\<close>: the whole handler of a location on these calls (\<open>interleaved_handler\<close>), in an
    environment (\<open>shared_ext\<close>) in which every use of the outside world, by the logger, the request
    identifier or a proxy, is a move of the world all requests share. \<open>Requests_Alone\<close>: a simulation
    (\<open>computes\<close>, with \<open>solo\<close> as the abstraction) of the sequential model by this one.
  \<^item> \<open>Gate_Lifecycle\<close>: \<open>Runners\<close> and \<open>Closers\<close> of \<open>assembly/assembly.go\<close>, with the registrations under
    which the clients of the locations get their addresses. \<open>Gate_Process\<close>: \<open>main.go\<close> as a trace of calls
    of the application object, the local configuration in \<open>New\<close>, and \<open>ReceiveConfig\<close> from the bytes of a
    remote configuration on; a \<open>kit\<close> holds the two readers and whether \<open>Fatal\<close> comes back.
  \<^item> \<open>Gate_Settings\<close>: what the seconds and megabytes of a configuration amount to in 64 bits.
  \<^item> \<open>Gate_Panics\<close>: where the gateway cannot panic.

  \<^bold>\<open>What is shown.\<close> Behind a location with authentication the proxy runs only for a request every
  check has granted, once, and for the identity its own credentials have by the word of the
  modules, also when that word comes from a cache, and in every reachable state; a refused request
  is answered with 401, 403, 429 or 500 and a body; the checks do not panic when the modules send
  data with their positive answers. The same holds of the caches, of the answers of the
  services and of whole requests, from the logger to the call of the proxy, when the calls of many
  requests are interleaved operation by operation; every call ends after at most three of its own
  operations, and without interference the interleaved gateway is the sequential one, at every
  location and for every proxy. The caches refine the history of their calls; the services fail
  closed; the daily limit is exact under a counting lock module; a permission outlives its
  revocation by the configured number of seconds and no longer, and a body passes up to the
  configured number of megabytes. A configuration is applied as a whole or not at all, one that
  cannot be read ends the process, and a process that runs has a registered client for every
  location. Each proxy is
  characterised by what it sends and what its client gets for every outcome of the transport. The
  unescaping of logged bodies ends, stays within its buffer and computes the reference decoder.
  Some properties state behaviour that is surprising rather than desired: prefixes with a leading
  slash, an unreadable body that is answered with 200, the panic on a nil map of extra headers, the
  panic on a path no URL may hold, an escaped backslash before a \<open>u\<close>, a counter beyond the signed
  range.

  \<^bold>\<open>How to read the statements.\<close> The code outside the repository is the argument \<open>x\<close>, and the state
  of everything outside is a value of any type \<open>'w\<close> that every call may change, so failures and
  answers that vary from call to call are included. What a theorem needs of that code is a premise
  of it: a codec that reads back what it wrote, a lock module that counts, a router that finds only
  what was registered, the documented behaviour of Redis. \<open>vouched\<close> and \<open>attributed\<close> speak of what a
  module answers in some state of the world. The user cache joins endpoint and token with a colon
  into one key, so its invariant is about an endpoint and a token with the same joined key.
  \<open>direct s\<close>: the response is not captured by the logger's buffer, nothing has been sent on it, and
  writing to it works.

  \<^bold>\<open>Bounds and recursion.\<close> No fuel is used. The loops of the unescaper are \<open>function\<close>s whose
  termination is proved by the distance of the read index to the end of the input, the reference
  decoder and the trimming of separators by the length of the rest; \<open>StartCleaner\<close> is a recursion
  over the events its select receives; every other loop is structural. Integers of the
  source stay 64 bits wide where they are compared, multiplied or converted; the clock is an unbounded integer
  of nanoseconds.

  \<^bold>\<open>Limits of the model.\<close> In \<open>Gate_Server\<close> a request is one event. \<open>Gate_Interleaving\<close> and
  \<open>Concurrent_Requests\<close> lift this for the operations requests share, the caches, the modules and the rest
  of the outside world; what a handler does between two of them reads and writes only the
  request's own context and response, and is not taken apart. A schedule says what else happens
  during a call of a caching service, and anything may happen to the world between two uses of it
  through the functions of the environment, which are arbitrary. Log and metrics are kept in the order of whole requests. The operations of a
  cache hold its lock and are atomic in the code too. Of \<open>Routes.router\<close>, which the code replaces without
  synchronisation, only the atomic replacement is modelled. A descriptor that makes \<open>httprouter\<close>
  panic, which the code recovers from, stays in the table of the model, and the lookup function of
  the environment decides what is found.

  \<^bold>\<open>Not modelled.\<close> The listening server, the cluster client, the parsing and validation of configurations
  and the delivery of signals are the kit library's, with no decision of the gateway's own. The schema hooks of \<open>conf/remote.go\<close> generate documentation. Of
  \<open>proxy/http.go\<close> and \<open>proxy/ws.go\<close>, the settings of transports and upgraders (pool sizes, timeouts of
  connections, \<open>CheckOrigin\<close>) configure libraries, which are arguments of the model. Constructors
  that only store their arguments are the partial applications of the operations. Tests and
  benchmarks are not modelled.
\<close>

section \<open>Properties\<close>

text \<open>
  C3. In every reachable state of the gateway the caches hold nothing but what the modules have said:
  application data come from an authenticated answer of the system module for that token, permissions
  from positive answers for that application or administrator, user data from an authenticated answer
  for an endpoint and token with the same joined key. Configurations, new routes, requests of any
  kind, failed or panicking ones included, the cleaner and everything outside keep it so.
\<close>

theorem caches_vouched:
  assumes "reachable x cs locations v"
  shows "vouched x (sv_gate v) \<and> serving x cs locations (sv_mux v)"
  using assms by (rule reachable_vouched)

text \<open>
  C2. End to end: in every reachable state, a request to a location that authenticates either never
  reaches the proxy, or the proxy is run once, for a request whose identity the modules have vouched
  for: the application is the one its own token (in header, query or basic authorization) belongs
  to, by the name it gave, and the system module permits it the method and path (or an administrator
  is authenticated); the user is the one the authentication endpoint of the module's setting knows
  by the extracted token; the administrator is the one the admin module knows by the token, and has
  the permission an inner endpoint requires.
\<close>

theorem requests_attributed:
  assumes "reachable x cs locations v"
  shows "(\<exists>out. \<forall>proxy. authenticated_handler x config settings log proxy ((sv_gate v)\<lparr>g_ctx := NewContext req w meta\<rparr>) = out) \<or>
    (\<exists>k s'. attributed x settings req meta (g_ctx s') \<and>
      (\<forall>proxy. authenticated_handler x config settings log proxy ((sv_gate v)\<lparr>g_ctx := NewContext req w meta\<rparr>) =
         k (Metrics x proxy s')))"
  using location_runs [where x = x and config = config and log = log and s = "sv_gate v" and req = req and w = w and meta = meta
      and skip = "cl_SkipBodyLoggingEndpointPrefixes (cr_Logging config)",
      OF access.access_middleware_axioms [of x config settings]]
proof (elim disjE exE conjE)
  fix k s1 s' b g w'
  assume n: "g_ctx s1 = NewContext (req\<lparr>rq_Body := b, rq_Context := g\<rparr>) w' meta" and sc: "before_checks x (sv_gate v) s1"
    and a: "access_admits x config settings s1 s'"
    and h: "\<forall>proxy. Chain proxy ([location_logger x config log (cl_SkipBodyLoggingEndpointPrefixes (cr_Logging config)),
      RequestId x, ErrorHandler x] @ access_chain x config settings @ [Metrics x]) ((sv_gate v)\<lparr>g_ctx := NewContext req w meta\<rparr>) =
        k (Metrics x proxy s')"
  have "vouched x s1"
    using reachable_vouched [OF assms] vouched_same_caches [of "sv_gate v" s1 x] sc by (simp add: before_checks_def)
  from access_admits_attributed [OF a this n] h show ?thesis
    unfolding authenticated_handler_def by blast
qed (auto simp: authenticated_handler_def)

section \<open>Witnesses\<close>

theorem caches_vouched_witness:
  "vouched idle (sv_gate sample_server) \<and> serving idle sample_clients [sample_location] (sv_mux sample_server)"
  by (rule caches_vouched [OF sample_server_reachable])

theorem requests_attributed_witness:
  "(\<exists>out. \<forall>proxy. authenticated_handler idle sample_config Map.empty False proxy
       ((sv_gate sample_server)\<lparr>g_ctx := NewContext sample_request ServerWriter zero_EndpointMeta\<rparr>) = out) \<or>
   (\<exists>k s'. attributed (idle :: unit ext) Map.empty sample_request zero_EndpointMeta (g_ctx s') \<and>
      (\<forall>proxy. authenticated_handler idle sample_config Map.empty False proxy
         ((sv_gate sample_server)\<lparr>g_ctx := NewContext sample_request ServerWriter zero_EndpointMeta\<rparr>) =
           k (Metrics idle proxy s')))"
  using requests_attributed [OF sample_server_reachable, of sample_config Map.empty False sample_request ServerWriter zero_EndpointMeta]
  by blast

end
